(* ===== verification/Prelude.thy ===== *)
theory Prelude
  imports Main "HOL-Library.Word"
begin

text \<open>
  What every component of the model uses: the parts of Rust's standard library the
  source calls (strings, number parsing and printing, casts), and the SQL statements
  as operations on lists of rows.  A Rust \<open>String\<close> is the list of its UTF-8 bytes
  (\<^typ>\<open>string\<close>); \<open>chars\<close> gives its Unicode scalar values.  A timestamp is an
  \<^typ>\<open>int\<close>, in microseconds since the Unix epoch (the resolution of PostgreSQL's
  \<open>timestamptz\<close>).  A SQL table is the list of its rows.
\<close>

named_theorems sql \<comment> \<open>facts about the SQL statements, safe as simp rules\<close>
named_theorems str \<comment> \<open>definitions of the string functions, for evaluation\<close>

type_synonym time = int
type_synonym uuid = nat

abbreviation micros_per_second :: int where
  "micros_per_second \<equiv> 1000000"

text \<open>\<open>chrono::Duration::seconds/minutes/hours/days\<close>, in microseconds.\<close>

definition seconds :: "int \<Rightarrow> int" where "seconds n = n * 1000000"
definition minutes :: "int \<Rightarrow> int" where "minutes n = n * 60 * 1000000"
definition hours :: "int \<Rightarrow> int" where "hours n = n * 3600 * 1000000"
definition days :: "int \<Rightarrow> int" where "days n = n * 86400 * 1000000"

text \<open>\<open>DateTime::timestamp\<close>: whole seconds, rounded towards minus infinity.\<close>

definition timestamp :: "time \<Rightarrow> int" where "timestamp t = t div 1000000"

lemma timestamp_le: "seconds (timestamp t) \<le> t"
  unfolding seconds_def timestamp_def by presburger

lemma timestamp_gt: "t < seconds (timestamp t + 1)"
  unfolding seconds_def timestamp_def by presburger

lemma timestamp_mono: "s \<le> t \<Longrightarrow> timestamp s \<le> timestamp t"
  by (simp add: timestamp_def zdiv_mono1)

text \<open>\<open>Option::unwrap_or\<close>.\<close>

fun unwrap_or :: "'a option \<Rightarrow> 'a \<Rightarrow> 'a" where
  "unwrap_or (Some a) d = a"
| "unwrap_or None d = d"

section \<open>Casts between machine integers\<close>

definition as_i32 :: "int \<Rightarrow> int" where
  "as_i32 n = sint (word_of_int n :: 32 word)"

definition as_i64 :: "64 word \<Rightarrow> int" where
  "as_i64 w = sint w"

lemma as_i32_in_range: "- (2 ^ 31) \<le> n \<Longrightarrow> n < 2 ^ 31 \<Longrightarrow> as_i32 n = n"
  by (simp add: as_i32_def sint_sbintrunc' signed_take_bit_int_eq_self)

section \<open>UTF-8\<close>

definition is_cont :: "nat \<Rightarrow> bool" where
  "is_cont c \<longleftrightarrow> 128 \<le> c \<and> c < 192"

text \<open>
  \<open>std::str::from_utf8\<close>: the scalar values of a byte sequence, \<open>None\<close> where it is not
  well formed (overlong forms, surrogates and values beyond U+10FFFF included).
\<close>

fun utf8_decode :: "nat list \<Rightarrow> nat list option" where
  "utf8_decode [] = Some []"
| "utf8_decode (b # bs) =
    (if b < 128 then map_option ((#) b) (utf8_decode bs)
     else if 194 \<le> b \<and> b < 224 then
       (case bs of c1 # r \<Rightarrow>
          if is_cont c1
          then map_option ((#) ((b - 192) * 64 + (c1 - 128))) (utf8_decode r)
          else None
        | _ \<Rightarrow> None)
     else if 224 \<le> b \<and> b < 240 then
       (case bs of c1 # c2 # r \<Rightarrow>
          if is_cont c1 \<and> is_cont c2 \<and> (b = 224 \<longrightarrow> 160 \<le> c1) \<and> (b = 237 \<longrightarrow> c1 < 160)
          then map_option ((#) ((b - 224) * 4096 + (c1 - 128) * 64 + (c2 - 128)))
                 (utf8_decode r)
          else None
        | _ \<Rightarrow> None)
     else if 240 \<le> b \<and> b < 245 then
       (case bs of c1 # c2 # c3 # r \<Rightarrow>
          if is_cont c1 \<and> is_cont c2 \<and> is_cont c3
             \<and> (b = 240 \<longrightarrow> 144 \<le> c1) \<and> (b = 244 \<longrightarrow> c1 < 144)
          then map_option ((#) ((b - 240) * 262144 + (c1 - 128) * 4096
                                 + (c2 - 128) * 64 + (c3 - 128)))
                 (utf8_decode r)
          else None
        | _ \<Rightarrow> None)
     else None)"

definition is_scalar :: "nat \<Rightarrow> bool" where
  "is_scalar c \<longleftrightarrow> c < 55296 \<or> (57344 \<le> c \<and> c < 1114112)"

definition utf8_encode1 :: "nat \<Rightarrow> nat list" where
  "utf8_encode1 c =
    (if c < 128 then [c]
     else if c < 2048 then [192 + c div 64, 128 + c mod 64]
     else if c < 65536 then [224 + c div 4096, 128 + (c div 64) mod 64, 128 + c mod 64]
     else [240 + c div 262144, 128 + (c div 4096) mod 64, 128 + (c div 64) mod 64,
           128 + c mod 64])"

definition bytes_of :: "string \<Rightarrow> nat list" where
  "bytes_of s = map of_char s"

definition string_of_bytes :: "nat list \<Rightarrow> string" where
  "string_of_bytes bs = map char_of bs"

text \<open>\<open>str::chars\<close>; a Rust \<open>str\<close> is always well-formed UTF-8.\<close>

definition chars :: "string \<Rightarrow> nat list" where
  "chars s = (case utf8_decode (bytes_of s) of Some cs \<Rightarrow> cs | None \<Rightarrow> bytes_of s)"

definition of_chars :: "nat list \<Rightarrow> string" where
  "of_chars cs = string_of_bytes (concat (map utf8_encode1 cs))"

lemmas [str] = chars_def of_chars_def bytes_of_def string_of_bytes_def utf8_encode1_def
  is_cont_def

lemma utf8_decode2:
  assumes "2 \<le> x" "x < 32" "y < 64"
  shows "utf8_decode ((192 + x) # (128 + y) # bs) = map_option ((#) (x * 64 + y)) (utf8_decode bs)"
  using assms by (auto simp: is_cont_def)

lemma utf8_decode3:
  assumes "x < 16" "y < 64" "z < 64" "x = 0 \<longrightarrow> 32 \<le> y" "x = 13 \<longrightarrow> y < 32"
  shows "utf8_decode ((224 + x) # (128 + y) # (128 + z) # bs)
           = map_option ((#) (x * 4096 + y * 64 + z)) (utf8_decode bs)"
  using assms by (auto simp: is_cont_def add.assoc)

lemma utf8_decode4:
  assumes "w < 5" "x < 64" "y < 64" "z < 64" "w = 0 \<longrightarrow> 16 \<le> x" "w = 4 \<longrightarrow> x < 16"
  shows "utf8_decode ((240 + w) # (128 + x) # (128 + y) # (128 + z) # bs)
           = map_option ((#) (w * 262144 + x * 4096 + y * 64 + z)) (utf8_decode bs)"
  using assms by (auto simp: is_cont_def add.assoc)

lemma utf8_decode_encode1:
  assumes "is_scalar c"
  shows "utf8_decode (utf8_encode1 c @ bs) = map_option ((#) c) (utf8_decode bs)"
proof -
  consider "c < 128" | "128 \<le> c" "c < 2048" | "2048 \<le> c" "c < 65536" | "65536 \<le> c"
    by linarith
  then show ?thesis
  proof cases
    case 1
    then show ?thesis by (simp add: utf8_encode1_def)
  next
    case 2
    then have enc: "utf8_encode1 c = [192 + c div 64, 128 + c mod 64]"
      by (simp add: utf8_encode1_def)
    have e: "c div 64 * 64 + c mod 64 = c" by presburger
    have "2 \<le> c div 64" "c div 64 < 32" "c mod 64 < 64" using 2 by auto
    from utf8_decode2 [OF this, of bs] show ?thesis by (simp only: enc e append.simps)
  next
    case 3
    let ?x = "c div 64 div 64" and ?y = "c div 64 mod 64" and ?z = "c mod 64"
    from 3 have enc: "utf8_encode1 c = [224 + ?x, 128 + ?y, 128 + ?z]"
      by (simp add: utf8_encode1_def div_mult2_eq [symmetric])
    have e: "?x * 4096 + ?y * 64 + ?z = c"
      using div_mult_mod_eq [of c 64] div_mult_mod_eq [of "c div 64" 64] by linarith
    have yz: "?y < 64" "?z < 64" by simp_all
    have "?x < 16" using 3 e by linarith
    moreover note yz
    moreover have "?x = 0 \<longrightarrow> 32 \<le> ?y" using 3 e yz by linarith
    moreover have "?x = 13 \<longrightarrow> ?y < 32"
      using assms 3 e yz unfolding is_scalar_def by linarith
    ultimately have "utf8_decode ((224 + ?x) # (128 + ?y) # (128 + ?z) # bs)
        = map_option ((#) (?x * 4096 + ?y * 64 + ?z)) (utf8_decode bs)"
      by (rule utf8_decode3)
    then show ?thesis by (simp only: enc e append.simps)
  next
    case 4
    let ?w = "c div 64 div 64 div 64" and ?x = "c div 64 div 64 mod 64"
      and ?y = "c div 64 mod 64" and ?z = "c mod 64"
    from 4 have enc: "utf8_encode1 c = [240 + ?w, 128 + ?x, 128 + ?y, 128 + ?z]"
      by (simp add: utf8_encode1_def div_mult2_eq [symmetric])
    have e: "?w * 262144 + ?x * 4096 + ?y * 64 + ?z = c"
      using div_mult_mod_eq [of c 64] div_mult_mod_eq [of "c div 64" 64]
        div_mult_mod_eq [of "c div 64 div 64" 64] by linarith
    have xyz: "?x < 64" "?y < 64" "?z < 64" by simp_all
    have "c < 1114112" using assms 4 unfolding is_scalar_def by linarith
    then have "?w < 5" using e by linarith
    moreover note xyz
    moreover have "?w = 0 \<longrightarrow> 16 \<le> ?x" using 4 e xyz by linarith
    moreover have "?w = 4 \<longrightarrow> ?x < 16" using \<open>c < 1114112\<close> e by linarith
    ultimately have "utf8_decode ((240 + ?w) # (128 + ?x) # (128 + ?y) # (128 + ?z) # bs)
        = map_option ((#) (?w * 262144 + ?x * 4096 + ?y * 64 + ?z)) (utf8_decode bs)"
      by (rule utf8_decode4)
    then show ?thesis by (simp only: enc e append.simps)
  qed
qed

lemma utf8_decode_encode:
  "\<forall>c\<in>set cs. is_scalar c \<Longrightarrow> utf8_decode (concat (map utf8_encode1 cs)) = Some cs"
  by (induction cs) (simp_all add: utf8_decode_encode1)

lemma is_scalar2: "194 \<le> b \<Longrightarrow> b < 224 \<Longrightarrow> is_cont c1 \<Longrightarrow> is_scalar ((b - 192) * 64 + (c1 - 128))"
  unfolding is_scalar_def is_cont_def by linarith

lemma is_scalar3:
  assumes "224 \<le> b" "b < 240" "is_cont c1" "is_cont c2" "b = 237 \<longrightarrow> c1 < 160"
  shows "is_scalar ((b - 224) * 4096 + (c1 - 128) * 64 + (c2 - 128))"
proof -
  consider "b < 237" | "b = 237" | "237 < b" by linarith
  then show ?thesis
    using assms unfolding is_scalar_def is_cont_def by cases linarith+
qed

lemma is_scalar4:
  assumes "240 \<le> b" "b < 245" "is_cont c1" "is_cont c2" "is_cont c3"
    "b = 240 \<longrightarrow> 144 \<le> c1" "b = 244 \<longrightarrow> c1 < 144"
  shows "is_scalar ((b - 240) * 262144 + (c1 - 128) * 4096 + (c2 - 128) * 64 + (c3 - 128))"
proof -
  consider "b = 240" | "240 < b" "b < 244" | "b = 244" using assms by linarith
  then show ?thesis
    using assms unfolding is_scalar_def is_cont_def by cases linarith+
qed

lemma utf8_decode_scalar: "utf8_decode bs = Some cs \<Longrightarrow> \<forall>c\<in>set cs. is_scalar c"
proof (induction bs arbitrary: cs rule: utf8_decode.induct)
  case 1
  then show ?case by simp
next
  case (2 b bs)
  have ascii: "b < 128 \<Longrightarrow> is_scalar b" by (simp add: is_scalar_def)
  show ?case
  proof (cases "b < 128")
    case True
    with 2 ascii show ?thesis by auto
  next
    case b1: False
    consider (two) "194 \<le> b" "b < 224" | (three) "224 \<le> b" "b < 240" | (four) "240 \<le> b" "b < 245"
      using "2.prems" b1 by (fastforce split: if_splits)
    then show ?thesis
    proof cases
      case two
      with b1 "2.prems" "2.IH"(2) is_scalar2 show ?thesis
        by (auto split: list.splits if_splits)
    next
      case three
      then have "\<not> (194 \<le> b \<and> b < 224)" by simp
      with three b1 "2.prems" "2.IH"(3) is_scalar3 show ?thesis
        by (auto split: list.splits if_splits)
    next
      case four
      then have "\<not> (194 \<le> b \<and> b < 224)" "\<not> (224 \<le> b \<and> b < 240)" by simp_all
      with four b1 "2.prems" "2.IH"(4) is_scalar4 show ?thesis
        by (auto split: list.splits if_splits)
    qed
  qed
qed

lemma utf8_encode1_byte: "is_scalar c \<Longrightarrow> \<forall>b\<in>set (utf8_encode1 c). b < 256"
  by (auto simp: utf8_encode1_def is_scalar_def)

lemma bytes_string_of_bytes: "\<forall>b\<in>set bs. b < 256 \<Longrightarrow> bytes_of (string_of_bytes bs) = bs"
  by (induction bs) (auto simp: bytes_of_def string_of_bytes_def)

lemma bytes_of_chars:
  assumes "\<forall>c\<in>set cs. is_scalar c"
  shows "bytes_of (of_chars cs) = concat (map utf8_encode1 cs)"
  unfolding of_chars_def
  by (rule bytes_string_of_bytes) (use assms utf8_encode1_byte in fastforce)

lemma chars_of_chars: "\<forall>c\<in>set cs. is_scalar c \<Longrightarrow> chars (of_chars cs) = cs"
  by (simp add: chars_def bytes_of_chars utf8_decode_encode)

lemma bytes_of_bound: "b \<in> set (bytes_of s) \<Longrightarrow> b < 256"
  by (auto simp: bytes_of_def)

lemma chars_scalar: "\<forall>c\<in>set (chars s). is_scalar c"
proof (cases "utf8_decode (bytes_of s)")
  case None
  then show ?thesis using bytes_of_bound by (fastforce simp: chars_def is_scalar_def)
next
  case (Some cs)
  then show ?thesis using utf8_decode_scalar by (simp add: chars_def)
qed

section \<open>Strings\<close>

text \<open>\<open>char::is_whitespace\<close> (the White_Space property) and \<open>char::is_control\<close> (category Cc).\<close>

definition is_whitespace :: "nat \<Rightarrow> bool" where
  "is_whitespace c \<longleftrightarrow> (9 \<le> c \<and> c \<le> 13) \<or> c = 32 \<or> c = 133 \<or> c = 160 \<or> c = 5760
     \<or> (8192 \<le> c \<and> c \<le> 8202) \<or> c = 8232 \<or> c = 8233 \<or> c = 8239 \<or> c = 8287 \<or> c = 12288"

definition is_control :: "nat \<Rightarrow> bool" where
  "is_control c \<longleftrightarrow> c < 32 \<or> (127 \<le> c \<and> c \<le> 159)"

definition trim_by :: "('a \<Rightarrow> bool) \<Rightarrow> 'a list \<Rightarrow> 'a list" where
  "trim_by p xs = rev (dropWhile p (rev (dropWhile p xs)))"

definition str_trim :: "string \<Rightarrow> string" where
  "str_trim s = of_chars (trim_by is_whitespace (chars s))"

definition trim_end_matches :: "char \<Rightarrow> string \<Rightarrow> string" where
  "trim_end_matches c s = rev (dropWhile ((=) c) (rev s))"

definition ascii_lower :: "char \<Rightarrow> char" where
  "ascii_lower c = (let n = of_char c :: nat in
     if 65 \<le> n \<and> n \<le> 90 then char_of (n + 32) else c)"

definition to_ascii_lowercase :: "string \<Rightarrow> string" where
  "to_ascii_lowercase s = map ascii_lower s"

fun strip_prefix :: "string \<Rightarrow> string \<Rightarrow> string option" where
  "strip_prefix [] s = Some s"
| "strip_prefix (p # ps) [] = None"
| "strip_prefix (p # ps) (c # cs) = (if p = c then strip_prefix ps cs else None)"

definition starts_with :: "string \<Rightarrow> string \<Rightarrow> bool" where
  "starts_with p s \<longleftrightarrow> take (length p) s = p"

fun str_contains :: "string \<Rightarrow> string \<Rightarrow> bool" where
  "str_contains p [] = (p = [])"
| "str_contains p (c # cs) = (take (length p) (c # cs) = p \<or> str_contains p cs)"

text \<open>\<open>str::split(c)\<close>: the pieces between the separators, at least one.\<close>

fun split_on :: "char \<Rightarrow> string \<Rightarrow> string list" where
  "split_on sep [] = [[]]"
| "split_on sep (c # cs) =
    (if c = sep then [] # split_on sep cs
     else (case split_on sep cs of p # ps \<Rightarrow> (c # p) # ps | [] \<Rightarrow> [[c]]))"

text \<open>\<open>str::split_once(c)\<close>: at the first occurrence.\<close>

fun split_once :: "char \<Rightarrow> string \<Rightarrow> (string \<times> string) option" where
  "split_once sep [] = None"
| "split_once sep (c # cs) =
    (if c = sep then Some ([], cs)
     else map_option (\<lambda>(a, b). (c # a, b)) (split_once sep cs))"

lemma strip_prefix_append [simp]: "strip_prefix p (p @ s) = Some s"
  by (induction p) auto

lemma strip_prefix_Some: "strip_prefix p s = Some r \<longleftrightarrow> s = p @ r"
  by (induction p s rule: strip_prefix.induct) auto

lemma split_on_nonempty [simp]: "split_on c s \<noteq> []"
  by (induction s) (auto split: list.splits)

lemma split_once_append: "sep \<notin> set a \<Longrightarrow> split_once sep (a @ sep # b) = Some (a, b)"
  by (induction a) auto

lemma split_once_None: "sep \<notin> set a \<Longrightarrow> split_once sep a = None"
  by (induction a) auto

lemma dropWhile_idem: "dropWhile p (dropWhile p xs) = dropWhile p xs"
  by (induction xs) auto

lemma trim_by_last: "trim_by p xs \<noteq> [] \<Longrightarrow> \<not> p (last (trim_by p xs))"
  unfolding trim_by_def by (metis hd_dropWhile last_rev rev_is_Nil_conv)

lemma dropWhile_prefix_hd:
  "dropWhile p xs = y # ys \<Longrightarrow> rev (dropWhile p (rev (y # ys))) \<noteq> [] \<and>
     hd (rev (dropWhile p (rev (y # ys)))) = y"
proof -
  assume a: "dropWhile p xs = y # ys"
  then have ny: "\<not> p y" by (metis hd_dropWhile list.distinct(1) list.sel(1))
  show ?thesis
  proof (cases "\<exists>x\<in>set ys. \<not> p x")
    case True
    then show ?thesis by (auto simp: dropWhile_append)
  next
    case False
    then have "dropWhile p (rev ys @ [y]) = [y]" using ny by (simp add: dropWhile_append3)
    then show ?thesis by simp
  qed
qed

lemma trim_by_hd: "trim_by p xs \<noteq> [] \<Longrightarrow> \<not> p (hd (trim_by p xs))"
proof (cases "dropWhile p xs")
  case Nil
  then show "trim_by p xs \<noteq> [] \<Longrightarrow> ?thesis" by (simp add: trim_by_def)
next
  case (Cons y ys)
  then have "\<not> p y" by (metis hd_dropWhile list.distinct(1) list.sel(1))
  with dropWhile_prefix_hd [OF Cons] Cons show "trim_by p xs \<noteq> [] \<Longrightarrow> ?thesis"
    by (simp add: trim_by_def)
qed

lemma trim_by_fix:
  assumes "xs = [] \<or> \<not> p (hd xs) \<and> \<not> p (last xs)"
  shows "trim_by p xs = xs"
proof (cases xs)
  case (Cons y ys)
  with assms have d: "dropWhile p xs = xs" by simp
  obtain z zs where z: "rev xs = z # zs" using Cons by (cases "rev xs") auto
  then have "last xs = z" by (metis last_rev list.sel(1) rev_rev_ident rev_is_Nil_conv list.distinct(1))
  with assms Cons z have "dropWhile p (rev xs) = rev xs" by simp
  with d show ?thesis by (simp add: trim_by_def)
qed (simp add: trim_by_def)

lemma trim_by_idem: "trim_by p (trim_by p xs) = trim_by p xs"
  by (rule trim_by_fix) (auto simp: trim_by_hd trim_by_last)

lemma set_trim_by: "set (trim_by p xs) \<subseteq> set xs"
  unfolding trim_by_def by (metis set_dropWhileD set_rev subsetI)

lemma length_trim_by: "length (trim_by p xs) \<le> length xs"
  unfolding trim_by_def by (metis length_dropWhile_le le_trans length_rev)

lemma chars_str_trim: "chars (str_trim s) = trim_by is_whitespace (chars s)"
  unfolding str_trim_def
  by (rule chars_of_chars) (use chars_scalar set_trim_by in fastforce)

lemma str_trim_idem: "str_trim (str_trim s) = str_trim s"
  by (metis chars_str_trim str_trim_def trim_by_idem)

definition is_graphic :: "char \<Rightarrow> bool" where
  "is_graphic c \<longleftrightarrow> (let n = of_char c :: nat in 32 < n \<and> n < 127)"

lemma utf8_decode_ascii: "\<forall>b\<in>set bs. b < 128 \<Longrightarrow> utf8_decode bs = Some bs"
  by (induction bs) auto

lemma utf8_encode_ascii: "\<forall>b\<in>set bs. b < 128 \<Longrightarrow> concat (map utf8_encode1 bs) = bs"
  by (induction bs) (auto simp: utf8_encode1_def)

lemma chars_ascii: "\<forall>c\<in>set s. of_char c < (128::nat) \<Longrightarrow> chars s = bytes_of s"
  by (auto simp: chars_def bytes_of_def utf8_decode_ascii)

lemma of_chars_ascii: "\<forall>c\<in>set s. of_char c < (128::nat) \<Longrightarrow> of_chars (bytes_of s) = s"
proof -
  assume "\<forall>c\<in>set s. of_char c < (128::nat)"
  then have "\<forall>b\<in>set (bytes_of s). b < 128" by (simp add: bytes_of_def)
  then show ?thesis
    by (simp add: of_chars_def utf8_encode_ascii) (simp add: bytes_of_def string_of_bytes_def comp_def)
qed

text \<open>Trimming keeps a printable ASCII text without blanks.\<close>

lemma str_trim_graphic: "list_all is_graphic s \<Longrightarrow> str_trim s = s"
proof -
  assume "list_all is_graphic s"
  then have g: "32 < (of_char c :: nat) \<and> of_char c < (127::nat)" if "c \<in> set s" for c
    using that by (auto simp: list_all_iff is_graphic_def Let_def)
  then have a: "\<forall>c\<in>set s. of_char c < (128::nat)" by fastforce
  have "\<not> is_whitespace b" if "b \<in> set (bytes_of s)" for b
  proof -
    from that obtain c where "c \<in> set s" "b = of_char c" by (auto simp: bytes_of_def)
    with g [of c] show ?thesis unfolding is_whitespace_def by linarith
  qed
  then have "trim_by is_whitespace (bytes_of s) = bytes_of s"
    by (intro trim_by_fix) (metis hd_in_set last_in_set)
  then show ?thesis by (simp add: str_trim_def chars_ascii [OF a] of_chars_ascii [OF a])
qed

lemma ascii_lower_idem: "ascii_lower (ascii_lower c) = ascii_lower c"
  by (auto simp: ascii_lower_def Let_def)

lemma to_ascii_lowercase_idem: "to_ascii_lowercase (to_ascii_lowercase s) = to_ascii_lowercase s"
  by (simp add: to_ascii_lowercase_def ascii_lower_idem)

section \<open>Printing and parsing numbers\<close>

definition digit :: "nat \<Rightarrow> char" where
  "digit d = char_of (48 + d)"

fun nat_str :: "nat \<Rightarrow> string" where
  "nat_str n = (if n < 10 then [digit n] else nat_str (n div 10) @ [digit (n mod 10)])"

declare nat_str.simps [simp del]

definition int_str :: "int \<Rightarrow> string" where
  "int_str i = (if i < 0 then CHR ''-'' # nat_str (nat (- i)) else nat_str (nat i))"

definition digit_val :: "char \<Rightarrow> nat option" where
  "digit_val c = (let n = of_char c :: nat in if 48 \<le> n \<and> n \<le> 57 then Some (n - 48) else None)"

fun parse_digits :: "nat \<Rightarrow> string \<Rightarrow> nat option" where
  "parse_digits acc [] = Some acc"
| "parse_digits acc (c # cs) =
    (case digit_val c of None \<Rightarrow> None | Some d \<Rightarrow> parse_digits (acc * 10 + d) cs)"

definition parse_nat :: "string \<Rightarrow> nat option" where
  "parse_nat s = (if s = [] then None else parse_digits 0 s)"

text \<open>
  \<open>str::parse\<close> for the unsigned types (an optional plus sign) and the signed ones; out of
  range is an error.
\<close>

definition parse_uint :: "nat \<Rightarrow> string \<Rightarrow> nat option" where
  "parse_uint w s =
    (case (case s of c # cs \<Rightarrow> (if c = CHR ''+'' then parse_nat cs else parse_nat s) | [] \<Rightarrow> None) of
       Some n \<Rightarrow> (if n < 2 ^ w then Some n else None)
     | None \<Rightarrow> None)"

definition parse_sint :: "nat \<Rightarrow> string \<Rightarrow> int option" where
  "parse_sint w s =
    (case (case s of
             c # cs \<Rightarrow> (if c = CHR ''-'' then map_option (\<lambda>n. - int n) (parse_nat cs)
                       else if c = CHR ''+'' then map_option int (parse_nat cs)
                       else map_option int (parse_nat s))
           | [] \<Rightarrow> None) of
       Some i \<Rightarrow> (if - (2 ^ (w - 1)) \<le> i \<and> i < 2 ^ (w - 1) then Some i else None)
     | None \<Rightarrow> None)"

definition parse_bool :: "string \<Rightarrow> bool option" where
  "parse_bool s = (if s = ''true'' then Some True else if s = ''false'' then Some False else None)"

lemma digit_val_digit [simp]: "d < 10 \<Longrightarrow> digit_val (digit d) = Some d"
  by (simp add: digit_val_def digit_def Let_def)

lemma nat_str_nonempty [simp]: "nat_str n \<noteq> []"
  by (subst nat_str.simps) simp

lemma parse_digits_append:
  "parse_digits acc (a @ b) = (case parse_digits acc a of None \<Rightarrow> None | Some x \<Rightarrow> parse_digits x b)"
  by (induction a arbitrary: acc) (auto split: option.splits)

lemma parse_digits_nat_str: "parse_digits 0 (nat_str n) = Some n"
proof (induction n rule: nat_str.induct)
  case (1 n)
  show ?case
  proof (cases "n < 10")
    case True
    then show ?thesis by (subst nat_str.simps) simp
  next
    case False
    with 1 have "parse_digits 0 (nat_str (n div 10)) = Some (n div 10)" by simp
    with False show ?thesis by (subst nat_str.simps) (simp add: parse_digits_append)
  qed
qed

lemma nat_str_digits: "c \<in> set (nat_str n) \<Longrightarrow> \<exists>d<10. c = digit d"
proof (induction n rule: nat_str.induct)
  case (1 n)
  then show ?case
    by (cases "n < 10") (auto simp: nat_str.simps [of n] intro: exI [of _ "n mod 10"])
qed

lemma digit_neq:
  "d < 10 \<Longrightarrow> digit d \<noteq> CHR ''-''" "d < 10 \<Longrightarrow> digit d \<noteq> CHR ''+''" "d < 10 \<Longrightarrow> digit d \<noteq> CHR ''|''"
  "d < 10 \<Longrightarrow> digit d \<noteq> CHR 0x0A"
  by (simp_all add: digit_def char_of_eq_iff take_bit_eq_mod)

lemma nat_str_no: "CHR ''-'' \<notin> set (nat_str n)" "CHR ''+'' \<notin> set (nat_str n)"
  "CHR ''|'' \<notin> set (nat_str n)" "CHR 0x0A \<notin> set (nat_str n)"
  using nat_str_digits digit_neq by metis+

lemma parse_nat_nat_str [simp]: "parse_nat (nat_str n) = Some n"
  by (simp add: parse_nat_def parse_digits_nat_str)

lemma parse_uint_nat_str: "n < 2 ^ w \<Longrightarrow> parse_uint w (nat_str n) = Some n"
proof -
  assume n: "n < 2 ^ w"
  obtain c cs where c: "nat_str n = c # cs" by (cases "nat_str n") auto
  then have "c \<noteq> CHR ''+''" using nat_str_no(2) [of n] by auto
  moreover have "parse_nat (c # cs) = Some n" using c parse_nat_nat_str [of n] by simp
  ultimately show ?thesis using n by (simp add: parse_uint_def c)
qed

lemma parse_sint_int_str:
  assumes "- (2 ^ (w - 1)) \<le> i" "i < 2 ^ (w - 1)"
  shows "parse_sint w (int_str i) = Some i"
proof (cases "i < 0")
  case True
  then show ?thesis using assms by (simp add: parse_sint_def int_str_def)
next
  case False
  obtain c cs where c: "nat_str (nat i) = c # cs" by (cases "nat_str (nat i)") auto
  then have "c \<noteq> CHR ''-''" "c \<noteq> CHR ''+''" using nat_str_no [of "nat i"] by auto
  moreover have "parse_nat (c # cs) = Some (nat i)" using c parse_nat_nat_str [of "nat i"] by simp
  ultimately show ?thesis using assms False by (simp add: parse_sint_def int_str_def c)
qed

lemma int_str_no: "CHR ''|'' \<notin> set (int_str i)" "CHR 0x0A \<notin> set (int_str i)"
  using nat_str_no by (auto simp: int_str_def)

lemma int_str_ascii: "c \<in> set (int_str i) \<Longrightarrow> of_char c < (128::nat)"
proof -
  have "of_char (digit d) < (128::nat)" if "d < 10" for d using that by (simp add: digit_def)
  then show "c \<in> set (int_str i) \<Longrightarrow> ?thesis"
    using nat_str_digits by (auto simp: int_str_def split: if_splits)
qed

lemma nat_str_inj: "nat_str m = nat_str n \<longleftrightarrow> m = n"
  by (metis option.inject parse_nat_nat_str)

lemma int_str_inj: "int_str i = int_str j \<Longrightarrow> i = j"
  using nat_str_no(1) nat_str_inj
  by (auto simp: int_str_def split: if_splits) (metis list.set_intros(1))+

end
