(* ===== verification/Sql.thy ===== *)
theory Sql
  imports Prelude "HOL-Library.Product_Lexorder"
begin

text \<open>
  The SQL statements of the program over tables as lists of rows, in insertion order:
  a guarded \<open>UPDATE\<close>, a \<open>DELETE\<close>, an \<open>INSERT\<close> under the table's unique constraints,
  \<open>SELECT \<dots> ORDER BY \<dots> LIMIT \<dots> OFFSET\<close>.  The contract of a table with unique
  constraints is the locale \<open>sql_table\<close>; \<open>sql_unique\<close> adds a further unique index.
  Each theory that declares a table interprets them on it.  Also the JSON values of
  \<open>serde_json\<close>, which the program stores in JSONB columns.
\<close>

section \<open>Statements\<close>

definition sql_update :: "('r \<Rightarrow> bool) \<Rightarrow> ('r \<Rightarrow> 'r) \<Rightarrow> 'r list \<Rightarrow> 'r list" where
  "sql_update w f rs = map (\<lambda>r. if w r then f r else r) rs"

definition sql_delete :: "('r \<Rightarrow> bool) \<Rightarrow> 'r list \<Rightarrow> 'r list" where
  "sql_delete w rs = filter (\<lambda>r. \<not> w r) rs"

text \<open>\<open>COUNT(*)\<close>, and \<open>rows_affected\<close> of a statement with this condition.\<close>

definition sql_count :: "('r \<Rightarrow> bool) \<Rightarrow> 'r list \<Rightarrow> nat" where
  "sql_count w rs = length (filter w rs)"

definition sql_exists :: "('r \<Rightarrow> bool) \<Rightarrow> 'r list \<Rightarrow> bool" where
  "sql_exists w rs = list_ex w rs"

text \<open>\<open>INSERT\<close>: \<open>None\<close> is a unique violation; \<open>clash\<close> is the table's unique constraints.\<close>

definition sql_insert :: "('r \<Rightarrow> 'r \<Rightarrow> bool) \<Rightarrow> 'r \<Rightarrow> 'r list \<Rightarrow> 'r list option" where
  "sql_insert clash r rs = (if list_ex (clash r) rs then None else Some (rs @ [r]))"

text \<open>\<open>ORDER BY key DESC LIMIT l OFFSET o\<close>.\<close>

definition sql_page_desc :: "('r \<Rightarrow> 'k::linorder) \<Rightarrow> nat \<Rightarrow> nat \<Rightarrow> 'r list \<Rightarrow> 'r list" where
  "sql_page_desc key l ofs rs = take l (drop ofs (rev (sort_key key (rev rs))))"

definition no_clash :: "('r \<Rightarrow> 'r \<Rightarrow> bool) \<Rightarrow> 'r list \<Rightarrow> bool" where
  "no_clash clash rs \<longleftrightarrow> sorted_wrt (\<lambda>a b. \<not> clash a b) rs"

section \<open>Facts about the statements\<close>

lemma sql_update_Nil [simp, sql]: "sql_update w f [] = []"
  by (simp add: sql_update_def)

lemma sql_update_Cons [simp, sql]:
  "sql_update w f (r # rs) = (if w r then f r else r) # sql_update w f rs"
  by (simp add: sql_update_def)

lemma sql_update_append [simp, sql]:
  "sql_update w f (rs @ rs') = sql_update w f rs @ sql_update w f rs'"
  by (simp add: sql_update_def)

lemma set_sql_update [sql]: "set (sql_update w f rs) = (\<lambda>r. if w r then f r else r) ` set rs"
  by (simp add: sql_update_def)

lemma sql_update_mem: "x \<in> set (sql_update w f rs) \<longleftrightarrow> (\<exists>r\<in>set rs. x = (if w r then f r else r))"
  by (auto simp: sql_update_def)

lemma sql_update_memE:
  assumes "x \<in> set (sql_update w f rs)"
  obtains "x \<in> set rs" "\<not> w x" | r where "r \<in> set rs" "w r" "x = f r"
  using assms by (auto simp: sql_update_def split: if_splits)

text \<open>Rows outside what the update touches are there before and after.\<close>

lemma sql_update_unaffected:
  assumes "\<And>r. r \<in> set rs \<Longrightarrow> w r \<Longrightarrow> Q r \<and> Q (f r)" "\<not> Q x"
  shows "x \<in> set (sql_update w f rs) \<longleftrightarrow> x \<in> set rs"
proof
  assume "x \<in> set (sql_update w f rs)"
  then obtain r where "r \<in> set rs" "x = (if w r then f r else r)" by (auto simp: sql_update_mem)
  with assms show "x \<in> set rs" by (metis (full_types))
next
  assume x: "x \<in> set rs"
  with assms have "\<not> w x" by blast
  with x show "x \<in> set (sql_update w f rs)" unfolding sql_update_mem by (intro bexI [of _ x]) simp_all
qed

lemma map_sql_update:
  "(\<And>r. r \<in> set rs \<Longrightarrow> w r \<Longrightarrow> k (f r) = k r) \<Longrightarrow> map k (sql_update w f rs) = map k rs"
  by (induction rs) auto

lemma length_sql_update [simp, sql]: "length (sql_update w f rs) = length rs"
  by (simp add: sql_update_def)

lemma sql_update_id: "(\<And>r. r \<in> set rs \<Longrightarrow> \<not> w r) \<Longrightarrow> sql_update w f rs = rs"
  by (induction rs) auto

lemma sql_update_where_cong:
  "(\<And>r. r \<in> set rs \<Longrightarrow> w r = w' r) \<Longrightarrow> sql_update w f rs = sql_update w' f rs"
  by (simp add: sql_update_def)

lemma find_sql_update:
  "(\<And>r. P (if w r then f r else r) = Q r) \<Longrightarrow>
   find P (sql_update w f rs) = map_option (\<lambda>r. if w r then f r else r) (find Q rs)"
  by (induction rs) auto

lemma set_sql_delete [simp, sql]: "set (sql_delete w rs) = {r \<in> set rs. \<not> w r}"
  by (auto simp: sql_delete_def)

lemma sql_count_0: "sql_count w rs = 0 \<longleftrightarrow> (\<forall>r\<in>set rs. \<not> w r)"
  by (simp add: sql_count_def filter_empty_conv)

lemma sql_exists_iff [sql]: "sql_exists w rs \<longleftrightarrow> (\<exists>r\<in>set rs. w r)"
  by (simp add: sql_exists_def list_ex_iff)

lemma sql_insert_Some:
  "sql_insert clash r rs = Some rs' \<longleftrightarrow> rs' = rs @ [r] \<and> (\<forall>x\<in>set rs. \<not> clash r x)"
  by (auto simp: sql_insert_def list_ex_iff)

lemma sql_insert_None: "sql_insert clash r rs = None \<longleftrightarrow> (\<exists>x\<in>set rs. clash r x)"
  by (auto simp: sql_insert_def list_ex_iff)

lemma set_sql_page_desc: "set (sql_page_desc key l ofs rs) \<subseteq> set rs"
proof -
  have "set (sql_page_desc key l ofs rs) \<subseteq> set (rev (sort_key key (rev rs)))"
    unfolding sql_page_desc_def using set_take_subset set_drop_subset by (rule subset_trans)
  then show ?thesis by simp
qed

lemma find_Some_mem: "find P xs = Some x \<Longrightarrow> x \<in> set xs \<and> P x"
  by (induction xs) (auto split: if_splits)

lemma find_None_all: "find P xs = None \<longleftrightarrow> (\<forall>x\<in>set xs. \<not> P x)"
  by (induction xs) auto

lemma find_append: "find P (xs @ ys) = (case find P xs of Some x \<Rightarrow> Some x | None \<Rightarrow> find P ys)"
  by (induction xs) auto

lemma find_cong_set: "(\<And>x. x \<in> set xs \<Longrightarrow> P x = Q x) \<Longrightarrow> find P xs = find Q xs"
  by (induction xs) auto

lemma find_unique:
  assumes "r \<in> set rs" "P r" "\<And>x. x \<in> set rs \<Longrightarrow> P x \<Longrightarrow> x = r"
  shows "find P rs = Some r"
  using assms
proof (induction rs)
  case (Cons y ys)
  show ?case
  proof (cases "P y")
    case True
    with Cons.prems(3) [of y] show ?thesis by simp
  next
    case False
    with Cons.prems(1,2) have "r \<in> set ys" by auto
    then have "find P ys = Some r"
      by (rule Cons.IH) (use Cons.prems(2,3) in \<open>meson list.set_intros(2)\<close>)+
    with False show ?thesis by simp
  qed
qed simp

section \<open>Tables with unique constraints\<close>

lemma no_clash_Nil [simp]: "no_clash clash []"
  by (simp add: no_clash_def)

lemma no_clash_insert:
  "no_clash clash rs \<Longrightarrow> sql_insert clash r rs = Some rs' \<Longrightarrow>
   (\<And>a b. clash a b \<Longrightarrow> clash b a) \<Longrightarrow> no_clash clash rs'"
  by (auto simp: no_clash_def sql_insert_Some sorted_wrt_append)

lemma no_clash_delete: "no_clash clash rs \<Longrightarrow> no_clash clash (sql_delete w rs)"
  unfolding no_clash_def sql_delete_def by (rule sorted_wrt_filter)

text \<open>An update that makes no two rows clash that did not clash before keeps the constraints.\<close>

lemma no_clash_update:
  assumes "no_clash clash rs"
    and "\<And>a b. a \<in> set rs \<Longrightarrow> b \<in> set rs \<Longrightarrow>
           clash (if w a then f a else a) (if w b then f b else b) \<Longrightarrow> clash a b"
  shows "no_clash clash (sql_update w f rs)"
  using assms unfolding no_clash_def sql_update_def sorted_wrt_map
  by (elim sorted_wrt_mono_rel [rotated]) blast

text \<open>
  The contract of a table: \<open>pk\<close> is its primary key and \<open>clash\<close> holds of two rows that
  no unique constraint allows together.
\<close>

locale sql_table =
  fixes clash :: "'r \<Rightarrow> 'r \<Rightarrow> bool" and pk :: "'r \<Rightarrow> 'k"
  assumes pk_clash: "pk a = pk b \<Longrightarrow> clash a b"
    and clash_sym: "clash a b \<Longrightarrow> clash b a"
begin

lemma insert_keeps: "no_clash clash rs \<Longrightarrow> sql_insert clash r rs = Some rs' \<Longrightarrow> no_clash clash rs'"
  by (rule no_clash_insert) (auto intro: clash_sym)

lemma clash_eq:
  assumes "no_clash clash rs" "a \<in> set rs" "b \<in> set rs" "clash a b"
  shows "a = b"
  using assms
proof (induction rs)
  case (Cons x xs)
  then show ?case by (auto simp: no_clash_def dest: clash_sym)
qed simp

lemma pk_unique: "no_clash clash rs \<Longrightarrow> a \<in> set rs \<Longrightarrow> b \<in> set rs \<Longrightarrow> pk a = pk b \<Longrightarrow> a = b"
  by (blast intro: clash_eq pk_clash)

lemma distinct_pk: "no_clash clash rs \<Longrightarrow> distinct (map pk rs)"
  by (induction rs) (auto simp: no_clash_def dest: pk_clash)

lemma find_pk: "no_clash clash rs \<Longrightarrow> r \<in> set rs \<Longrightarrow> find (\<lambda>x. pk x = pk r) rs = Some r"
  by (rule find_unique) (auto dest: pk_unique)

text \<open>An update by primary key touches the row that was read and no other.\<close>

lemma set_update_pk:
  assumes "no_clash clash rs" "r \<in> set rs"
  shows "set (sql_update (\<lambda>x. pk x = pk r) f rs) = insert (f r) (set rs - {r})"
proof -
  have "(if pk x = pk r then f x else x) = (if x = r then f r else x)" if "x \<in> set rs" for x
    using pk_unique [OF assms(1) that assms(2)] by auto
  then have "set (sql_update (\<lambda>x. pk x = pk r) f rs) = (\<lambda>x. if x = r then f r else x) ` set rs"
    by (simp add: set_sql_update)
  also have "\<dots> = insert (f r) (set rs - {r})" using assms(2) by auto
  finally show ?thesis .
qed

lemma find_inserted:
  assumes "sql_insert clash r rs = Some rs'"
  shows "find (\<lambda>x. pk x = pk r) rs' = Some r"
proof -
  from assms have *: "rs' = rs @ [r]" "\<And>x. x \<in> set rs \<Longrightarrow> \<not> clash r x"
    by (auto simp: sql_insert_Some)
  then have "find (\<lambda>x. pk x = pk r) rs = None"
    unfolding find_None_all using pk_clash [of r] by metis
  with * show ?thesis by (simp add: find_append)
qed

lemma update_keeps:
  assumes "no_clash clash rs" and "\<And>a. a \<in> set rs \<Longrightarrow> w a \<Longrightarrow> \<forall>b. clash (f a) b \<longrightarrow> clash a b"
  shows "no_clash clash (sql_update w f rs)"
proof (rule no_clash_update [OF assms(1)])
  fix a b
  assume ab: "a \<in> set rs" "b \<in> set rs" "clash (if w a then f a else a) (if w b then f b else b)"
  have 1: "clash (if w a then f a else a) y \<Longrightarrow> clash a y" for y
    using assms(2) [OF ab(1)] by (auto split: if_splits)
  have 2: "clash (if w b then f b else b) y \<Longrightarrow> clash b y" for y
    using assms(2) [OF ab(2)] by (auto split: if_splits)
  from 1 [OF ab(3)] clash_sym 2 show "clash a b" by blast
qed

end

text \<open>A further unique index, on \<open>uk\<close> and restricted to the rows of \<open>live\<close> when it is partial.\<close>

locale sql_unique = sql_table clash pk
  for clash :: "'r \<Rightarrow> 'r \<Rightarrow> bool" and pk :: "'r \<Rightarrow> 'k" +
  fixes uk :: "'r \<Rightarrow> 'u" and live :: "'r \<Rightarrow> bool"
  assumes uk_clash: "live a \<Longrightarrow> live b \<Longrightarrow> uk a = uk b \<Longrightarrow> clash a b"
begin

lemma uk_unique:
  "no_clash clash rs \<Longrightarrow> a \<in> set rs \<Longrightarrow> b \<in> set rs \<Longrightarrow> live a \<Longrightarrow> live b \<Longrightarrow> uk a = uk b \<Longrightarrow> a = b"
  by (blast intro: clash_eq uk_clash)

lemma find_uk:
  "no_clash clash rs \<Longrightarrow> r \<in> set rs \<Longrightarrow> live r \<Longrightarrow> find (\<lambda>x. uk x = uk r \<and> live x) rs = Some r"
  by (rule find_unique) (auto dest: uk_unique)

end

section \<open>JSON values\<close>

datatype json = JNull | JBool bool | JNum int | JStr string | JArr "json list"
  | JObj "(string \<times> json) list"

fun as_array :: "json \<Rightarrow> json list option" where
  "as_array (JArr xs) = Some xs"
| "as_array _ = None"

fun as_str :: "json \<Rightarrow> string option" where
  "as_str (JStr s) = Some s"
| "as_str _ = None"

text \<open>\<open>value["key"]\<close>: null where the value is no object or lacks the key.\<close>

fun json_index :: "json \<Rightarrow> string \<Rightarrow> json" where
  "json_index (JObj kvs) k = (case map_of kvs k of Some v \<Rightarrow> v | None \<Rightarrow> JNull)"
| "json_index _ k = JNull"

lemma as_str_Some [simp]: "as_str v = Some s \<longleftrightarrow> v = JStr s"
  by (cases v) auto

lemma as_array_Some [simp]: "as_array v = Some s \<longleftrightarrow> v = JArr s"
  by (cases v) auto

section \<open>Updates that keep keys, and tables that only evolve\<close>

lemma no_clash_update_frame:
  assumes "no_clash clash rs"
    and "\<And>a b. clash (f a) b \<longleftrightarrow> clash a b" "\<And>a b. clash a (f b) \<longleftrightarrow> clash a b"
  shows "no_clash clash (sql_update w f rs)"
  by (rule no_clash_update [OF assms(1)]) (auto simp: assms(2,3) split: if_splits)

lemma image_sql_update: "(\<And>r. k (f r) = k r) \<Longrightarrow> k ` set (sql_update w f rs) = k ` set rs"
  by (induction rs) auto

text \<open>Every row of \<open>xs\<close> survives in \<open>ys\<close>, in a form related by \<open>R\<close>.\<close>

definition evolves :: "('r \<Rightarrow> 'r \<Rightarrow> bool) \<Rightarrow> 'r list \<Rightarrow> 'r list \<Rightarrow> bool" where
  "evolves R xs ys \<longleftrightarrow> (\<forall>x\<in>set xs. \<exists>y\<in>set ys. R x y)"

lemma evolvesD: "evolves R xs ys \<Longrightarrow> x \<in> set xs \<Longrightarrow> \<exists>y\<in>set ys. R x y"
  by (simp add: evolves_def)

lemma evolves_refl: "(\<And>r. R r r) \<Longrightarrow> evolves R xs xs"
  by (auto simp: evolves_def)

lemma evolves_trans:
  "evolves R xs ys \<Longrightarrow> evolves R ys zs \<Longrightarrow> (\<And>a b c. R a b \<Longrightarrow> R b c \<Longrightarrow> R a c) \<Longrightarrow> evolves R xs zs"
  unfolding evolves_def by meson

lemma evolves_update:
  assumes "\<And>r. R r r" "\<And>r. w r \<Longrightarrow> R r (f r)"
  shows "evolves R rs (sql_update w f rs)"
  unfolding evolves_def
proof
  fix x assume "x \<in> set rs"
  then have "(if w x then f x else x) \<in> set (sql_update w f rs)" by (simp add: set_sql_update)
  moreover have "R x (if w x then f x else x)" using assms by simp
  ultimately show "\<exists>y\<in>set (sql_update w f rs). R x y" by blast
qed

lemma evolves_insert: "(\<And>r. R r r) \<Longrightarrow> sql_insert clash r rs = Some rs' \<Longrightarrow> evolves R rs rs'"
  by (auto simp: evolves_def sql_insert_Some)

text \<open>
  A system of steps that keep an invariant, and one whose every step also relates the old
  state to the new by a preorder: both lift to every sequence of steps.
\<close>

locale step_system =
  fixes inv :: "'s \<Rightarrow> bool" and step :: "'a \<Rightarrow> 's \<Rightarrow> 's"
  assumes inv_step: "inv s \<Longrightarrow> inv (step a s)"
begin

lemma inv_run: "inv s \<Longrightarrow> inv (fold step as s)"
  by (induction as arbitrary: s) (auto intro: inv_step)

end

locale monotone_system = step_system inv step
  for inv :: "'s \<Rightarrow> bool" and step :: "'a \<Rightarrow> 's \<Rightarrow> 's" +
  fixes R :: "'s \<Rightarrow> 's \<Rightarrow> bool"
  assumes R_refl: "R s s"
    and R_trans: "R s t \<Longrightarrow> R t u \<Longrightarrow> R s u"
    and R_step: "inv s \<Longrightarrow> R s (step a s)"
begin

lemma R_run: "inv s \<Longrightarrow> R s (fold step as s)"
proof (induction as arbitrary: s)
  case (Cons a as)
  have "R (step a s) (fold step as (step a s))" by (rule Cons.IH) (rule inv_step [OF Cons.prems])
  with R_step [OF Cons.prems] show ?case by (auto intro: R_trans)
qed (simp add: R_refl)

end

end
