(* ===== verification/App_Error.thy ===== *)
theory App_Error
  imports Prelude Sql
begin

text \<open>
  The error type of the whole program and its HTTP rendering
  (\<open>src/error/mod.rs\<close>): every fallible operation of the model returns
  \<open>app_error + 'a\<close>, and \<open>into_response\<close> is the only place where an error becomes a
  status code, a stable code and the message a client sees.
\<close>

section \<open>Errors\<close>

text \<open>
  What the code distinguishes of \<open>sqlx::Error\<close>: errors the database itself reports, by
  the constraint they violate, and everything else (connection, decoding, \<dots>).
\<close>

datatype db_error = UniqueViolation | ForeignKeyViolation | OtherDbError
datatype sqlx_error = Database db_error | NotDatabase

datatype app_error =
    BadRequest string
  | ValidationError string
  | Unauthorized string
  | Forbidden string
  | NotFound string
  | Conflict string
  | PayloadTooLarge string
  | TooManyRequests string
  | ServiceUnavailable string
  | DatabaseError sqlx_error
  | Internal string

type_synonym 'a result = "app_error + 'a"

definition is_unique_violation :: "db_error \<Rightarrow> bool" where
  "is_unique_violation e \<longleftrightarrow> e = UniqueViolation"

record api_error_payload =
  ep_code :: string
  ep_message :: string
  ep_details :: "json option"

record api_error_response =
  er_success :: bool
  er_error :: api_error_payload

record 'a api_response =
  ar_success :: bool
  ar_data :: 'a
  ar_meta :: "json option"

definition api_success :: "'a \<Rightarrow> 'a api_response" where
  "api_success d = \<lparr>ar_success = True, ar_data = d, ar_meta = None\<rparr>"

definition api_with_meta :: "'a \<Rightarrow> json \<Rightarrow> 'a api_response" where
  "api_with_meta d m = \<lparr>ar_success = True, ar_data = d, ar_meta = Some m\<rparr>"

text \<open>The four components the \<open>match\<close> of \<open>into_response\<close> yields.\<close>

fun error_parts :: "app_error \<Rightarrow> nat \<times> string \<times> string \<times> json option" where
  "error_parts (BadRequest msg) = (400, ''BAD_REQUEST'', msg, None)"
| "error_parts (ValidationError msg) = (422, ''VALIDATION_ERROR'', msg, None)"
| "error_parts (Unauthorized msg) = (401, ''UNAUTHORIZED'', msg, None)"
| "error_parts (Forbidden msg) = (403, ''FORBIDDEN'', msg, None)"
| "error_parts (NotFound msg) = (404, ''NOT_FOUND'', msg, None)"
| "error_parts (Conflict msg) = (409, ''CONFLICT'', msg, None)"
| "error_parts (PayloadTooLarge msg) = (413, ''PAYLOAD_TOO_LARGE'', msg, None)"
| "error_parts (TooManyRequests msg) = (429, ''TOO_MANY_REQUESTS'', msg, None)"
| "error_parts (ServiceUnavailable msg) = (503, ''SERVICE_UNAVAILABLE'', msg, None)"
| "error_parts (DatabaseError (Database e)) =
     (if is_unique_violation e
      then (409, ''CONFLICT'', ''That resource already exists'', None)
      else (500, ''DATABASE_ERROR'', ''A database error occurred'', None))"
| "error_parts (DatabaseError NotDatabase) =
     (500, ''DATABASE_ERROR'', ''A database error occurred'', None)"
| "error_parts (Internal msg) = (500, ''INTERNAL_SERVER_ERROR'', ''Internal server error'', None)"

definition into_response :: "app_error \<Rightarrow> nat \<times> api_error_response" where
  "into_response e = (case error_parts e of (status, code, message, details) \<Rightarrow>
     (status, \<lparr>er_success = False,
               er_error = \<lparr>ep_code = code, ep_message = message, ep_details = details\<rparr>\<rparr>))"

text \<open>The derived \<open>Display\<close>; \<open>txt\<close> is the text of a database error, from its crate.\<close>

fun error_display :: "(sqlx_error \<Rightarrow> string) \<Rightarrow> app_error \<Rightarrow> string" where
  "error_display txt (BadRequest m) = ''Bad request: '' @ m"
| "error_display txt (ValidationError m) = ''Validation error: '' @ m"
| "error_display txt (Unauthorized m) = ''Unauthorized: '' @ m"
| "error_display txt (Forbidden m) = ''Forbidden: '' @ m"
| "error_display txt (NotFound m) = ''Resource not found: '' @ m"
| "error_display txt (Conflict m) = ''Conflict: '' @ m"
| "error_display txt (PayloadTooLarge m) = ''Payload too large: '' @ m"
| "error_display txt (TooManyRequests m) = ''Too many requests: '' @ m"
| "error_display txt (ServiceUnavailable m) = ''Service unavailable: '' @ m"
| "error_display txt (DatabaseError e) = ''Database error: '' @ txt e"
| "error_display txt (Internal m) = ''Internal server error: '' @ m"

section \<open>Results\<close>

fun is_ok :: "'e + 'a \<Rightarrow> bool" where
  "is_ok (Inr _) = True"
| "is_ok (Inl _) = False"

text \<open>\<open>Result::ok\<close>, \<open>Option::ok_or\<close> and \<open>?\<close> on a result.\<close>

fun res_ok :: "'e + 'a \<Rightarrow> 'a option" where
  "res_ok (Inr a) = Some a"
| "res_ok (Inl _) = None"

fun ok_or :: "'e \<Rightarrow> 'a option \<Rightarrow> 'e + 'a" where
  "ok_or e None = Inl e"
| "ok_or e (Some a) = Inr a"

fun and_then :: "'e + 'a \<Rightarrow> ('a \<Rightarrow> 'e + 'b) \<Rightarrow> 'e + 'b" where
  "and_then (Inl e) f = Inl e"
| "and_then (Inr a) f = f a"

lemma ok_or_Inr [simp]: "ok_or e x = Inr a \<longleftrightarrow> x = Some a"
  by (cases x) auto

lemma and_then_Inr: "and_then x f = Inr b \<longleftrightarrow> (\<exists>a. x = Inr a \<and> f a = Inr b)"
  by (cases x) auto

lemma is_ok_iff: "is_ok x \<longleftrightarrow> (\<exists>a. x = Inr a)"
  by (cases x) auto

text \<open>
  A response never carries the text of an internal or database error: a server fault
  (status 500) has a fixed code and message that does not depend on what the error says,
  and every error response is marked unsuccessful and has a status from 400 up.
\<close>

theorem server_fault_opaque:
  "\<not> er_success (snd (into_response e)) \<and> 400 \<le> fst (into_response e) \<and>
   (fst (into_response e) = 500 \<longrightarrow>
      (ep_code (er_error (snd (into_response e))), ep_message (er_error (snd (into_response e))))
        \<in> {(''DATABASE_ERROR'', ''A database error occurred''),
           (''INTERNAL_SERVER_ERROR'', ''Internal server error'')})"
  by (cases e rule: error_parts.cases) (auto simp: into_response_def is_unique_violation_def)

theorem server_fault_opaque_witness:
  "fst (into_response (Internal ''pool: password=hunter2'')) = 500 \<and>
   ep_message (er_error (snd (into_response (Internal ''pool: password=hunter2''))))
     = ''Internal server error''"
  using server_fault_opaque [of "Internal ''pool: password=hunter2''"]
  by (simp add: into_response_def)

end
