(* ===== verification/Crypto.thy ===== *)
theory Crypto
  imports App_Error
begin

text \<open>
  Token hashing, URL signing and encryption of stored credentials
  (\<open>src/crypto/mod.rs\<close>).  The primitives the code takes from other crates (SHA-256,
  HMAC, ChaCha20-Poly1305, base64, Argon2, JWT, UUID text, the range of chrono's dates)
  are the fields of \<open>ext\<close>, the parameter of every definition that uses one of them.
  What the code relies on them for is stated as the predicates \<open>b64url_ok\<close>,
  \<open>hmac_ok\<close>, \<open>aead_ok\<close>, \<open>sha256_ok\<close>, \<open>ct_ok\<close> and \<open>uuid_ok\<close>.
\<close>

section \<open>Third-party functions\<close>

text \<open>
  The claims of an access token (\<open>src/services/auth.rs\<close>; \<open>SsoClaims\<close> is in
  \<open>src/crypto/jwks.rs\<close>) are declared here because the JWT functions carry them.
\<close>

record claims =
  cl_sub :: string
  cl_sid :: string
  cl_email :: string
  cl_role :: string
  cl_exp :: "64 word"
  cl_iat :: "64 word"

record ext =
  sha256 :: "nat list \<Rightarrow> nat list"
  hmac_sha256 :: "nat list \<Rightarrow> nat list \<Rightarrow> nat list"
  hmac_verify_slice :: "nat list \<Rightarrow> nat list \<Rightarrow> nat list \<Rightarrow> bool"
  ct_eq :: "nat list \<Rightarrow> nat list \<Rightarrow> bool"
  b64url_encode :: "nat list \<Rightarrow> string"
  b64url_decode :: "string \<Rightarrow> nat list option"
  b64std_decode :: "string \<Rightarrow> nat list option"
  aead_encrypt :: "nat list \<Rightarrow> nat list \<Rightarrow> nat list \<Rightarrow> nat list option"
  aead_decrypt :: "nat list \<Rightarrow> nat list \<Rightarrow> nat list \<Rightarrow> nat list option"
  argon2_hash :: "string \<Rightarrow> string \<Rightarrow> string option" \<comment> \<open>password, salt; \<open>None\<close> fails\<close>
  argon2_parse :: "string \<Rightarrow> bool" \<comment> \<open>\<open>PasswordHash::new\<close> succeeds\<close>
  argon2_verify :: "string \<Rightarrow> string \<Rightarrow> bool"
  argon2_params_ok :: "nat \<Rightarrow> nat \<Rightarrow> nat \<Rightarrow> bool"
  jwt_encode :: "string \<Rightarrow> claims \<Rightarrow> string option" \<comment> \<open>HS256 under this secret\<close>
  jwt_decode :: "time \<Rightarrow> string \<Rightarrow> string \<Rightarrow> claims option"
    \<comment> \<open>\<open>decode\<close> under the default validation at this moment; secret, token\<close>
  uuid_str :: "uuid \<Rightarrow> string"
  uuid_parse :: "string \<Rightarrow> uuid option"
  chrono_min :: int
  chrono_max :: int

definition b64url_ok :: "ext \<Rightarrow> bool" where
  "b64url_ok P \<longleftrightarrow> (\<forall>bs. (\<forall>b\<in>set bs. b < 256) \<longrightarrow> b64url_decode P (b64url_encode P bs) = Some bs)"

definition hmac_ok :: "ext \<Rightarrow> bool" where
  "hmac_ok P \<longleftrightarrow> (\<forall>k m t. hmac_verify_slice P k m t \<longleftrightarrow> t = hmac_sha256 P k m)
     \<and> (\<forall>k m. \<forall>b\<in>set (hmac_sha256 P k m). b < 256)"

definition ct_ok :: "ext \<Rightarrow> bool" where
  "ct_ok P \<longleftrightarrow> (\<forall>a b. length a = length b \<longrightarrow> ct_eq P a b = (a = b))"

text \<open>\<open>decrypt\<close> undoes \<open>encrypt\<close> under the same key and nonce, and the tag is never empty.\<close>

definition aead_ok :: "ext \<Rightarrow> bool" where
  "aead_ok P \<longleftrightarrow> (\<forall>k n p c. aead_encrypt P k n p = Some c \<longrightarrow>
     c \<noteq> [] \<and> (\<forall>b\<in>set c. b < 256) \<and> aead_decrypt P k n c = Some p)"

definition sha256_ok :: "ext \<Rightarrow> bool" where
  "sha256_ok P \<longleftrightarrow> (\<forall>bs. length (sha256 P bs) = 32 \<and> (\<forall>b\<in>set (sha256 P bs). b < 256))"

definition uuid_ok :: "ext \<Rightarrow> bool" where
  "uuid_ok P \<longleftrightarrow> (\<forall>u. uuid_parse P (uuid_str P u) = Some u \<and>
     (\<forall>c\<in>set (uuid_str P u). of_char c < (128::nat) \<and> c \<noteq> CHR 0x0A \<and> c \<noteq> CHR ''|'' \<and> c \<noteq> CHR ''/''))"

lemma uuid_str_inj: "uuid_ok P \<Longrightarrow> uuid_str P u = uuid_str P v \<longleftrightarrow> u = v"
  unfolding uuid_ok_def by (metis option.inject)

lemma uuid_str_ascii: "uuid_ok P \<Longrightarrow> c \<in> set (uuid_str P u) \<Longrightarrow> of_char c < (128::nat)"
  unfolding uuid_ok_def by blast

section \<open>\<open>Secret\<close>\<close>

datatype secret = Secret string

fun expose :: "secret \<Rightarrow> string" where
  "expose (Secret s) = s"

fun secret_len :: "secret \<Rightarrow> nat" where
  "secret_len (Secret s) = length s"

fun secret_is_empty :: "secret \<Rightarrow> bool" where
  "secret_is_empty (Secret s) = (s = [])"

fun secret_debug :: "secret \<Rightarrow> string" where
  "secret_debug (Secret s) = ''Secret(<redacted>)''"

fun secret_display :: "secret \<Rightarrow> string" where
  "secret_display (Secret s) = ''<redacted>''"

section \<open>Hexadecimal\<close>

definition hex_digit :: "nat \<Rightarrow> char" where
  "hex_digit n = (if n < 10 then char_of (48 + n) else char_of (87 + n))"

text \<open>\<open>{byte:02x}\<close>.\<close>

definition hex_byte :: "nat \<Rightarrow> string" where
  "hex_byte b = [hex_digit (b div 16 mod 16), hex_digit (b mod 16)]"

definition hex_val :: "char \<Rightarrow> nat option" where
  "hex_val c = (let n = of_char c :: nat in
     if 48 \<le> n \<and> n \<le> 57 then Some (n - 48)
     else if 97 \<le> n \<and> n \<le> 102 then Some (n - 87)
     else if 65 \<le> n \<and> n \<le> 70 then Some (n - 55)
     else None)"

definition is_ascii_hexdigit :: "char \<Rightarrow> bool" where
  "is_ascii_hexdigit c \<longleftrightarrow> hex_val c \<noteq> None"

text \<open>The \<open>step_by(2)\<close> walk over the pairs; \<open>filter_map\<close> drops a pair that does not parse.\<close>

fun hex_pairs :: "string \<Rightarrow> nat list" where
  "hex_pairs (a # b # r) =
     (case (hex_val a, hex_val b) of
        (Some x, Some y) \<Rightarrow> (16 * x + y) # hex_pairs r
      | _ \<Rightarrow> hex_pairs r)"
| "hex_pairs _ = []"

definition hex_decode :: "string \<Rightarrow> nat list option" where
  "hex_decode s = (if length s mod 2 \<noteq> 0 \<or> \<not> list_all is_ascii_hexdigit s then None
                   else Some (hex_pairs s))"

definition sha256_hex :: "ext \<Rightarrow> string \<Rightarrow> string" where
  "sha256_hex P s = concat (map hex_byte (sha256 P (bytes_of s)))"

lemma hex_val_digit [simp]: "n < 16 \<Longrightarrow> hex_val (hex_digit n) = Some n"
  by (auto simp: hex_val_def hex_digit_def Let_def)

lemma hex_byte_inj: "a < 256 \<Longrightarrow> b < 256 \<Longrightarrow> hex_byte a = hex_byte b \<Longrightarrow> a = b"
proof -
  assume ab: "a < 256" "b < 256" and eq: "hex_byte a = hex_byte b"
  from eq have "hex_val (hex_digit (a div 16 mod 16)) = hex_val (hex_digit (b div 16 mod 16))"
      "hex_val (hex_digit (a mod 16)) = hex_val (hex_digit (b mod 16))"
    by (simp_all add: hex_byte_def)
  then have "a div 16 = b div 16" "a mod 16 = b mod 16" using ab by simp_all
  then show "a = b" by (metis div_mult_mod_eq)
qed

lemma hex_pairs_bytes: "\<forall>b\<in>set bs. b < 256 \<Longrightarrow> hex_pairs (concat (map hex_byte bs)) = bs"
  by (induction bs) (auto simp: hex_byte_def)

lemma length_hex_bytes: "length (concat (map hex_byte bs)) = 2 * length bs"
  by (induction bs) (auto simp: hex_byte_def)

lemma hex_decode_bytes: "\<forall>b\<in>set bs. b < 256 \<Longrightarrow> hex_decode (concat (map hex_byte bs)) = Some bs"
proof -
  assume b: "\<forall>b\<in>set bs. b < 256"
  have "list_all is_ascii_hexdigit (concat (map hex_byte bs))"
    by (induction bs) (auto simp: hex_byte_def is_ascii_hexdigit_def)
  with b show ?thesis by (simp add: hex_decode_def length_hex_bytes hex_pairs_bytes)
qed

lemma hex_pairs_bound: "b \<in> set (hex_pairs s) \<Longrightarrow> b < 256"
proof (induction s rule: hex_pairs.induct)
  case (1 a c r)
  have v: "hex_val x = Some n \<Longrightarrow> n < 16" for x n
    by (auto simp: hex_val_def Let_def split: if_splits)
  from 1 show ?case by (auto split: option.splits dest!: v)
qed simp_all

lemma length_hex_pairs: "list_all is_ascii_hexdigit s \<Longrightarrow> even (length s) \<Longrightarrow> length (hex_pairs s) = length s div 2"
  by (induction s rule: hex_pairs.induct) (auto simp: is_ascii_hexdigit_def split: option.splits)

section \<open>Tokens, comparison and signatures\<close>

text \<open>\<open>draws\<close> is the sequence the generator samples from the 62 alphanumeric characters.\<close>

definition random_token :: "(nat \<Rightarrow> char) \<Rightarrow> nat \<Rightarrow> string" where
  "random_token draws n = map draws [0..<n]"

definition constant_time_eq :: "ext \<Rightarrow> string \<Rightarrow> string \<Rightarrow> bool" where
  "constant_time_eq P a b =
     (if length (bytes_of a) \<noteq> length (bytes_of b) then False
      else ct_eq P (bytes_of a) (bytes_of b))"

definition sign :: "ext \<Rightarrow> nat list \<Rightarrow> string \<Rightarrow> string" where
  "sign P key message = b64url_encode P (hmac_sha256 P key (bytes_of message))"

definition verify_signature :: "ext \<Rightarrow> nat list \<Rightarrow> string \<Rightarrow> string \<Rightarrow> bool" where
  "verify_signature P key message signature =
     (case b64url_decode P signature of
        None \<Rightarrow> False
      | Some provided \<Rightarrow> hmac_verify_slice P key (bytes_of message) provided)"

section \<open>Encryption at rest\<close>

definition NONCE_LEN :: nat where "NONCE_LEN = 12"

definition encrypt :: "ext \<Rightarrow> nat list \<Rightarrow> nat list \<Rightarrow> string \<Rightarrow> string result" where
  "encrypt P nonce key plaintext =
     (case aead_encrypt P key nonce (bytes_of plaintext) of
        None \<Rightarrow> Inl (Internal ''Failed to encrypt value'')
      | Some ciphertext \<Rightarrow> Inr (b64url_encode P (nonce @ ciphertext)))"

definition string_from_utf8 :: "nat list \<Rightarrow> string option" where
  "string_from_utf8 bs = (if utf8_decode bs = None then None else Some (string_of_bytes bs))"

definition decrypt :: "ext \<Rightarrow> nat list \<Rightarrow> string \<Rightarrow> secret result" where
  "decrypt P key encoded =
     (case b64url_decode P encoded of
        None \<Rightarrow> Inl (Internal ''Stored ciphertext is not valid base64'')
      | Some combined \<Rightarrow>
          if length combined \<le> NONCE_LEN then Inl (Internal ''Stored ciphertext is truncated'')
          else (case aead_decrypt P key (take NONCE_LEN combined) (drop NONCE_LEN combined) of
                  None \<Rightarrow> Inl (Internal ''Failed to decrypt value'')
                | Some plaintext \<Rightarrow>
                    (case string_from_utf8 plaintext of
                       None \<Rightarrow> Inl (Internal ''Decrypted value is not valid UTF-8'')
                     | Some s \<Rightarrow> Inr (Secret s))))"

definition generate_encryption_key :: "ext \<Rightarrow> nat list \<Rightarrow> string" where
  "generate_encryption_key P key = b64url_encode P key"

fun or_else :: "'a option \<Rightarrow> 'a option \<Rightarrow> 'a option" where
  "or_else None b = b"
| "or_else (Some a) b = Some a"

definition parse_encryption_key :: "ext \<Rightarrow> string \<Rightarrow> string + nat list" where
  "parse_encryption_key P raw0 = (let raw = str_trim raw0 in
     case or_else (or_else (hex_decode raw) (b64url_decode P raw)) (b64std_decode P raw) of
       None \<Rightarrow> Inl ''ENCRYPTION_KEY must be base64 or hex encoded''
     | Some decoded \<Rightarrow>
         if length decoded \<noteq> 32
         then Inl (''ENCRYPTION_KEY must decode to exactly 32 bytes, got '' @ nat_str (length decoded))
         else Inr decoded)"

definition derive_key_from_secret :: "ext \<Rightarrow> string \<Rightarrow> string \<Rightarrow> nat list" where
  "derive_key_from_secret P secret context = sha256 P (bytes_of context @ [31] @ bytes_of secret)"

section \<open>Facts\<close>

lemma length_sha256_hex: "sha256_ok P \<Longrightarrow> length (sha256_hex P s) = 64"
  by (simp add: sha256_hex_def length_hex_bytes sha256_ok_def)

lemma verify_signature_iff:
  assumes "b64url_ok P" "hmac_ok P"
  shows "verify_signature P k m s \<longleftrightarrow> b64url_decode P s = Some (hmac_sha256 P k (bytes_of m))"
  using assms by (auto simp: verify_signature_def hmac_ok_def split: option.splits)

lemma verify_signature_sign:
  assumes "b64url_ok P" "hmac_ok P"
  shows "verify_signature P k m (sign P k m)"
  using assms unfolding verify_signature_iff [OF assms] sign_def
  by (simp add: b64url_ok_def hmac_ok_def)

lemma verify_signature_other:
  assumes "b64url_ok P" "hmac_ok P"
    and "hmac_sha256 P k' (bytes_of m') \<noteq> hmac_sha256 P k (bytes_of m)"
  shows "\<not> verify_signature P k' m' (sign P k m)"
proof -
  have "b64url_decode P (sign P k m) = Some (hmac_sha256 P k (bytes_of m))"
    using verify_signature_sign [OF assms(1,2)] verify_signature_iff [OF assms(1,2)] by blast
  with assms show ?thesis by (simp add: verify_signature_iff)
qed

lemma string_of_bytes_of [simp]: "string_of_bytes (bytes_of s) = s"
  by (simp add: string_of_bytes_def bytes_of_def comp_def)

lemma decrypt_encrypt:
  assumes "b64url_ok P" "aead_ok P" "length nonce = NONCE_LEN" "\<forall>b\<in>set nonce. b < 256"
    and "utf8_decode (bytes_of plaintext) \<noteq> None"
    and "encrypt P nonce key plaintext = Inr c"
  shows "decrypt P key c = Inr (Secret plaintext)"
proof -
  obtain ct where ct: "aead_encrypt P key nonce (bytes_of plaintext) = Some ct"
    and c: "c = b64url_encode P (nonce @ ct)"
    using assms(6) by (auto simp: encrypt_def split: option.splits)
  have law: "ct \<noteq> []" "\<forall>b\<in>set ct. b < 256" "aead_decrypt P key nonce ct = Some (bytes_of plaintext)"
    using assms(2) ct by (auto simp: aead_ok_def)
  have "b64url_decode P c = Some (nonce @ ct)"
    using assms(1) [unfolded b64url_ok_def, rule_format, of "nonce @ ct"] assms(4) law(2)
    unfolding c by fastforce
  with law assms(3,5) show ?thesis
    by (simp add: decrypt_def string_from_utf8_def)
qed

text \<open>A concrete instance of the third-party functions, for the witnesses.\<close>

definition toy_sha256 :: "nat list \<Rightarrow> nat list" where
  "toy_sha256 bs = take 32 (map (\<lambda>b. b mod 256) bs @ replicate 32 0)"

definition toy_hmac :: "nat list \<Rightarrow> nat list \<Rightarrow> nat list" where
  "toy_hmac k m = map (\<lambda>b. b mod 256) (m @ 0 # k)"

definition toy_jwt_encode :: "string \<Rightarrow> claims \<Rightarrow> string option" where
  "toy_jwt_encode s c = Some (nat_str (unat (cl_exp c)) @ CHR 0x0A # nat_str (unat (cl_iat c)) @ CHR 0x0A #
     concat (map (\<lambda>f. concat (map hex_byte (bytes_of f)) @ [CHR 0x0A]) [cl_sub c, cl_sid c, cl_email c, cl_role c, s]))"

definition toy_jwt_decode :: "time \<Rightarrow> string \<Rightarrow> string \<Rightarrow> claims option" where
  "toy_jwt_decode now s t =
     (case split_on (CHR 0x0A) t of
        [e, i, sub, sid, em, ro, k, _] \<Rightarrow>
          (case (parse_nat e, parse_nat i) of
             (Some ev, Some iv) \<Rightarrow>
               (if hex_pairs k = bytes_of s \<and> timestamp now \<le> int ev then
                  Some \<lparr>cl_sub = string_of_bytes (hex_pairs sub), cl_sid = string_of_bytes (hex_pairs sid),
                        cl_email = string_of_bytes (hex_pairs em), cl_role = string_of_bytes (hex_pairs ro),
                        cl_exp = word_of_nat ev, cl_iat = word_of_nat iv\<rparr>
                else None)
           | _ \<Rightarrow> None)
      | _ \<Rightarrow> None)"

definition toy_ext :: ext where
  "toy_ext = \<lparr>sha256 = toy_sha256,
     hmac_sha256 = toy_hmac,
     hmac_verify_slice = (\<lambda>k m t. t = toy_hmac k m),
     ct_eq = (\<lambda>a b. a = b),
     b64url_encode = (\<lambda>bs. concat (map hex_byte bs)),
     b64url_decode = hex_decode,
     b64std_decode = hex_decode,
     aead_encrypt = (\<lambda>k n p. if \<forall>b\<in>set p. b < 256 then Some (0 # p) else None),
     aead_decrypt = (\<lambda>k n c. Some (drop 1 c)),
     argon2_hash = (\<lambda>p s. Some (p @ ''$'' @ s)),
     argon2_parse = (\<lambda>h. CHR ''$'' \<in> set h),
     argon2_verify = (\<lambda>h p. take (Suc (length p)) h = p @ ''$''),
     argon2_params_ok = (\<lambda>m t p. 8 * p \<le> m \<and> 1 \<le> t \<and> 1 \<le> p),
     jwt_encode = toy_jwt_encode,
     jwt_decode = toy_jwt_decode,
     uuid_str = nat_str,
     uuid_parse = parse_nat,
     chrono_min = - 8334601228800000000,
     chrono_max = 8210266876799999999\<rparr>"

lemma toy_ext_laws:
  "b64url_ok toy_ext" "hmac_ok toy_ext" "ct_ok toy_ext" "aead_ok toy_ext" "sha256_ok toy_ext"
  by (auto simp: b64url_ok_def hmac_ok_def ct_ok_def aead_ok_def sha256_ok_def toy_ext_def
      hex_decode_bytes toy_hmac_def toy_sha256_def dest!: in_set_takeD split: if_splits)

lemma toy_uuid_ok: "uuid_ok toy_ext"
proof -
  have "of_char (digit d) < (128::nat) \<and> digit d \<noteq> CHR 0x0A \<and> digit d \<noteq> CHR ''|'' \<and> digit d \<noteq> CHR ''/''"
    if "d < 10" for d
    using that by (simp add: digit_def char_of_eq_iff take_bit_eq_mod)
  then show ?thesis
    using nat_str_digits by (fastforce simp: uuid_ok_def toy_ext_def)
qed

text \<open>
  What is stored encrypted comes back: for every plaintext that is a Rust string and
  every fresh 12-byte nonce, decrypting what \<open>encrypt\<close> produced under the same key gives
  the plaintext; and a stored value that is too short to hold more than a nonce is
  rejected, never decrypted.
\<close>

theorem encryption_round_trip:
  assumes "b64url_ok P" "aead_ok P" "length nonce = NONCE_LEN" "\<forall>b\<in>set nonce. b < 256"
    and "utf8_decode (bytes_of plaintext) \<noteq> None"
    and "encrypt P nonce key plaintext = Inr c"
  shows "decrypt P key c = Inr (Secret plaintext) \<and>
         (\<forall>e bs. b64url_decode P e = Some bs \<and> length bs \<le> NONCE_LEN \<longrightarrow> \<not> is_ok (decrypt P key e))"
  using decrypt_encrypt [OF assms] by (simp add: decrypt_def)

theorem encryption_round_trip_witness:
  "\<exists>c. encrypt toy_ext (replicate 12 7) [1,2,3] ''tok'' = Inr c \<and>
       decrypt toy_ext [1,2,3] c = Inr (Secret ''tok'')"
proof -
  have "encrypt toy_ext (replicate 12 7) [1,2,3] ''tok''
          = Inr (b64url_encode toy_ext (replicate 12 7 @ 0 # bytes_of ''tok''))"
    by (simp add: encrypt_def toy_ext_def bytes_of_def)
  from this encryption_round_trip [OF toy_ext_laws(1,4) _ _ _ this]
  show ?thesis by (simp add: NONCE_LEN_def bytes_of_def)
qed

text \<open>
  An encryption key that is accepted has exactly 32 bytes whichever of the three
  encodings it came in, and a key of 64 hexadecimal digits is always read as hexadecimal,
  although it is valid base64 too.
\<close>

theorem encryption_key_is_32_bytes:
  "(\<forall>k. parse_encryption_key P raw = Inr k \<longrightarrow> length k = 32) \<and>
   (length (str_trim raw) = 64 \<and> list_all is_ascii_hexdigit (str_trim raw) \<longrightarrow>
      parse_encryption_key P raw = Inr (hex_pairs (str_trim raw)))"
  by (auto simp: parse_encryption_key_def Let_def hex_decode_def length_hex_pairs
      split: option.splits if_splits)

theorem encryption_key_is_32_bytes_witness:
  "parse_encryption_key toy_ext (replicate 64 (CHR ''0'')) = Inr (replicate 32 0)"
proof -
  have 1: "str_trim (replicate 64 (CHR ''0'')) = replicate 64 (CHR ''0'')"
    by (rule str_trim_graphic) (simp add: list_all_iff is_graphic_def)
  have 2: "hex_pairs (replicate 64 (CHR ''0'')) = replicate 32 0"
    by code_simp
  have 3: "list_all is_ascii_hexdigit (replicate 64 (CHR ''0''))"
    by code_simp
  from encryption_key_is_32_bytes [of toy_ext "replicate 64 (CHR ''0'')"]
  have "length (replicate 64 (CHR ''0'')) = 64 \<and> list_all is_ascii_hexdigit (replicate 64 (CHR ''0'')) \<longrightarrow> ?thesis"
    unfolding 1 2 by blast
  with 3 show ?thesis by (simp only: length_replicate simp_thms)
qed

text \<open>Distinct digests have distinct hexadecimal texts.\<close>

lemma sha256_hex_eq: "sha256_ok P \<Longrightarrow> sha256_hex P a = sha256_hex P b \<longleftrightarrow> sha256 P (bytes_of a) = sha256 P (bytes_of b)"
  by (metis hex_pairs_bytes sha256_hex_def sha256_ok_def)

lemma toy_sha256_hex_neq:
  "a \<noteq> [] \<Longrightarrow> b \<noteq> [] \<Longrightarrow> hd a \<noteq> hd b \<Longrightarrow> sha256_hex toy_ext a \<noteq> sha256_hex toy_ext b"
  unfolding sha256_hex_eq [OF toy_ext_laws(5)]
  by (cases a; cases b) (auto simp: toy_ext_def toy_sha256_def bytes_of_def)

end
