(* ===== verification/Config.thy ===== *)
theory Config
  imports Crypto
begin

text \<open>
  Configuration from the environment (\<open>src/config/mod.rs\<close>).  The environment is a partial
  map from names to values; \<open>load_from_env\<close> is cut into one definition per group of
  settings, composed in the order of the source, each \<open>?\<close> an \<open>and_then\<close>.  Numbers keep
  the range of their Rust type through the parser that reads them.  \<open>Debug\<close> output is a
  tree of rendered values, so that what it discloses can be stated.
\<close>

section \<open>Reading variables\<close>

type_synonym env = "string \<Rightarrow> string option"

definition opt_string :: "env \<Rightarrow> string \<Rightarrow> string option" where
  "opt_string e key = (case e key of
     None \<Rightarrow> None
   | Some v \<Rightarrow> (let t = str_trim v in if t = [] then None else Some t))"

definition require :: "env \<Rightarrow> string \<Rightarrow> string + string" where
  "require e key = ok_or (key @ '' environment variable is strictly required'') (opt_string e key)"

text \<open>
  \<open>FromStr\<close> of the integer types with the text of its errors: the digits are taken from
  the left, and the first one that is no digit or leaves the range is reported.
\<close>

fun int_error :: "bool \<Rightarrow> nat \<Rightarrow> nat \<Rightarrow> string \<Rightarrow> string" where
  "int_error neg bound acc [] = ''''"
| "int_error neg bound acc (c # cs) =
    (case digit_val c of
       None \<Rightarrow> ''invalid digit found in string''
     | Some d \<Rightarrow>
         if bound < acc * 10 + d
         then (if neg then ''number too small to fit in target type''
               else ''number too large to fit in target type'')
         else int_error neg bound (acc * 10 + d) cs)"

definition unsigned_error :: "nat \<Rightarrow> string \<Rightarrow> string" where
  "unsigned_error w s =
     (if s = [] then ''cannot parse integer from empty string''
      else if s = ''+'' \<or> s = ''-'' then ''invalid digit found in string''
      else int_error False (2 ^ w - 1) 0 (if hd s = CHR ''+'' then tl s else s))"

definition signed_error :: "nat \<Rightarrow> string \<Rightarrow> string" where
  "signed_error w s =
     (if s = [] then ''cannot parse integer from empty string''
      else if s = ''+'' \<or> s = ''-'' then ''invalid digit found in string''
      else if hd s = CHR ''-'' then int_error True (2 ^ (w - 1)) 0 (tl s)
      else int_error False (2 ^ (w - 1) - 1) 0 (if hd s = CHR ''+'' then tl s else s))"

definition from_str_uint :: "nat \<Rightarrow> string \<Rightarrow> string + nat" where
  "from_str_uint w s = ok_or (unsigned_error w s) (parse_uint w s)"

definition from_str_sint :: "nat \<Rightarrow> string \<Rightarrow> string + int" where
  "from_str_sint w s = ok_or (signed_error w s) (parse_sint w s)"

definition from_str_bool :: "string \<Rightarrow> string + bool" where
  "from_str_bool s = ok_or ''provided string was not `true` or `false`'' (parse_bool s)"

definition parse_env :: "(string \<Rightarrow> string + 'a) \<Rightarrow> env \<Rightarrow> string \<Rightarrow> 'a \<Rightarrow> string + 'a" where
  "parse_env from_str e key d =
     (case opt_string e key of
        None \<Rightarrow> Inr d
      | Some raw \<Rightarrow> (case from_str raw of
                      Inl err \<Rightarrow> Inl (''Invalid '' @ key @ '': '' @ err)
                    | Inr a \<Rightarrow> Inr a))"

section \<open>The configuration\<close>

datatype environment = Development | Production

fun is_production :: "environment \<Rightarrow> bool" where
  "is_production Production = True"
| "is_production Development = False"

record argon2_params =
  memory_kib :: nat
  iterations :: nat
  parallelism :: nat

record smtp_config =
  smtp_host :: string
  smtp_port :: nat
  smtp_from :: string
  smtp_username :: "string option"
  smtp_password :: "secret option"
  smtp_use_tls :: bool

datatype storage_backend_kind = LocalBackend | S3Backend

record s3_config =
  s3_bucket :: string
  s3_region :: string
  s3_endpoint :: "string option"
  s3_access_key_id :: string
  s3_secret_access_key :: secret
  s3_force_path_style :: bool
  s3_prefix :: string

record oauth_provider_config =
  op_client_id :: string
  op_client_secret :: secret
  op_redirect_url :: string

record oidc_provider_config =
  oidc_jwks_url :: string
  oidc_expected_issuer :: "string option"
  oidc_expected_audience :: "string option"

record app_config =
  cfg_environment :: environment
  server_host :: string
  server_port :: nat
  public_base_url :: string
  database_url :: secret
  database_max_connections :: nat
  jwt_secret :: secret
  access_token_ttl_minutes :: int
  refresh_token_ttl_days :: int
  cfg_argon2 :: argon2_params
  encryption_key :: "nat list"
  url_signing_key :: "nat list"
  email_verify_ttl_hours :: int
  password_reset_ttl_minutes :: int
  lockout_threshold :: int
  lockout_minutes :: int
  rate_limit_per_second :: nat
  rate_limit_burst_size :: nat
  auth_rate_limit_per_second :: nat
  auth_rate_limit_burst_size :: nat
  trust_proxy_headers :: bool
  cors_allowed_origins :: "string list"
  metrics_token :: "secret option"
  idempotency_ttl_seconds :: int
  request_timeout_seconds :: nat
  body_limit_bytes :: nat
  storage_backend :: storage_backend_kind
  cfg_s3 :: "s3_config option"
  upload_dir :: string
  max_upload_bytes :: nat
  allowed_upload_mime :: "string list"
  signed_url_ttl_seconds :: int
  cfg_smtp :: "smtp_config option"
  cfg_google :: "oauth_provider_config option"
  cfg_github :: "oauth_provider_config option"
  cfg_oidc :: "oidc_provider_config option"

section \<open>Loading\<close>

fun unwrap_or_else :: "'a \<Rightarrow> 'a option \<Rightarrow> 'a" where
  "unwrap_or_else d None = d"
| "unwrap_or_else d (Some a) = a"

definition load_environment :: "env \<Rightarrow> string + environment" where
  "load_environment e =
     (let v = to_ascii_lowercase (str_trim (unwrap_or_else ''development'' (e ''APP_ENV''))) in
      if v = ''production'' \<or> v = ''prod'' then Inr Production
      else if v = ''development'' \<or> v = ''dev'' \<or> v = ''test'' \<or> v = '''' then Inr Development
      else Inl (''Invalid APP_ENV '' @ CHR 0x27 # v @ CHR 0x27 # '' (expected development|production)''))"

definition load_jwt_secret :: "env \<Rightarrow> string + string" where
  "load_jwt_secret e = and_then (require e ''JWT_SECRET'') (\<lambda>s.
     if length s < 32 then Inl ''JWT_SECRET must be at least 32 characters long'' else Inr s)"

definition load_access_ttl :: "env \<Rightarrow> string + int" where
  "load_access_ttl e = and_then (parse_env (from_str_sint 64) e ''ACCESS_TOKEN_TTL_MINUTES'' 15) (\<lambda>n.
     if n \<le> 0 then Inl ''ACCESS_TOKEN_TTL_MINUTES must be positive'' else Inr n)"

definition load_argon2 :: "env \<Rightarrow> string + argon2_params" where
  "load_argon2 e =
     and_then (parse_env (from_str_uint 32) e ''ARGON2_MEMORY_KIB'' 19456) (\<lambda>m.
     and_then (parse_env (from_str_uint 32) e ''ARGON2_ITERATIONS'' 2) (\<lambda>t.
     and_then (parse_env (from_str_uint 32) e ''ARGON2_PARALLELISM'' 1) (\<lambda>p.
       if m < 19456 \<or> t < 2
       then Inl ''Argon2 parameters are below the OWASP minimum (19456 KiB, 2 iterations)''
       else Inr \<lparr>memory_kib = m, iterations = t, parallelism = p\<rparr>)))"

definition load_encryption_key :: "ext \<Rightarrow> env \<Rightarrow> bool \<Rightarrow> string \<Rightarrow> string + nat list" where
  "load_encryption_key P e is_prod jwt =
     (case opt_string e ''ENCRYPTION_KEY'' of
        Some raw \<Rightarrow> parse_encryption_key P raw
      | None \<Rightarrow>
          if is_prod
          then Inl ''ENCRYPTION_KEY is required in production. Generate one with: openssl rand -base64 32''
          else Inr (derive_key_from_secret P jwt ''encryption-at-rest''))"

definition load_rate_limits :: "env \<Rightarrow> string + (nat \<times> nat \<times> nat \<times> nat)" where
  "load_rate_limits e =
     and_then (parse_env (from_str_uint 64) e ''RATE_LIMIT_PER_SECOND'' 20) (\<lambda>a.
     and_then (parse_env (from_str_uint 32) e ''RATE_LIMIT_BURST_SIZE'' 40) (\<lambda>b.
     and_then (parse_env (from_str_uint 64) e ''AUTH_RATE_LIMIT_PER_SECOND'' 1) (\<lambda>c.
     and_then (parse_env (from_str_uint 32) e ''AUTH_RATE_LIMIT_BURST_SIZE'' 10) (\<lambda>d.
       if b = 0 \<or> d = 0 then Inl ''Rate limit burst sizes must be greater than zero''
       else Inr (a, b, c, d)))))"

definition load_cors :: "env \<Rightarrow> bool \<Rightarrow> string + string list" where
  "load_cors e is_prod =
     (let origins = (case opt_string e ''CORS_ALLOWED_ORIGINS'' of
        None \<Rightarrow> []
      | Some raw \<Rightarrow> filter (\<lambda>s. s \<noteq> [] \<and> s \<noteq> ''*'') (map str_trim (split_on (CHR '','') raw))) in
      if is_prod \<and> origins = []
      then Inl ''CORS_ALLOWED_ORIGINS must list explicit origins in production (a wildcard policy is refused)''
      else Inr origins)"

definition load_metrics_token :: "env \<Rightarrow> bool \<Rightarrow> string + secret option" where
  "load_metrics_token e is_prod =
     (case opt_string e ''METRICS_TOKEN'' of
        Some token \<Rightarrow> Inr (Some (Secret token))
      | None \<Rightarrow> if is_prod then Inl ''METRICS_TOKEN is required in production to protect /metrics''
                else Inr None)"

definition load_smtp :: "env \<Rightarrow> bool \<Rightarrow> string + smtp_config option" where
  "load_smtp e is_prod =
     (case opt_string e ''SMTP_HOST'' of
        Some host \<Rightarrow>
          and_then (parse_env from_str_bool e ''SMTP_TLS'' is_prod) (\<lambda>use_tls.
            (let username = opt_string e ''SMTP_USERNAME'';
                 password = map_option Secret (opt_string e ''SMTP_PASSWORD'') in
             if is_prod \<and> \<not> use_tls then Inl ''SMTP_TLS cannot be disabled in production''
             else if (username \<noteq> None) \<noteq> (password \<noteq> None)
             then Inl ''SMTP_USERNAME and SMTP_PASSWORD must be set together''
             else and_then (parse_env (from_str_uint 16) e ''SMTP_PORT'' (if use_tls then 587 else 1025)) (\<lambda>port.
               Inr (Some \<lparr>smtp_host = host, smtp_port = port,
                     smtp_from = unwrap_or_else ''noreply@localhost.local'' (opt_string e ''SMTP_FROM''),
                     smtp_username = username, smtp_password = password, smtp_use_tls = use_tls\<rparr>))))
      | None \<Rightarrow>
          if is_prod
          then Inl ''SMTP_HOST is required in production; without it account recovery mail is silently dropped''
          else Inr None)"

definition load_storage_backend :: "env \<Rightarrow> string + storage_backend_kind" where
  "load_storage_backend e =
     (let v = to_ascii_lowercase (str_trim (unwrap_or_else ''local'' (opt_string e ''STORAGE_BACKEND''))) in
      if v = ''local'' then Inr LocalBackend
      else if v = ''s3'' then Inr S3Backend
      else Inl (''Invalid STORAGE_BACKEND '' @ CHR 0x27 # v @ CHR 0x27 # '' (expected local|s3)''))"

definition load_s3 :: "env \<Rightarrow> storage_backend_kind \<Rightarrow> string + s3_config option" where
  "load_s3 e backend =
     (if backend = S3Backend then
        and_then (require e ''AWS_BUCKET'') (\<lambda>bucket.
        and_then (require e ''AWS_ACCESS_KEY_ID'') (\<lambda>access_key_id.
        and_then (require e ''AWS_SECRET_ACCESS_KEY'') (\<lambda>secret_access_key.
        and_then (ok_or ''AWS_REGION is required when STORAGE_BACKEND=s3''
                    (or_else (opt_string e ''AWS_REGION'') (opt_string e ''AWS_DEFAULT_REGION''))) (\<lambda>region.
        and_then (parse_env from_str_bool e ''AWS_USE_PATH_STYLE_ENDPOINT'' True) (\<lambda>path_style.
          Inr (Some \<lparr>s3_bucket = bucket, s3_region = region, s3_endpoint = opt_string e ''AWS_ENDPOINT'',
                s3_access_key_id = access_key_id, s3_secret_access_key = Secret secret_access_key,
                s3_force_path_style = path_style,
                s3_prefix = unwrap_or_else '''' (opt_string e ''AWS_KEY_PREFIX'')\<rparr>))))))
      else Inr None)"

definition oauth_provider :: "env \<Rightarrow> string \<Rightarrow> string + oauth_provider_config option" where
  "oauth_provider e prefix =
     (case (opt_string e (prefix @ ''_CLIENT_ID''), opt_string e (prefix @ ''_CLIENT_SECRET''),
            opt_string e (prefix @ ''_REDIRECT_URL'')) of
        (Some i, Some s, Some r) \<Rightarrow>
          Inr (Some \<lparr>op_client_id = i, op_client_secret = Secret s, op_redirect_url = r\<rparr>)
      | (None, None, None) \<Rightarrow> Inr None
      | _ \<Rightarrow> Inl (prefix @ '' OAuth is partially configured: set '' @ prefix @ ''_CLIENT_ID, ''
               @ prefix @ ''_CLIENT_SECRET and '' @ prefix @ ''_REDIRECT_URL together, or none of them''))"

definition load_oidc :: "env \<Rightarrow> oidc_provider_config option" where
  "load_oidc e = map_option (\<lambda>url. \<lparr>oidc_jwks_url = url,
     oidc_expected_issuer = opt_string e ''OIDC_ISSUER'',
     oidc_expected_audience = opt_string e ''OIDC_AUDIENCE''\<rparr>) (opt_string e ''OIDC_JWKS_URL'')"

definition default_upload_mime :: "string list" where
  "default_upload_mime = [''image/jpeg'', ''image/png'', ''image/gif'', ''image/webp'',
     ''application/pdf'', ''text/plain'', ''application/json'']"

definition load_upload_mime :: "env \<Rightarrow> string list" where
  "load_upload_mime e =
     (case opt_string e ''ALLOWED_UPLOAD_MIME'' of
        None \<Rightarrow> default_upload_mime
      | Some raw \<Rightarrow> filter (\<lambda>s. s \<noteq> [])
          (map (\<lambda>s. to_ascii_lowercase (str_trim s)) (split_on (CHR '','') raw)))"

definition load_from_env :: "ext \<Rightarrow> env \<Rightarrow> string + app_config" where
  "load_from_env P e =
     and_then (load_environment e) (\<lambda>environment.
     let is_prod = is_production environment;
         host = unwrap_or_else ''127.0.0.1'' (opt_string e ''SERVER_HOST'') in
     and_then (parse_env (from_str_uint 16) e ''SERVER_PORT'' 3000) (\<lambda>port.
     let base = unwrap_or_else (''http://'' @ host @ '':'' @ nat_str port) (opt_string e ''PUBLIC_BASE_URL'') in
     and_then (require e ''DATABASE_URL'') (\<lambda>db_url.
     and_then (parse_env (from_str_uint 32) e ''DATABASE_MAX_CONNECTIONS'' 20) (\<lambda>db_max.
     and_then (load_jwt_secret e) (\<lambda>jwt.
     and_then (load_access_ttl e) (\<lambda>access_ttl.
     and_then (parse_env (from_str_sint 64) e ''REFRESH_TOKEN_TTL_DAYS'' 30) (\<lambda>refresh_ttl.
     and_then (load_argon2 e) (\<lambda>argon2.
     and_then (load_encryption_key P e is_prod jwt) (\<lambda>enc_key.
     and_then (load_rate_limits e) (\<lambda>(rps, burst, auth_rps, auth_burst).
     and_then (parse_env from_str_bool e ''TRUST_PROXY_HEADERS'' False) (\<lambda>trust.
     and_then (load_cors e is_prod) (\<lambda>cors.
     and_then (load_metrics_token e is_prod) (\<lambda>metrics.
     and_then (load_smtp e is_prod) (\<lambda>smtp.
     and_then (load_storage_backend e) (\<lambda>backend.
     and_then (load_s3 e backend) (\<lambda>s3.
     and_then (oauth_provider e ''GOOGLE'') (\<lambda>google.
     and_then (oauth_provider e ''GITHUB'') (\<lambda>github.
     and_then (parse_env (from_str_sint 64) e ''EMAIL_VERIFY_TTL_HOURS'' 24) (\<lambda>verify_ttl.
     and_then (parse_env (from_str_sint 64) e ''PASSWORD_RESET_TTL_MINUTES'' 30) (\<lambda>reset_ttl.
     and_then (parse_env (from_str_sint 32) e ''LOCKOUT_THRESHOLD'' 10) (\<lambda>lock_threshold.
     and_then (parse_env (from_str_sint 64) e ''LOCKOUT_MINUTES'' 15) (\<lambda>lock_minutes.
     and_then (parse_env (from_str_sint 64) e ''IDEMPOTENCY_TTL_SECONDS'' 86400) (\<lambda>idem_ttl.
     and_then (parse_env (from_str_uint 64) e ''REQUEST_TIMEOUT_SECONDS'' 30) (\<lambda>timeout.
     and_then (parse_env (from_str_uint 64) e ''BODY_LIMIT_BYTES'' (10 * 1024 * 1024)) (\<lambda>body_limit.
     and_then (parse_env (from_str_uint 64) e ''MAX_UPLOAD_BYTES'' (10 * 1024 * 1024)) (\<lambda>max_upload.
     and_then (parse_env (from_str_sint 64) e ''SIGNED_URL_TTL_SECONDS'' 900) (\<lambda>url_ttl.
       Inr \<lparr>cfg_environment = environment, server_host = host, server_port = port,
         public_base_url = base, database_url = Secret db_url, database_max_connections = db_max,
         jwt_secret = Secret jwt, access_token_ttl_minutes = access_ttl,
         refresh_token_ttl_days = refresh_ttl, cfg_argon2 = argon2, encryption_key = enc_key,
         url_signing_key = derive_key_from_secret P jwt ''url-signing'',
         email_verify_ttl_hours = verify_ttl, password_reset_ttl_minutes = reset_ttl,
         lockout_threshold = lock_threshold, lockout_minutes = lock_minutes,
         rate_limit_per_second = rps, rate_limit_burst_size = burst,
         auth_rate_limit_per_second = auth_rps, auth_rate_limit_burst_size = auth_burst,
         trust_proxy_headers = trust, cors_allowed_origins = cors, metrics_token = metrics,
         idempotency_ttl_seconds = idem_ttl, request_timeout_seconds = timeout,
         body_limit_bytes = body_limit, storage_backend = backend, cfg_s3 = s3,
         upload_dir = unwrap_or_else ''uploads'' (opt_string e ''UPLOAD_DIR''),
         max_upload_bytes = max_upload, allowed_upload_mime = load_upload_mime e,
         signed_url_ttl_seconds = url_ttl, cfg_smtp = smtp, cfg_google = google,
         cfg_github = github, cfg_oidc = load_oidc e\<rparr>)))))))))))))))))))))))))))"

definition for_testing :: "ext \<Rightarrow> string \<Rightarrow> app_config" where
  "for_testing P db_url = (let jwt = ''test-jwt-secret-key-that-is-at-least-32-chars-long'' in
     \<lparr>cfg_environment = Development, server_host = ''127.0.0.1'', server_port = 3000,
      public_base_url = ''http://127.0.0.1:3000'', database_url = Secret db_url,
      database_max_connections = 5, jwt_secret = Secret jwt, access_token_ttl_minutes = 15,
      refresh_token_ttl_days = 30,
      cfg_argon2 = \<lparr>memory_kib = 19456, iterations = 2, parallelism = 1\<rparr>,
      encryption_key = derive_key_from_secret P jwt ''encryption-at-rest'',
      url_signing_key = derive_key_from_secret P jwt ''url-signing'',
      email_verify_ttl_hours = 24, password_reset_ttl_minutes = 30, lockout_threshold = 10,
      lockout_minutes = 15, rate_limit_per_second = 1000, rate_limit_burst_size = 5000,
      auth_rate_limit_per_second = 1000, auth_rate_limit_burst_size = 5000,
      trust_proxy_headers = False, cors_allowed_origins = [], metrics_token = None,
      idempotency_ttl_seconds = 86400, request_timeout_seconds = 30,
      body_limit_bytes = 10 * 1024 * 1024, storage_backend = LocalBackend, cfg_s3 = None,
      upload_dir = ''target/test_uploads'', max_upload_bytes = 10 * 1024 * 1024,
      allowed_upload_mime = default_upload_mime, signed_url_ttl_seconds = 900,
      cfg_smtp = None, cfg_google = None, cfg_github = None, cfg_oidc = None\<rparr>)"

section \<open>\<open>Debug\<close> output\<close>

text \<open>What the formatter is given: literal text, or a value it renders.\<close>

datatype dbg = DText string | DStr string | DNum int | DBool bool | DNone | DSome dbg
  | DList "dbg list" | DStruct string "(string \<times> dbg) list"

definition dbg_opt :: "('a \<Rightarrow> dbg) \<Rightarrow> 'a option \<Rightarrow> dbg" where
  "dbg_opt f x = (case x of None \<Rightarrow> DNone | Some a \<Rightarrow> DSome (f a))"

definition dbg_secret :: "secret \<Rightarrow> dbg" where
  "dbg_secret s = DText (secret_debug s)"

definition dbg_s3_config :: "s3_config \<Rightarrow> dbg" where
  "dbg_s3_config c = DStruct ''S3Config''
     [(''bucket'', DStr (s3_bucket c)), (''region'', DStr (s3_region c)),
      (''endpoint'', dbg_opt DStr (s3_endpoint c)), (''access_key_id'', DStr ''<redacted>''),
      (''secret_access_key'', dbg_secret (s3_secret_access_key c)),
      (''force_path_style'', DBool (s3_force_path_style c)), (''prefix'', DStr (s3_prefix c))]"

definition dbg_argon2 :: "argon2_params \<Rightarrow> dbg" where
  "dbg_argon2 a = DStruct ''Argon2Params'' [(''memory_kib'', DNum (int (memory_kib a))),
     (''iterations'', DNum (int (iterations a))), (''parallelism'', DNum (int (parallelism a)))]"

definition dbg_smtp :: "smtp_config \<Rightarrow> dbg" where
  "dbg_smtp c = DStruct ''SmtpConfig''
     [(''host'', DStr (smtp_host c)), (''port'', DNum (int (smtp_port c))), (''from'', DStr (smtp_from c)),
      (''username'', dbg_opt DStr (smtp_username c)), (''password'', dbg_opt dbg_secret (smtp_password c)),
      (''use_tls'', DBool (smtp_use_tls c))]"

definition dbg_environment :: "environment \<Rightarrow> dbg" where
  "dbg_environment x = DText (if is_production x then ''Production'' else ''Development'')"

definition dbg_backend :: "storage_backend_kind \<Rightarrow> dbg" where
  "dbg_backend k = DText (case k of LocalBackend \<Rightarrow> ''Local'' | S3Backend \<Rightarrow> ''S3'')"

definition dbg_app_config :: "app_config \<Rightarrow> dbg" where
  "dbg_app_config c = DStruct ''AppConfig''
     [(''environment'', dbg_environment (cfg_environment c)),
      (''server_host'', DStr (server_host c)), (''server_port'', DNum (int (server_port c))),
      (''public_base_url'', DStr (public_base_url c)),
      (''database_url'', DStr ''Secret(<redacted>)''),
      (''database_max_connections'', DNum (int (database_max_connections c))),
      (''jwt_secret'', dbg_secret (jwt_secret c)),
      (''access_token_ttl_minutes'', DNum (access_token_ttl_minutes c)),
      (''refresh_token_ttl_days'', DNum (refresh_token_ttl_days c)),
      (''argon2'', dbg_argon2 (cfg_argon2 c)),
      (''encryption_key'', DStr ''[redacted; 32 bytes]''),
      (''url_signing_key'', DStr ''[redacted; 32 bytes]''),
      (''rate_limit_per_second'', DNum (int (rate_limit_per_second c))),
      (''rate_limit_burst_size'', DNum (int (rate_limit_burst_size c))),
      (''trust_proxy_headers'', DBool (trust_proxy_headers c)),
      (''cors_allowed_origins'', DList (map DStr (cors_allowed_origins c))),
      (''metrics_token'', dbg_opt dbg_secret (metrics_token c)),
      (''storage_backend'', dbg_backend (storage_backend c)),
      (''s3'', dbg_opt dbg_s3_config (cfg_s3 c)),
      (''upload_dir'', DStr (upload_dir c)), (''max_upload_bytes'', DNum (int (max_upload_bytes c))),
      (''smtp'', dbg_opt dbg_smtp (cfg_smtp c)),
      (''google_configured'', DBool (cfg_google c \<noteq> None)),
      (''github_configured'', DBool (cfg_github c \<noteq> None))]"

section \<open>Facts\<close>

lemma opt_string_nonempty: "opt_string e k = Some v \<Longrightarrow> v \<noteq> [] \<and> str_trim v = v"
  by (auto simp: opt_string_def Let_def str_trim_idem split: option.splits if_splits)

lemma load_from_env_parts:
  assumes "load_from_env P e = Inr c"
  shows "load_environment e = Inr (cfg_environment c)"
    and "load_jwt_secret e = Inr (expose (jwt_secret c))"
    and "load_access_ttl e = Inr (access_token_ttl_minutes c)"
    and "load_argon2 e = Inr (cfg_argon2 c)"
    and "load_encryption_key P e (is_production (cfg_environment c)) (expose (jwt_secret c)) = Inr (encryption_key c)"
    and "load_rate_limits e = Inr (rate_limit_per_second c, rate_limit_burst_size c,
           auth_rate_limit_per_second c, auth_rate_limit_burst_size c)"
    and "load_cors e (is_production (cfg_environment c)) = Inr (cors_allowed_origins c)"
    and "load_metrics_token e (is_production (cfg_environment c)) = Inr (metrics_token c)"
    and "load_smtp e (is_production (cfg_environment c)) = Inr (cfg_smtp c)"
    and "load_storage_backend e = Inr (storage_backend c)"
    and "load_s3 e (storage_backend c) = Inr (cfg_s3 c)"
    and "oauth_provider e ''GOOGLE'' = Inr (cfg_google c)"
    and "oauth_provider e ''GITHUB'' = Inr (cfg_github c)"
    and "url_signing_key c = derive_key_from_secret P (expose (jwt_secret c)) ''url-signing''"
proof -
  from assms have parts: "(load_environment e = Inr (cfg_environment c)) \<and>
     (load_jwt_secret e = Inr (expose (jwt_secret c))) \<and>
     (load_access_ttl e = Inr (access_token_ttl_minutes c)) \<and>
     (load_argon2 e = Inr (cfg_argon2 c)) \<and>
     (load_encryption_key P e (is_production (cfg_environment c)) (expose (jwt_secret c)) = Inr (encryption_key c)) \<and>
     (load_rate_limits e = Inr (rate_limit_per_second c, rate_limit_burst_size c, auth_rate_limit_per_second c, auth_rate_limit_burst_size c)) \<and>
     (load_cors e (is_production (cfg_environment c)) = Inr (cors_allowed_origins c)) \<and>
     (load_metrics_token e (is_production (cfg_environment c)) = Inr (metrics_token c)) \<and>
     (load_smtp e (is_production (cfg_environment c)) = Inr (cfg_smtp c)) \<and>
     (load_storage_backend e = Inr (storage_backend c)) \<and>
     (load_s3 e (storage_backend c) = Inr (cfg_s3 c)) \<and>
     (oauth_provider e ''GOOGLE'' = Inr (cfg_google c)) \<and>
     (oauth_provider e ''GITHUB'' = Inr (cfg_github c)) \<and>
     (url_signing_key c = derive_key_from_secret P (expose (jwt_secret c)) ''url-signing'')"
    by (auto simp: load_from_env_def and_then_Inr Let_def)
  from parts show "load_environment e = Inr (cfg_environment c)" by (elim conjE)
  from parts show "load_jwt_secret e = Inr (expose (jwt_secret c))" by (elim conjE)
  from parts show "load_access_ttl e = Inr (access_token_ttl_minutes c)" by (elim conjE)
  from parts show "load_argon2 e = Inr (cfg_argon2 c)" by (elim conjE)
  from parts show "load_encryption_key P e (is_production (cfg_environment c)) (expose (jwt_secret c)) = Inr (encryption_key c)" by (elim conjE)
  from parts show "load_rate_limits e = Inr (rate_limit_per_second c, rate_limit_burst_size c, auth_rate_limit_per_second c, auth_rate_limit_burst_size c)" by (elim conjE)
  from parts show "load_cors e (is_production (cfg_environment c)) = Inr (cors_allowed_origins c)" by (elim conjE)
  from parts show "load_metrics_token e (is_production (cfg_environment c)) = Inr (metrics_token c)" by (elim conjE)
  from parts show "load_smtp e (is_production (cfg_environment c)) = Inr (cfg_smtp c)" by (elim conjE)
  from parts show "load_storage_backend e = Inr (storage_backend c)" by (elim conjE)
  from parts show "load_s3 e (storage_backend c) = Inr (cfg_s3 c)" by (elim conjE)
  from parts show "oauth_provider e ''GOOGLE'' = Inr (cfg_google c)" by (elim conjE)
  from parts show "oauth_provider e ''GITHUB'' = Inr (cfg_github c)" by (elim conjE)
  from parts show "url_signing_key c = derive_key_from_secret P (expose (jwt_secret c)) ''url-signing''" by (elim conjE)
qed

lemma load_cors_ok:
  "load_cors e p = Inr os \<Longrightarrow> (p \<longrightarrow> os \<noteq> []) \<and> ''*'' \<notin> set os \<and> [] \<notin> set os"
  by (auto simp: load_cors_def Let_def split: option.splits if_splits)

lemma load_metrics_ok: "load_metrics_token e True = Inr m \<Longrightarrow> \<exists>t. m = Some (Secret t) \<and> t \<noteq> []"
  by (auto simp: load_metrics_token_def split: option.splits dest: opt_string_nonempty)

lemma load_smtp_ok:
  "load_smtp e p = Inr m \<Longrightarrow>
     (p \<longrightarrow> m \<noteq> None) \<and> (\<forall>c. m = Some c \<longrightarrow> (p \<longrightarrow> smtp_use_tls c) \<and>
       (smtp_username c \<noteq> None \<longleftrightarrow> smtp_password c \<noteq> None))"
  by (auto simp: load_smtp_def Let_def and_then_Inr split: option.splits if_splits)

lemma load_s3_ok: "load_s3 e b = Inr m \<Longrightarrow> b = S3Backend \<longleftrightarrow> m \<noteq> None"
  by (auto simp: load_s3_def and_then_Inr split: if_splits)

lemma parse_encryption_key_32: "parse_encryption_key P raw = Inr k \<Longrightarrow> length k = 32"
  by (auto simp: parse_encryption_key_def Let_def split: option.splits if_splits)

lemma load_encryption_key_ok:
  "load_encryption_key P e p j = Inr k \<Longrightarrow> sha256_ok P \<Longrightarrow>
     length k = 32 \<and> (p \<longrightarrow> opt_string e ''ENCRYPTION_KEY'' \<noteq> None)"
  by (auto simp: load_encryption_key_def derive_key_from_secret_def sha256_ok_def
      dest: parse_encryption_key_32 split: option.splits if_splits)

lemmas load_simps = load_jwt_secret_def load_access_ttl_def load_argon2_def load_rate_limits_def
  and_then_Inr

text \<open>The configuration with every secret blanked out.\<close>

definition scrub :: "app_config \<Rightarrow> app_config" where
  "scrub c = c\<lparr>database_url := Secret [], jwt_secret := Secret [], encryption_key := [],
     url_signing_key := [], metrics_token := map_option (\<lambda>_. Secret []) (metrics_token c),
     cfg_s3 := map_option (\<lambda>s. s\<lparr>s3_access_key_id := [], s3_secret_access_key := Secret []\<rparr>) (cfg_s3 c),
     cfg_smtp := map_option (\<lambda>m. m\<lparr>smtp_password := map_option (\<lambda>_. Secret []) (smtp_password m)\<rparr>) (cfg_smtp c),
     cfg_google := map_option (\<lambda>g. g\<lparr>op_client_secret := Secret []\<rparr>) (cfg_google c),
     cfg_github := map_option (\<lambda>g. g\<lparr>op_client_secret := Secret []\<rparr>) (cfg_github c)\<rparr>"

lemma dbg_secret_const [simp]: "dbg_secret s = DText ''Secret(<redacted>)''"
  by (cases s) (simp add: dbg_secret_def)

lemma dbg_scrub: "dbg_app_config (scrub c) = dbg_app_config c"
  by (simp add: dbg_app_config_def scrub_def dbg_opt_def dbg_s3_config_def dbg_smtp_def
      split: option.splits)

section \<open>Properties\<close>

text \<open>
  C5. Development defaults never become production defaults: whatever the environment
  holds, a configuration that loads as production has an explicit encryption key, at
  least one CORS origin and no wildcard among them, a metrics token, and a mailer that
  uses TLS.
\<close>

theorem production_config_is_safe:
  assumes "load_from_env P e = Inr c" "is_production (cfg_environment c)"
  shows "opt_string e ''ENCRYPTION_KEY'' \<noteq> None \<and>
         cors_allowed_origins c \<noteq> [] \<and> ''*'' \<notin> set (cors_allowed_origins c) \<and>
         (\<exists>t. metrics_token c = Some (Secret t) \<and> t \<noteq> []) \<and>
         (\<exists>m. cfg_smtp c = Some m \<and> smtp_use_tls m)"
proof (intro conjI)
  note parts = load_from_env_parts [OF assms(1)]
  show "opt_string e ''ENCRYPTION_KEY'' \<noteq> None"
    using parts(5) assms(2) by (auto simp: load_encryption_key_def split: option.splits)
  show "cors_allowed_origins c \<noteq> []" "''*'' \<notin> set (cors_allowed_origins c)"
    using load_cors_ok [OF parts(7)] assms(2) by auto
  show "\<exists>t. metrics_token c = Some (Secret t) \<and> t \<noteq> []"
    using load_metrics_ok parts(8) assms(2) by simp
  show "\<exists>m. cfg_smtp c = Some m \<and> smtp_use_tls m"
    using load_smtp_ok [OF parts(9)] assms(2) by auto
qed

definition sample_production_env :: env where
  "sample_production_env = map_of
     [(''APP_ENV'', ''production''), (''DATABASE_URL'', ''postgres://db''),
      (''JWT_SECRET'', ''0123456789abcdef0123456789abcdef''),
      (''ENCRYPTION_KEY'', ''00112233445566778899aabbccddeeff00112233445566778899aabbccddeeff''),
      (''CORS_ALLOWED_ORIGINS'', ''https://a.example,*''), (''METRICS_TOKEN'', ''scrape''),
      (''SMTP_HOST'', ''mail.example'')]"

lemma sample_production_loads:
  "\<exists>c. load_from_env toy_ext sample_production_env = Inr c \<and> is_production (cfg_environment c)"
proof -
  have key: "parse_encryption_key toy_ext ''00112233445566778899aabbccddeeff00112233445566778899aabbccddeeff''
      = Inr (hex_pairs ''00112233445566778899aabbccddeeff00112233445566778899aabbccddeeff'')"
    by (simp add: parse_encryption_key_def str_trim_graphic is_graphic_def hex_decode_def
        is_ascii_hexdigit_def hex_val_def)
  show ?thesis
    unfolding load_from_env_def sample_production_env_def
    by (simp add: load_environment_def opt_string_def str_trim_graphic is_graphic_def parse_env_def
        require_def load_simps load_jwt_secret_def load_encryption_key_def key load_cors_def
        load_metrics_token_def load_smtp_def load_storage_backend_def load_s3_def oauth_provider_def
        to_ascii_lowercase_def ascii_lower_def)
qed

theorem production_config_is_safe_witness:
  "\<exists>c. load_from_env toy_ext sample_production_env = Inr c \<and> metrics_token c \<noteq> None"
  using sample_production_loads production_config_is_safe by fastforce

text \<open>
  In every environment, what loads respects the floors the rest of the program relies
  on: a JWT secret of at least 32 bytes, positive access-token lifetime, Argon2 at the
  OWASP minimum, non-zero burst sizes, 32-byte keys, S3 credentials exactly when S3 is
  selected, and mail credentials that are both present or both absent.
\<close>

theorem loaded_config_respects_floors:
  assumes "load_from_env P e = Inr c" "sha256_ok P"
  shows "32 \<le> secret_len (jwt_secret c) \<and> 0 < access_token_ttl_minutes c \<and>
         19456 \<le> memory_kib (cfg_argon2 c) \<and> 2 \<le> iterations (cfg_argon2 c) \<and>
         0 < rate_limit_burst_size c \<and> 0 < auth_rate_limit_burst_size c \<and>
         length (encryption_key c) = 32 \<and> length (url_signing_key c) = 32 \<and>
         (storage_backend c = S3Backend \<longleftrightarrow> cfg_s3 c \<noteq> None) \<and>
         (\<forall>m. cfg_smtp c = Some m \<longrightarrow> (smtp_username m \<noteq> None \<longleftrightarrow> smtp_password m \<noteq> None))"
proof (intro conjI)
  note parts = load_from_env_parts [OF assms(1)]
  obtain j where j: "jwt_secret c = Secret j" by (cases "jwt_secret c")
  obtain m t p where a: "cfg_argon2 c = \<lparr>memory_kib = m, iterations = t, parallelism = p\<rparr>"
    by (cases "cfg_argon2 c")
  show "32 \<le> secret_len (jwt_secret c)" "0 < access_token_ttl_minutes c"
    "19456 \<le> memory_kib (cfg_argon2 c)" "2 \<le> iterations (cfg_argon2 c)"
    "0 < rate_limit_burst_size c" "0 < auth_rate_limit_burst_size c"
    using parts(2,3,4,6) j a by (auto simp: load_simps split: if_splits)
  show "length (encryption_key c) = 32" "length (url_signing_key c) = 32"
    using load_encryption_key_ok [OF parts(5) assms(2)] assms(2) parts(14)
    by (auto simp: derive_key_from_secret_def sha256_ok_def)
  show "storage_backend c = S3Backend \<longleftrightarrow> cfg_s3 c \<noteq> None"
    using load_s3_ok [OF parts(11)] by simp
  show "\<forall>m. cfg_smtp c = Some m \<longrightarrow> (smtp_username m \<noteq> None \<longleftrightarrow> smtp_password m \<noteq> None)"
    using load_smtp_ok [OF parts(9)] by blast
qed

theorem loaded_config_respects_floors_witness:
  "\<exists>c. load_from_env toy_ext sample_production_env = Inr c \<and> length (encryption_key c) = 32"
  using sample_production_loads loaded_config_respects_floors toy_ext_laws(5) by metis

text \<open>
  No secret reaches \<open>Debug\<close> output: two configurations that differ only in their
  secrets (database URL, JWT secret, encryption and signing key, metrics token, S3 key
  pair, SMTP password, OAuth client secrets) render identically.
\<close>

theorem debug_output_hides_secrets:
  assumes "scrub c = scrub d"
  shows "dbg_app_config c = dbg_app_config d"
  using assms dbg_scrub by metis

theorem debug_output_hides_secrets_witness:
  "dbg_app_config (for_testing toy_ext ''postgres://u:p@h/db'') = dbg_app_config (for_testing toy_ext ''x'')"
  by (rule debug_output_hides_secrets) (simp add: scrub_def for_testing_def Let_def)

end
