(* ===== verification/Scopes.thy ===== *)
theory Scopes
  imports App_Error
begin

text \<open>
  What an API key may do (\<open>src/models/api_key.rs\<close>): the scopes, their text form, the
  wildcard, and the two parsers - the strict one for a request and the one for stored
  values, which fails closed.  The derived \<open>Ord\<close> (the order of declaration) is the
  \<open>linorder\<close> instance, which the ordered set's iteration needs.
\<close>

datatype api_scope = FilesRead | FilesWrite | NotificationsRead | NotificationsWrite
  | AppsRead | AppsWrite | OrgsRead | OrgsWrite | UsersRead | UsersWrite | AuditRead | ScopeAdmin

fun scope_str :: "api_scope \<Rightarrow> string" where
  "scope_str FilesRead = ''files:read''"
| "scope_str FilesWrite = ''files:write''"
| "scope_str NotificationsRead = ''notifications:read''"
| "scope_str NotificationsWrite = ''notifications:write''"
| "scope_str AppsRead = ''apps:read''"
| "scope_str AppsWrite = ''apps:write''"
| "scope_str OrgsRead = ''orgs:read''"
| "scope_str OrgsWrite = ''orgs:write''"
| "scope_str UsersRead = ''users:read''"
| "scope_str UsersWrite = ''users:write''"
| "scope_str AuditRead = ''audit:read''"
| "scope_str ScopeAdmin = ''admin''"

definition all_scopes :: "api_scope list" where
  "all_scopes = [FilesRead, FilesWrite, NotificationsRead, NotificationsWrite, AppsRead, AppsWrite,
     OrgsRead, OrgsWrite, UsersRead, UsersWrite, AuditRead, ScopeAdmin]"

fun join :: "string \<Rightarrow> string list \<Rightarrow> string" where
  "join sep [] = []"
| "join sep [x] = x"
| "join sep (x # xs) = x @ sep @ join sep xs"

definition scope_parse :: "string \<Rightarrow> api_scope result" where
  "scope_parse raw = (let s = str_trim raw in
     if s = ''files:read'' then Inr FilesRead
     else if s = ''files:write'' then Inr FilesWrite
     else if s = ''notifications:read'' then Inr NotificationsRead
     else if s = ''notifications:write'' then Inr NotificationsWrite
     else if s = ''apps:read'' then Inr AppsRead
     else if s = ''apps:write'' then Inr AppsWrite
     else if s = ''orgs:read'' then Inr OrgsRead
     else if s = ''orgs:write'' then Inr OrgsWrite
     else if s = ''users:read'' then Inr UsersRead
     else if s = ''users:write'' then Inr UsersWrite
     else if s = ''audit:read'' then Inr AuditRead
     else if s = ''admin'' then Inr ScopeAdmin
     else Inl (ValidationError (''Unknown scope '' @ CHR 0x27 # s @ CHR 0x27 # ''. Valid scopes: ''
            @ join '', '' (map scope_str all_scopes))))"

text \<open>The order of declaration.\<close>

fun scope_index :: "api_scope \<Rightarrow> nat" where
  "scope_index FilesRead = 0"
| "scope_index FilesWrite = 1"
| "scope_index NotificationsRead = 2"
| "scope_index NotificationsWrite = 3"
| "scope_index AppsRead = 4"
| "scope_index AppsWrite = 5"
| "scope_index OrgsRead = 6"
| "scope_index OrgsWrite = 7"
| "scope_index UsersRead = 8"
| "scope_index UsersWrite = 9"
| "scope_index AuditRead = 10"
| "scope_index ScopeAdmin = 11"

lemma scope_index_inj: "scope_index a = scope_index b \<longleftrightarrow> a = b"
  by (cases a; cases b) simp_all

instantiation api_scope :: linorder
begin

definition less_eq_api_scope :: "api_scope \<Rightarrow> api_scope \<Rightarrow> bool" where
  "less_eq_api_scope a b \<longleftrightarrow> scope_index a \<le> scope_index b"

definition less_api_scope :: "api_scope \<Rightarrow> api_scope \<Rightarrow> bool" where
  "less_api_scope a b \<longleftrightarrow> scope_index a < scope_index b"

instance
  by standard (auto simp: less_eq_api_scope_def less_api_scope_def scope_index_inj [symmetric])

end

type_synonym scope_set = "api_scope set"

definition wildcard_set :: scope_set where
  "wildcard_set = set (filter (\<lambda>s. s \<noteq> ScopeAdmin) all_scopes)"

definition scope_contains :: "scope_set \<Rightarrow> api_scope \<Rightarrow> bool" where
  "scope_contains S s \<longleftrightarrow> s \<in> S"

text \<open>The ordered set iterates in the order of declaration.\<close>

definition scope_to_strings :: "scope_set \<Rightarrow> string list" where
  "scope_to_strings S = map scope_str (sorted_list_of_set S)"

fun scope_parse_list :: "scope_set \<Rightarrow> string list \<Rightarrow> scope_set result" where
  "scope_parse_list S [] = Inr S"
| "scope_parse_list S (r # rs) =
    (case scope_parse r of Inl e \<Rightarrow> Inl e | Inr s \<Rightarrow> scope_parse_list (insert s S) rs)"

definition scope_parse_request :: "string list option \<Rightarrow> scope_set result" where
  "scope_parse_request raw =
     (case raw of
        None \<Rightarrow> Inr wildcard_set
      | Some rs \<Rightarrow>
          if rs = [] then Inr wildcard_set
          else if list_ex (\<lambda>s. str_trim s = ''*'') rs then Inr wildcard_set
          else scope_parse_list {} rs)"

definition scope_from_stored :: "json option \<Rightarrow> scope_set" where
  "scope_from_stored v =
     (case Option.bind v as_array of
        None \<Rightarrow> {}
      | Some array \<Rightarrow>
          if list_ex (\<lambda>x. as_str x = Some ''*'') array then wildcard_set
          else set (List.map_filter (\<lambda>s. res_ok (scope_parse s)) (List.map_filter as_str array)))"

section \<open>Facts\<close>

lemma all_scopes_complete [simp]: "s \<in> set all_scopes"
  by (cases s) (simp_all add: all_scopes_def)

lemma finite_scopes [simp]: "finite (S :: scope_set)"
  by (rule finite_subset [OF _ finite_set [of all_scopes]]) auto

lemma wildcard_set_iff: "s \<in> wildcard_set \<longleftrightarrow> s \<noteq> ScopeAdmin"
  by (simp add: wildcard_set_def)

lemma scope_str_inj: "scope_str a = scope_str b \<longleftrightarrow> a = b"
  by (cases a; cases b) simp_all

lemma str_trim_scope_str [simp]: "str_trim (scope_str s) = scope_str s"
  by (rule str_trim_graphic) (cases s; simp add: is_graphic_def)

lemma scope_parse_str [simp]: "scope_parse (scope_str s) = Inr s"
  unfolding scope_parse_def str_trim_scope_str by (cases s) simp_all

lemma scope_parse_ok: "scope_parse r = Inr s \<longleftrightarrow> str_trim r = scope_str s"
proof
  show "scope_parse r = Inr s \<Longrightarrow> str_trim r = scope_str s"
    unfolding scope_parse_def Let_def by (auto split: if_splits)
next
  assume a: "str_trim r = scope_str s"
  have "scope_parse r = scope_parse (scope_str s)"
    unfolding scope_parse_def a str_trim_scope_str ..
  then show "scope_parse r = Inr s" by simp
qed

lemma scope_str_not_star: "scope_str s \<noteq> ''*''"
  by (cases s) simp_all

lemma scope_parse_list_Inr:
  "scope_parse_list S rs = Inr T \<longleftrightarrow>
     (\<forall>r\<in>set rs. is_ok (scope_parse r)) \<and> T = S \<union> {s. Inr s \<in> scope_parse ` set rs}"
  by (induction rs arbitrary: S) (auto split: sum.splits simp: is_ok_iff image_iff)

lemma map_filter_mem: "y \<in> set (List.map_filter f xs) \<longleftrightarrow> (\<exists>x\<in>set xs. f x = Some y)"
  by (induction xs) (auto split: option.splits)

lemma scope_parse_request_Inr:
  "rs \<noteq> [] \<Longrightarrow> \<not> list_ex (\<lambda>s. str_trim s = ''*'') rs \<Longrightarrow>
   scope_parse_request (Some rs) = Inr T \<longleftrightarrow>
     (\<forall>r\<in>set rs. \<exists>s. str_trim r = scope_str s) \<and> T = {s. scope_str s \<in> str_trim ` set rs}"
  by (auto simp: scope_parse_request_def scope_parse_list_Inr is_ok_iff scope_parse_ok image_iff)
    (metis scope_parse_ok)+

lemma scope_from_stored_iff:
  "s \<in> scope_from_stored (Some (JArr xs)) \<longleftrightarrow>
     (if JStr ''*'' \<in> set xs then s \<noteq> ScopeAdmin
      else \<exists>t. JStr t \<in> set xs \<and> str_trim t = scope_str s)"
proof -
  have ok: "res_ok (scope_parse t) = Some s \<longleftrightarrow> str_trim t = scope_str s" for t
    using scope_parse_ok [of t s] by (cases "scope_parse t") auto
  have star: "list_ex (\<lambda>x. as_str x = Some ''*'') xs \<longleftrightarrow> JStr ''*'' \<in> set xs"
    by (auto simp: list_ex_iff)
  have m: "s \<in> set (List.map_filter (\<lambda>s. res_ok (scope_parse s)) (List.map_filter as_str xs)) \<longleftrightarrow>
      (\<exists>t. JStr t \<in> set xs \<and> str_trim t = scope_str s)"
    by (simp add: map_filter_mem ok Bex_def)
  show ?thesis
    unfolding scope_from_stored_def by (cases "JStr ''*'' \<in> set xs") (simp_all only: bind.simps as_array.simps option.case star m wildcard_set_iff if_True if_False simp_thms not_True_eq_False)
qed

lemma scope_from_stored_other: "(\<And>xs. v \<noteq> Some (JArr xs)) \<Longrightarrow> scope_from_stored v = {}"
  by (cases v) (auto simp: scope_from_stored_def split: option.splits)

lemma scope_round_trip: "scope_from_stored (Some (JArr (map JStr (scope_to_strings S)))) = S"
proof -
  have "JStr t \<in> set (map JStr (scope_to_strings S)) \<longleftrightarrow> t \<in> scope_str ` S" for t
    by (auto simp: scope_to_strings_def)
  then show ?thesis
    by (intro set_eqI) (auto simp: scope_from_stored_iff scope_str_inj
        dest: scope_str_not_star [THEN notE, OF sym] intro!: exI [of _ "scope_str _"])
qed

section \<open>Properties\<close>

text \<open>
  C3. No key reaches administration by accident: neither the wildcard, nor an absent or
  empty scope list, nor anything stored grants \<open>admin\<close> unless the text \<open>admin\<close> itself is an
  entry of the list (and, for a request, no entry is the wildcard); a stored value
  that is no array grants nothing at all.
\<close>

theorem admin_scope_is_explicit:
  "(scope_parse_request raw = Inr S \<and> ScopeAdmin \<in> S \<longrightarrow>
      (\<exists>rs. raw = Some rs \<and> (\<exists>r\<in>set rs. str_trim r = ''admin'') \<and> (\<forall>r\<in>set rs. str_trim r \<noteq> ''*''))) \<and>
   (ScopeAdmin \<in> scope_from_stored v \<longrightarrow>
      (\<exists>xs t. v = Some (JArr xs) \<and> JStr t \<in> set xs \<and> str_trim t = ''admin'' \<and> JStr ''*'' \<notin> set xs)) \<and>
   ((\<forall>xs. v \<noteq> Some (JArr xs)) \<longrightarrow> scope_from_stored v = {})"
proof (intro conjI impI)
  assume a: "scope_parse_request raw = Inr S \<and> ScopeAdmin \<in> S"
  obtain rs where rs: "raw = Some rs" "rs \<noteq> []" "\<not> list_ex (\<lambda>s. str_trim s = ''*'') rs"
    using a by (auto simp: scope_parse_request_def wildcard_set_iff split: option.splits if_splits)
  with a scope_parse_request_Inr [OF rs(2,3), of S] have "scope_str ScopeAdmin \<in> str_trim ` set rs"
    by blast
  with rs show "\<exists>rs. raw = Some rs \<and> (\<exists>r\<in>set rs. str_trim r = ''admin'') \<and> (\<forall>r\<in>set rs. str_trim r \<noteq> ''*'')"
    by (auto simp: list_ex_iff image_iff)
next
  assume "ScopeAdmin \<in> scope_from_stored v"
  then obtain xs where v: "v = Some (JArr xs)" using scope_from_stored_other by blast
  with \<open>ScopeAdmin \<in> _\<close> show "\<exists>xs t. v = Some (JArr xs) \<and> JStr t \<in> set xs \<and> str_trim t = ''admin'' \<and> JStr ''*'' \<notin> set xs"
    by (auto simp: scope_from_stored_iff split: if_splits)
qed (use scope_from_stored_other in blast)

theorem admin_scope_is_explicit_witness:
  "ScopeAdmin \<notin> scope_from_stored (Some (JStr ''admin''))"
  using admin_scope_is_explicit [of None "{}" "Some (JStr ''admin'')"] by simp

text \<open>
  C4. A scope list without a wildcard is accepted exactly when every entry names a known
  scope (up to blanks around it), and then grants exactly the scopes it names; an unknown
  entry rejects the whole request.  What is stored reads back as the same set.
\<close>

theorem scopes_parse_exactly_and_round_trip:
  "(rs \<noteq> [] \<and> (\<forall>r\<in>set rs. str_trim r \<noteq> ''*'') \<longrightarrow>
     (scope_parse_request (Some rs) = Inr T \<longleftrightarrow>
        (\<forall>r\<in>set rs. str_trim r \<in> range scope_str) \<and> T = {s. scope_str s \<in> str_trim ` set rs})) \<and>
   scope_from_stored (Some (JArr (map JStr (scope_to_strings S)))) = S"
proof (intro conjI impI)
  assume "rs \<noteq> [] \<and> (\<forall>r\<in>set rs. str_trim r \<noteq> ''*'')"
  then have "rs \<noteq> []" "\<not> list_ex (\<lambda>s. str_trim s = ''*'') rs" by (auto simp: list_ex_iff)
  from scope_parse_request_Inr [OF this] show "scope_parse_request (Some rs) = Inr T \<longleftrightarrow>
      (\<forall>r\<in>set rs. str_trim r \<in> range scope_str) \<and> T = {s. scope_str s \<in> str_trim ` set rs}"
    by (auto simp: image_iff)
qed (rule scope_round_trip)

theorem scopes_parse_exactly_and_round_trip_witness:
  "scope_parse_request (Some [''files:read'', ''audit:read'']) = Inr {FilesRead, AuditRead}"
proof -
  have t: "str_trim ''files:read'' = scope_str FilesRead" "str_trim ''audit:read'' = scope_str AuditRead"
    using str_trim_scope_str [of FilesRead] str_trim_scope_str [of AuditRead] by simp_all
  have "{s. scope_str s \<in> str_trim ` set [''files:read'', ''audit:read'']} = {FilesRead, AuditRead}"
    by (auto simp: t scope_str_inj simp del: scope_str.simps)
  then show ?thesis
    using scopes_parse_exactly_and_round_trip
      [of "[''files:read'', ''audit:read'']" "{FilesRead, AuditRead}" "{}"]
    by (simp add: t scope_str_not_star del: scope_str.simps)
qed

end
