(* ===== verification/Store.thy ===== *)
theory Store
  imports Config Scopes
begin

text \<open>
  The rows of the database tables (\<open>migrations/*.sql\<close> and the row types of
  \<open>src/models/\<close>), the state \<open>store\<close> every operation reads and returns, the per-call
  randomness and clock \<open>call\<close>, the audit trail (\<open>src/services/audit.rs\<close>) and the mail the
  program sends (\<open>src/services/mail.rs\<close>).  Columns no statement reads or writes are left
  out, as are the length limits of \<open>VARCHAR\<close> columns.  A table is the list of its rows in
  insertion order; its unique constraints are its \<open>clash\<close> relation, and each is an
  instance of the table contract of \<^theory_text>\<open>Sql\<close>.
\<close>

section \<open>Users, accounts, sessions, recovery tokens\<close>

record user =
  u_id :: uuid
  u_name :: string
  u_email :: string
  u_email_verified :: bool
  u_image :: "string option"
  u_role :: string
  u_banned :: bool
  u_created_at :: time
  u_updated_at :: time

record user_row = user +
  u_failed_login_attempts :: int
  u_locked_until :: "time option"
  u_deleted_at :: "time option"

text \<open>\<open>SELECT USER_COLUMNS\<close>.\<close>

abbreviation user_of_row :: "user_row \<Rightarrow> user" where
  "user_of_row r \<equiv> user.truncate r"

record account_row =
  a_id :: uuid
  a_user_id :: uuid
  a_account_id :: string
  a_provider_id :: string
  a_access_token :: "string option"
  a_refresh_token :: "string option"
  a_access_token_expires_at :: "time option"
  a_scope :: "string option"
  a_password :: "string option"
  a_created_at :: time
  a_updated_at :: time

record session_row =
  s_id :: uuid
  s_user_id :: uuid
  s_refresh_token_hash :: string
  s_previous_token_hash :: "string option"
  s_expires_at :: time
  s_revoked_at :: "time option"
  s_rotated_at :: "time option"
  s_ip_address :: "string option"
  s_user_agent :: "string option"
  s_created_at :: time
  s_last_used_at :: time

datatype token_purpose = EmailVerify | PasswordReset

fun purpose_str :: "token_purpose \<Rightarrow> string" where
  "purpose_str EmailVerify = ''email_verify''"
| "purpose_str PasswordReset = ''password_reset''"

record verification_row =
  v_id :: uuid
  v_identifier :: string
  v_purpose :: string
  v_token_hash :: string
  v_expires_at :: time
  v_consumed_at :: "time option"

record oauth_request_row =
  o_state_hash :: string
  o_provider :: string
  o_pkce_verifier :: string
  o_redirect_to :: "string option"
  o_expires_at :: time
  o_consumed_at :: "time option"

section \<open>Apps, organizations, keys\<close>

record app_row =
  ap_id :: uuid
  ap_owner_id :: uuid
  ap_name :: string
  ap_slug :: string
  ap_description :: "string option"
  ap_created_at :: time
  ap_updated_at :: time

record org_row =
  og_id :: uuid
  og_app_id :: uuid
  og_name :: string
  og_slug :: string
  og_logo_url :: "string option"
  og_created_at :: time
  og_updated_at :: time

record member_row =
  m_id :: uuid
  m_org_id :: uuid
  m_user_id :: uuid
  m_role :: string
  m_created_at :: time
  m_updated_at :: time

record api_key_row =
  k_id :: uuid
  k_user_id :: uuid
  k_org_id :: "uuid option"
  k_name :: string
  k_key_start :: string
  k_key_hash :: string
  k_scopes :: "json option"
  k_expires_at :: "time option"
  k_last_used_at :: "time option"
  k_created_at :: time
  k_updated_at :: time

section \<open>Files, notifications, audit, jobs, webhooks\<close>

record file_row =
  f_id :: uuid
  f_owner_id :: "uuid option"
  f_org_id :: "uuid option"
  f_bucket :: string
  f_storage_key :: string
  f_original_name :: string
  f_mime_type :: string
  f_size_bytes :: int
  f_checksum_sha256 :: "string option"
  f_visibility :: string
  f_status :: string
  f_upload_expires_at :: "time option"
  f_created_at :: time
  f_deleted_at :: "time option"

record notification_row =
  n_id :: uuid
  n_user_id :: uuid
  n_org_id :: "uuid option"
  n_title :: string
  n_body :: string
  n_read :: bool
  n_data :: "json option"
  n_created_at :: time

record audit_row =
  l_id :: uuid
  l_user_id :: "uuid option"
  l_action :: string
  l_resource :: string
  l_resource_id :: "string option"
  l_ip_address :: "string option"
  l_user_agent :: "string option"
  l_metadata :: "json option"
  l_created_at :: time

record job_row =
  j_id :: uuid
  j_queue :: string
  j_job_type :: string
  j_payload :: json
  j_status :: string
  j_attempts :: int
  j_max_attempts :: int
  j_last_error :: "string option"
  j_run_at :: time
  j_locked_at :: "time option"
  j_locked_by :: "string option"
  j_created_at :: time
  j_updated_at :: time

record webhook_row =
  w_id :: uuid
  w_app_id :: "uuid option"
  w_owner_id :: uuid
  w_org_id :: "uuid option"
  w_target_url :: string
  w_secret :: string
  w_events :: "string list"
  w_is_active :: bool
  w_created_at :: time
  w_updated_at :: time

record delivery_row =
  d_id :: uuid
  d_webhook_id :: uuid
  d_event_type :: string
  d_payload :: json
  d_status :: string
  d_status_code :: "int option"
  d_response_body :: "string option"
  d_attempts :: int
  d_created_at :: time
  d_updated_at :: time

record mail =
  ml_recipient :: string
  ml_subject :: string
  ml_body :: string
  ml_kind :: string

section \<open>The state\<close>

record store =
  users :: "user_row list"
  accounts :: "account_row list"
  sessions :: "session_row list"
  verifications :: "verification_row list"
  oauth_requests :: "oauth_request_row list"
  apps :: "app_row list"
  organizations :: "org_row list"
  org_members :: "member_row list"
  api_keys :: "api_key_row list"
  files :: "file_row list"
  notifications :: "notification_row list"
  audit_logs :: "audit_row list"
  background_jobs :: "job_row list"
  webhooks :: "webhook_row list"
  webhook_deliveries :: "delivery_row list"
  outbox :: "mail list"  \<comment> \<open>mails handed to the dispatcher, not a table\<close>

definition empty_store :: store where
  "empty_store = \<lparr>users = [], accounts = [], sessions = [], verifications = [], oauth_requests = [],
     apps = [], organizations = [], org_members = [], api_keys = [], files = [],
     notifications = [], audit_logs = [], background_jobs = [], webhooks = [],
     webhook_deliveries = [], outbox = []\<rparr>"

text \<open>
  What one request draws from the outside: its clock (\<open>Utc::now()\<close> and the database's
  \<open>now()\<close>, one moment per request), the \<open>i\<close>-th UUID it generates, the characters of the
  \<open>i\<close>-th random token, the Argon2 salt, the AEAD nonce, and whether the best-effort audit
  insert reaches the database.
\<close>

record call =
  c_now :: time
  c_uuid :: "nat \<Rightarrow> uuid"
  c_rand :: "nat \<Rightarrow> nat \<Rightarrow> char"
  c_salt :: string
  c_nonce :: "nat \<Rightarrow> nat list"
  c_audit_ok :: bool

record request_context =
  rc_ip_address :: "string option"
  rc_user_agent :: "string option"

section \<open>Unique constraints\<close>

definition user_clash :: "user_row \<Rightarrow> user_row \<Rightarrow> bool" where
  "user_clash a b \<longleftrightarrow> u_id a = u_id b \<or>
     (u_deleted_at a = None \<and> u_deleted_at b = None \<and> u_email a = u_email b)"

definition account_clash :: "account_row \<Rightarrow> account_row \<Rightarrow> bool" where
  "account_clash a b \<longleftrightarrow> a_id a = a_id b \<or>
     (a_provider_id a, a_account_id a) = (a_provider_id b, a_account_id b)"

definition session_clash :: "session_row \<Rightarrow> session_row \<Rightarrow> bool" where
  "session_clash a b \<longleftrightarrow> s_id a = s_id b \<or> s_refresh_token_hash a = s_refresh_token_hash b"

definition verification_clash :: "verification_row \<Rightarrow> verification_row \<Rightarrow> bool" where
  "verification_clash a b \<longleftrightarrow> v_id a = v_id b \<or> v_token_hash a = v_token_hash b"

definition oauth_request_clash :: "oauth_request_row \<Rightarrow> oauth_request_row \<Rightarrow> bool" where
  "oauth_request_clash a b \<longleftrightarrow> o_state_hash a = o_state_hash b"

definition app_clash :: "app_row \<Rightarrow> app_row \<Rightarrow> bool" where
  "app_clash a b \<longleftrightarrow> ap_id a = ap_id b \<or> ap_slug a = ap_slug b"

definition org_clash :: "org_row \<Rightarrow> org_row \<Rightarrow> bool" where
  "org_clash a b \<longleftrightarrow> og_id a = og_id b \<or> (og_app_id a, og_slug a) = (og_app_id b, og_slug b)"

definition member_clash :: "member_row \<Rightarrow> member_row \<Rightarrow> bool" where
  "member_clash a b \<longleftrightarrow> m_id a = m_id b \<or> (m_org_id a, m_user_id a) = (m_org_id b, m_user_id b)"

definition api_key_clash :: "api_key_row \<Rightarrow> api_key_row \<Rightarrow> bool" where
  "api_key_clash a b \<longleftrightarrow> k_id a = k_id b \<or> k_key_hash a = k_key_hash b"

definition file_clash :: "file_row \<Rightarrow> file_row \<Rightarrow> bool" where
  "file_clash a b \<longleftrightarrow> f_id a = f_id b \<or> f_storage_key a = f_storage_key b"

definition notification_clash :: "notification_row \<Rightarrow> notification_row \<Rightarrow> bool" where
  "notification_clash a b \<longleftrightarrow> n_id a = n_id b"

definition audit_clash :: "audit_row \<Rightarrow> audit_row \<Rightarrow> bool" where
  "audit_clash a b \<longleftrightarrow> l_id a = l_id b"

definition job_clash :: "job_row \<Rightarrow> job_row \<Rightarrow> bool" where
  "job_clash a b \<longleftrightarrow> j_id a = j_id b"

definition webhook_clash :: "webhook_row \<Rightarrow> webhook_row \<Rightarrow> bool" where
  "webhook_clash a b \<longleftrightarrow> w_id a = w_id b"

definition delivery_clash :: "delivery_row \<Rightarrow> delivery_row \<Rightarrow> bool" where
  "delivery_clash a b \<longleftrightarrow> d_id a = d_id b"

lemmas clash_defs = user_clash_def account_clash_def session_clash_def verification_clash_def
  oauth_request_clash_def app_clash_def org_clash_def member_clash_def api_key_clash_def
  file_clash_def notification_clash_def audit_clash_def job_clash_def webhook_clash_def
  delivery_clash_def

interpretation users: sql_unique user_clash u_id u_email "\<lambda>u. u_deleted_at u = None"
  by unfold_locales (auto simp: user_clash_def)
interpretation accounts: sql_unique account_clash a_id "\<lambda>a. (a_provider_id a, a_account_id a)" "\<lambda>_. True"
  by unfold_locales (auto simp: account_clash_def)
interpretation sessions: sql_unique session_clash s_id s_refresh_token_hash "\<lambda>_. True"
  by unfold_locales (auto simp: session_clash_def)
interpretation verifications: sql_unique verification_clash v_id v_token_hash "\<lambda>_. True"
  by unfold_locales (auto simp: verification_clash_def)
interpretation oauth_requests: sql_table oauth_request_clash o_state_hash
  by unfold_locales (auto simp: oauth_request_clash_def)
interpretation apps: sql_unique app_clash ap_id ap_slug "\<lambda>_. True"
  by unfold_locales (auto simp: app_clash_def)
interpretation organizations: sql_unique org_clash og_id "\<lambda>a. (og_app_id a, og_slug a)" "\<lambda>_. True"
  by unfold_locales (auto simp: org_clash_def)
interpretation org_members: sql_unique member_clash m_id "\<lambda>a. (m_org_id a, m_user_id a)" "\<lambda>_. True"
  by unfold_locales (auto simp: member_clash_def)
interpretation api_keys: sql_unique api_key_clash k_id k_key_hash "\<lambda>_. True"
  by unfold_locales (auto simp: api_key_clash_def)
interpretation files: sql_unique file_clash f_id f_storage_key "\<lambda>_. True"
  by unfold_locales (auto simp: file_clash_def)
interpretation notifications: sql_table notification_clash n_id
  by unfold_locales (auto simp: notification_clash_def)
interpretation audit_logs: sql_table audit_clash l_id
  by unfold_locales (auto simp: audit_clash_def)
interpretation jobs: sql_table job_clash j_id
  by unfold_locales (auto simp: job_clash_def)
interpretation webhooks: sql_table webhook_clash w_id
  by unfold_locales (auto simp: webhook_clash_def)
interpretation deliveries: sql_table delivery_clash d_id
  by unfold_locales (auto simp: delivery_clash_def)

text \<open>What the schema guarantees of the identity tables: the unique constraints and the foreign keys.\<close>

definition identity_inv :: "store \<Rightarrow> bool" where
  "identity_inv st \<longleftrightarrow>
     no_clash user_clash (users st) \<and> no_clash account_clash (accounts st) \<and>
     no_clash session_clash (sessions st) \<and> no_clash verification_clash (verifications st) \<and>
     s_user_id ` set (sessions st) \<subseteq> u_id ` set (users st) \<and>
     a_user_id ` set (accounts st) \<subseteq> u_id ` set (users st)"

lemma identity_inv_empty [simp]: "identity_inv empty_store"
  by (simp add: identity_inv_def empty_store_def)

definition unique_violation :: app_error where
  "unique_violation = DatabaseError (Database UniqueViolation)"

definition fk_violation :: app_error where
  "fk_violation = DatabaseError (Database ForeignKeyViolation)"

section \<open>The audit trail\<close>

definition audit_record ::
  "call \<Rightarrow> uuid \<Rightarrow> uuid option \<Rightarrow> string \<Rightarrow> string \<Rightarrow> string option \<Rightarrow> string option \<Rightarrow> string option
     \<Rightarrow> json option \<Rightarrow> store \<Rightarrow> audit_row result \<times> store" where
  "audit_record k i user_id action resource resource_id ip agent metadata st =
     (let r = \<lparr>l_id = i, l_user_id = user_id, l_action = action, l_resource = resource,
               l_resource_id = resource_id, l_ip_address = ip, l_user_agent = agent,
               l_metadata = metadata, l_created_at = c_now k\<rparr> in
      if \<not> c_audit_ok k then (Inl (DatabaseError NotDatabase), st)
      else (case sql_insert audit_clash r (audit_logs st) of
              None \<Rightarrow> (Inl unique_violation, st)
            | Some rs \<Rightarrow> (Inr r, st\<lparr>audit_logs := rs\<rparr>)))"

text \<open>A failure is logged and dropped.\<close>

definition record_best_effort ::
  "call \<Rightarrow> uuid \<Rightarrow> uuid option \<Rightarrow> string \<Rightarrow> string \<Rightarrow> string option \<Rightarrow> request_context \<Rightarrow> json option
     \<Rightarrow> store \<Rightarrow> store" where
  "record_best_effort k i user_id action resource resource_id ctx metadata st =
     snd (audit_record k i user_id action resource resource_id (rc_ip_address ctx) (rc_user_agent ctx)
            metadata st)"

lemma record_best_effort_frame [simp]:
  "users (record_best_effort k i u a r ri c m st) = users st"
  "accounts (record_best_effort k i u a r ri c m st) = accounts st"
  "sessions (record_best_effort k i u a r ri c m st) = sessions st"
  "verifications (record_best_effort k i u a r ri c m st) = verifications st"
  "oauth_requests (record_best_effort k i u a r ri c m st) = oauth_requests st"
  "apps (record_best_effort k i u a r ri c m st) = apps st"
  "organizations (record_best_effort k i u a r ri c m st) = organizations st"
  "org_members (record_best_effort k i u a r ri c m st) = org_members st"
  "api_keys (record_best_effort k i u a r ri c m st) = api_keys st"
  "files (record_best_effort k i u a r ri c m st) = files st"
  "notifications (record_best_effort k i u a r ri c m st) = notifications st"
  "background_jobs (record_best_effort k i u a r ri c m st) = background_jobs st"
  "webhooks (record_best_effort k i u a r ri c m st) = webhooks st"
  "webhook_deliveries (record_best_effort k i u a r ri c m st) = webhook_deliveries st"
  "outbox (record_best_effort k i u a r ri c m st) = outbox st"
  by (simp_all add: record_best_effort_def audit_record_def Let_def split: option.split)

lemma identity_inv_audit [simp]:
  "identity_inv (record_best_effort k i u a r ri c m st) = identity_inv st"
  by (simp add: identity_inv_def)

text \<open>The trail is append-only: recording never changes or drops an entry.\<close>

lemma audit_append_only: "\<exists>more. audit_logs (record_best_effort k i u a r ri c m st) = audit_logs st @ more"
  by (auto simp: record_best_effort_def audit_record_def Let_def sql_insert_def split: option.split)

section \<open>Mail\<close>

definition dispatch_mail :: "string \<Rightarrow> string \<Rightarrow> string \<Rightarrow> string \<Rightarrow> store \<Rightarrow> store" where
  "dispatch_mail recipient subject body kind st =
     st\<lparr>outbox := outbox st @ [\<lparr>ml_recipient = recipient, ml_subject = subject, ml_body = body, ml_kind = kind\<rparr>]\<rparr>"

definition verification_link :: "app_config \<Rightarrow> string \<Rightarrow> string" where
  "verification_link cfg token =
     trim_end_matches (CHR ''/'') (public_base_url cfg) @ ''/api/v1/auth/verify-email?token='' @ token"

definition reset_link :: "app_config \<Rightarrow> string \<Rightarrow> string" where
  "reset_link cfg token =
     trim_end_matches (CHR ''/'') (public_base_url cfg) @ ''/reset-password?token='' @ token"

definition send_verification_email :: "app_config \<Rightarrow> string \<Rightarrow> string \<Rightarrow> store \<Rightarrow> store" where
  "send_verification_email cfg recipient token =
     (let link = verification_link cfg token in
      dispatch_mail recipient ''Verify your email''
        (''<h2>Confirm your email</h2><p>Use this link to verify your account. It expires in ''
         @ int_str (email_verify_ttl_hours cfg) @ '' hours.</p><p><a href='' @ [CHR 0x22] @ link
         @ [CHR 0x22] @ ''>Verify my email</a></p>'')
        ''email_verify'')"

definition send_password_reset_email :: "app_config \<Rightarrow> string \<Rightarrow> string \<Rightarrow> store \<Rightarrow> store" where
  "send_password_reset_email cfg recipient token =
     (let link = reset_link cfg token in
      dispatch_mail recipient ''Reset your password''
        (''<h2>Reset your password</h2><p>Use this link to choose a new password. It expires in ''
         @ int_str (password_reset_ttl_minutes cfg) @ '' minutes.</p><p><a href='' @ [CHR 0x22] @ link
         @ [CHR 0x22] @ ''>Reset my password</a></p><p>If you did not request this, no action is needed.</p>'')
        ''password_reset'')"

lemma mail_frame [simp]:
  "identity_inv (send_verification_email cfg r t st) = identity_inv st"
  "identity_inv (send_password_reset_email cfg r t st) = identity_inv st"
  "users (send_verification_email cfg r t st) = users st"
  "accounts (send_verification_email cfg r t st) = accounts st"
  "sessions (send_verification_email cfg r t st) = sessions st"
  "verifications (send_verification_email cfg r t st) = verifications st"
  "audit_logs (send_verification_email cfg r t st) = audit_logs st"
  "users (send_password_reset_email cfg r t st) = users st"
  "accounts (send_password_reset_email cfg r t st) = accounts st"
  "sessions (send_password_reset_email cfg r t st) = sessions st"
  "verifications (send_password_reset_email cfg r t st) = verifications st"
  "audit_logs (send_password_reset_email cfg r t st) = audit_logs st"
  by (simp_all add: send_verification_email_def send_password_reset_email_def dispatch_mail_def
      identity_inv_def)

end
