(* ===== verification/Auth.thy ===== *)
theory Auth
  imports Store
begin

text \<open>
  Credentials and sessions (\<open>src/services/auth.rs\<close>, with the requests and the password
  rule of \<open>src/models/user.rs\<close>).  An operation takes the third-party functions \<open>P\<close>, the
  configuration, the call's clock and randomness \<open>k\<close>, its arguments and the store, and
  returns its result with the new store; an early return before the commit of a
  transaction returns the store unchanged.
\<close>

section \<open>Requests and responses\<close>

record sign_up_request =
  su_name :: string
  su_email :: string
  su_password :: string
  su_image :: "string option"

record sign_in_request =
  si_email :: string
  si_password :: string

record update_user_request =
  uu_name :: "string option"
  uu_image :: "string option"

record user_response =
  ur_id :: uuid
  ur_name :: string
  ur_email :: string
  ur_email_verified :: bool
  ur_image :: "string option"
  ur_role :: string
  ur_created_at :: time

record auth_response =
  ar_access_token :: string
  ar_refresh_token :: string
  ar_token_type :: string
  ar_expires_in :: int
  ar_session_id :: uuid
  ar_user :: user_response

definition user_response_of :: "user \<Rightarrow> user_response" where
  "user_response_of u = \<lparr>ur_id = u_id u, ur_name = u_name u, ur_email = u_email u,
     ur_email_verified = u_email_verified u, ur_image = u_image u, ur_role = u_role u,
     ur_created_at = u_created_at u\<rparr>"

definition common_passwords :: "string list" where
  "common_passwords = [''password'', ''password1'', ''password12'', ''password123'', ''passw0rd'',
     ''12345678'', ''123456789'', ''1234567890'', ''qwertyuiop'', ''qwerty123'', ''letmein1'',
     ''iloveyou'', ''welcome1'', ''admin123'', ''changeme'', ''football1'', ''sunshine1'',
     ''princess1'', ''baseball1'', ''trustno1'', ''superman1'', ''starwars1'', ''whatever1'', ''monkey12'']"

text \<open>Error: the code and the message of the \<open>ValidationError\<close>.\<close>

definition validate_password_strength :: "string \<Rightarrow> (string \<times> string) + unit" where
  "validate_password_strength password =
     (if length (chars password) < 10
      then Inl (''password_too_short'', ''Password must be at least 10 characters'')
      else if length password > 128
      then Inl (''password_too_long'', ''Password must be at most 128 bytes'')
      else if to_ascii_lowercase password \<in> set common_passwords
      then Inl (''password_too_common'', ''That password is among the most commonly breached; choose another'')
      else Inr ())"

section \<open>Password hashing\<close>

definition argon2_ok :: "ext \<Rightarrow> app_config \<Rightarrow> bool" where
  "argon2_ok P cfg = argon2_params_ok P (memory_kib (cfg_argon2 cfg)) (iterations (cfg_argon2 cfg))
     (parallelism (cfg_argon2 cfg))"

definition hash_password :: "ext \<Rightarrow> app_config \<Rightarrow> string \<Rightarrow> string \<Rightarrow> string result" where
  "hash_password P cfg salt password =
     (if \<not> argon2_ok P cfg then Inl (Internal ''Invalid Argon2 parameters'')
      else ok_or (Internal ''Password hashing failed'') (argon2_hash P password salt))"

definition verify_password :: "ext \<Rightarrow> string \<Rightarrow> string \<Rightarrow> bool result" where
  "verify_password P password h =
     (if \<not> argon2_parse P h then Inl (Internal ''Invalid password hash format'')
      else Inr (argon2_verify P h password))"

section \<open>Access tokens\<close>

definition generate_access_token :: "ext \<Rightarrow> app_config \<Rightarrow> time \<Rightarrow> user \<Rightarrow> uuid \<Rightarrow> string result" where
  "generate_access_token P cfg now u session_id =
     (let c = \<lparr>cl_sub = uuid_str P (u_id u), cl_sid = uuid_str P session_id, cl_email = u_email u,
               cl_role = u_role u,
               cl_exp = word_of_int (timestamp (now + minutes (access_token_ttl_minutes cfg))),
               cl_iat = word_of_int (timestamp now)\<rparr> in
      ok_or (Internal ''JWT encoding failed'') (jwt_encode P (expose (jwt_secret cfg)) c))"

definition verify_access_token :: "ext \<Rightarrow> time \<Rightarrow> string \<Rightarrow> string \<Rightarrow> claims result" where
  "verify_access_token P now token secret =
     ok_or (Unauthorized ''Invalid or expired authentication token'') (jwt_decode P now secret token)"

section \<open>Sessions\<close>

text \<open>\<open>TOKEN_LEN\<close> is the length \<open>random_token\<close> is called with for session and recovery tokens.\<close>

definition TOKEN_LEN :: nat where "TOKEN_LEN = 48"

definition new_session_row ::
  "ext \<Rightarrow> app_config \<Rightarrow> time \<Rightarrow> uuid \<Rightarrow> string \<Rightarrow> uuid \<Rightarrow> request_context \<Rightarrow> session_row" where
  "new_session_row P cfg now session_id refresh_token user_id ctx =
     \<lparr>s_id = session_id, s_user_id = user_id, s_refresh_token_hash = sha256_hex P refresh_token,
      s_previous_token_hash = None, s_expires_at = now + days (refresh_token_ttl_days cfg),
      s_revoked_at = None, s_rotated_at = None, s_ip_address = rc_ip_address ctx,
      s_user_agent = rc_user_agent ctx, s_created_at = now, s_last_used_at = now\<rparr>"

definition create_session ::
  "ext \<Rightarrow> app_config \<Rightarrow> time \<Rightarrow> uuid \<Rightarrow> (nat \<Rightarrow> char) \<Rightarrow> uuid \<Rightarrow> request_context \<Rightarrow> store
     \<Rightarrow> ((uuid \<times> string) \<times> store) result" where
  "create_session P cfg now session_id draws user_id ctx st =
     (let refresh_token = random_token draws TOKEN_LEN in
      case sql_insert session_clash (new_session_row P cfg now session_id refresh_token user_id ctx) (sessions st) of
        None \<Rightarrow> Inl unique_violation
      | Some ss \<Rightarrow> Inr ((session_id, refresh_token), st\<lparr>sessions := ss\<rparr>))"

definition live_user_by_id :: "uuid \<Rightarrow> store \<Rightarrow> user_row option" where
  "live_user_by_id i st = find (\<lambda>u. u_id u = i \<and> u_deleted_at u = None) (users st)"

definition live_user_by_email :: "string \<Rightarrow> store \<Rightarrow> user_row option" where
  "live_user_by_email e st = find (\<lambda>u. u_email u = e \<and> u_deleted_at u = None) (users st)"

text \<open>The join of \<open>resolve_session\<close>: the session row and its live user.\<close>

definition session_user ::
  "uuid \<Rightarrow> uuid \<Rightarrow> store \<Rightarrow> (session_row \<times> user_row) option" where
  "session_user user_id session_id st =
     (case find (\<lambda>s. s_id s = session_id \<and> s_user_id s = user_id) (sessions st) of
        None \<Rightarrow> None
      | Some s \<Rightarrow> map_option (Pair s) (live_user_by_id (s_user_id s) st))"

definition resolve_session :: "time \<Rightarrow> uuid \<Rightarrow> uuid \<Rightarrow> store \<Rightarrow> user result" where
  "resolve_session now user_id session_id st =
     (case session_user user_id session_id st of
        None \<Rightarrow> Inl (Unauthorized ''Session no longer exists'')
      | Some (s, u) \<Rightarrow>
          if s_revoked_at s \<noteq> None then Inl (Unauthorized ''Session has been revoked'')
          else if s_expires_at s \<le> now then Inl (Unauthorized ''Session has expired'')
          else if u_banned u then Inl (Forbidden ''This account has been suspended'')
          else Inr (user_of_row u))"

text \<open>\<open>UPDATE sessions SET revoked_at = now() WHERE \<dots> AND revoked_at IS NULL\<close>.\<close>

definition revoke_sessions :: "time \<Rightarrow> (session_row \<Rightarrow> bool) \<Rightarrow> store \<Rightarrow> store" where
  "revoke_sessions now w st =
     st\<lparr>sessions := sql_update (\<lambda>s. w s \<and> s_revoked_at s = None)
          (\<lambda>s. s\<lparr>s_revoked_at := Some now\<rparr>) (sessions st)\<rparr>"

definition coalesce :: "'a option \<Rightarrow> 'a option \<Rightarrow> 'a option" where
  "coalesce a b = (case a of Some x \<Rightarrow> Some x | None \<Rightarrow> b)"

definition rotate_session ::
  "time \<Rightarrow> app_config \<Rightarrow> string \<Rightarrow> request_context \<Rightarrow> session_row \<Rightarrow> session_row" where
  "rotate_session now cfg new_hash ctx s =
     s\<lparr>s_previous_token_hash := Some (s_refresh_token_hash s), s_refresh_token_hash := new_hash,
       s_expires_at := now + days (refresh_token_ttl_days cfg), s_rotated_at := Some now,
       s_last_used_at := now, s_ip_address := coalesce (rc_ip_address ctx) (s_ip_address s),
       s_user_agent := coalesce (rc_user_agent ctx) (s_user_agent s)\<rparr>"

definition auth_response_of ::
  "app_config \<Rightarrow> string \<Rightarrow> string \<Rightarrow> uuid \<Rightarrow> user \<Rightarrow> auth_response" where
  "auth_response_of cfg access refresh sid u =
     \<lparr>ar_access_token = access, ar_refresh_token = refresh, ar_token_type = ''Bearer'',
      ar_expires_in = access_token_ttl_minutes cfg * 60, ar_session_id = sid,
      ar_user = user_response_of u\<rparr>"

definition refresh_session ::
  "ext \<Rightarrow> app_config \<Rightarrow> call \<Rightarrow> string \<Rightarrow> request_context \<Rightarrow> store \<Rightarrow> auth_response result \<times> store" where
  "refresh_session P cfg k refresh_token ctx st =
     (let token_hash = sha256_hex P refresh_token;
          now = c_now k;
          session = find (\<lambda>s. s_refresh_token_hash s = token_hash) (sessions st);
          replayed = (if session = None
                      then find (\<lambda>s. s_previous_token_hash s = Some token_hash) (sessions st)
                      else None) in
      case replayed of
        Some compromised \<Rightarrow>
          (Inl (Unauthorized ''Refresh token has already been used. Please sign in again.''),
           revoke_sessions now (\<lambda>s. s_user_id s = s_user_id compromised) st)
      | None \<Rightarrow>
        (case session of
           None \<Rightarrow> (Inl (Unauthorized ''Invalid refresh token''), st)
         | Some s \<Rightarrow>
             if s_revoked_at s \<noteq> None
             then (Inl (Unauthorized ''Session has been revoked. Please sign in again.''), st)
             else if s_expires_at s \<le> now then (Inl (Unauthorized ''Refresh token has expired''), st)
             else (case live_user_by_id (s_user_id s) st of
                     None \<Rightarrow> (Inl (Unauthorized ''Account no longer exists''), st)
                   | Some u \<Rightarrow>
                       if u_banned u then (Inl (Forbidden ''This account has been suspended''), st)
                       else
                         (let new_refresh = random_token (c_rand k 0) TOKEN_LEN;
                              ss = sql_update (\<lambda>x. s_id x = s_id s)
                                     (rotate_session now cfg (sha256_hex P new_refresh) ctx) (sessions st) in
                          if \<not> no_clash session_clash ss then (Inl unique_violation, st)
                          else (case generate_access_token P cfg now (user_of_row u) (s_id s) of
                                  Inl e \<Rightarrow> (Inl e, st\<lparr>sessions := ss\<rparr>)
                                | Inr access \<Rightarrow>
                                    (Inr (auth_response_of cfg access new_refresh (s_id s) (user_of_row u)),
                                     st\<lparr>sessions := ss\<rparr>))))))"

definition sign_out ::
  "ext \<Rightarrow> call \<Rightarrow> uuid \<Rightarrow> uuid \<Rightarrow> request_context \<Rightarrow> store \<Rightarrow> string result \<times> store" where
  "sign_out P k user_id session_id ctx st =
     (let st1 = revoke_sessions (c_now k) (\<lambda>s. s_id s = session_id \<and> s_user_id s = user_id) st in
      (Inr ''Signed out successfully'',
       record_best_effort k (c_uuid k 0) (Some user_id) ''session.signed_out'' ''session''
         (Some (uuid_str P session_id)) ctx None st1))"

definition sign_out_all ::
  "call \<Rightarrow> uuid \<Rightarrow> request_context \<Rightarrow> store \<Rightarrow> string result \<times> store" where
  "sign_out_all k user_id ctx st =
     (let revoked = sql_count (\<lambda>s. s_user_id s = user_id \<and> s_revoked_at s = None) (sessions st);
          st1 = revoke_sessions (c_now k) (\<lambda>s. s_user_id s = user_id) st in
      (Inr (''Revoked '' @ nat_str revoked @ '' session(s)''),
       record_best_effort k (c_uuid k 0) (Some user_id) ''session.signed_out_all'' ''session'' None ctx
         (Some (JObj [(''sessions_revoked'', JNum (int revoked))])) st1))"

section \<open>Recovery tokens\<close>

definition issue_verification_token ::
  "ext \<Rightarrow> time \<Rightarrow> uuid \<Rightarrow> (nat \<Rightarrow> char) \<Rightarrow> string \<Rightarrow> token_purpose \<Rightarrow> int \<Rightarrow> store
     \<Rightarrow> (string \<times> store) result" where
  "issue_verification_token P now i draws identifier purpose ttl st =
     (let vs = sql_update
                 (\<lambda>v. v_identifier v = identifier \<and> v_purpose v = purpose_str purpose \<and> v_consumed_at v = None)
                 (\<lambda>v. v\<lparr>v_consumed_at := Some now\<rparr>) (verifications st);
          token = random_token draws TOKEN_LEN;
          r = \<lparr>v_id = i, v_identifier = identifier, v_purpose = purpose_str purpose,
               v_token_hash = sha256_hex P token, v_expires_at = now + ttl, v_consumed_at = None\<rparr> in
      case sql_insert verification_clash r vs of
        None \<Rightarrow> Inl unique_violation
      | Some vs' \<Rightarrow> Inr (token, st\<lparr>verifications := vs'\<rparr>))"

definition redeemable :: "time \<Rightarrow> string \<Rightarrow> token_purpose \<Rightarrow> verification_row \<Rightarrow> bool" where
  "redeemable now h purpose v \<longleftrightarrow> v_token_hash v = h \<and> v_purpose v = purpose_str purpose \<and>
     v_consumed_at v = None \<and> v_expires_at v > now"

definition consume_verification_token ::
  "ext \<Rightarrow> time \<Rightarrow> string \<Rightarrow> token_purpose \<Rightarrow> store \<Rightarrow> (string \<times> store) result" where
  "consume_verification_token P now token purpose st =
     (let w = redeemable now (sha256_hex P token) purpose in
      case find w (verifications st) of
        None \<Rightarrow> Inl (BadRequest ''Invalid, expired, or already-used token'')
      | Some v \<Rightarrow> Inr (v_identifier v,
          st\<lparr>verifications := sql_update w (\<lambda>v. v\<lparr>v_consumed_at := Some now\<rparr>) (verifications st)\<rparr>))"

section \<open>Registration and sign-in\<close>

definition normalize_email :: "string \<Rightarrow> string" where
  "normalize_email e = to_ascii_lowercase (str_trim e)"

definition new_user_row ::
  "time \<Rightarrow> uuid \<Rightarrow> string \<Rightarrow> string \<Rightarrow> bool \<Rightarrow> string option \<Rightarrow> user_row" where
  "new_user_row now i name email verified img =
     \<lparr>u_id = i, u_name = name, u_email = email, u_email_verified = verified, u_image = img,
      u_role = ''user'', u_banned = False, u_created_at = now, u_updated_at = now,
      u_failed_login_attempts = 0, u_locked_until = None, u_deleted_at = None\<rparr>"

definition new_account_row ::
  "time \<Rightarrow> uuid \<Rightarrow> uuid \<Rightarrow> string \<Rightarrow> string \<Rightarrow> string option \<Rightarrow> account_row" where
  "new_account_row now i user_id account_id provider password =
     \<lparr>a_id = i, a_user_id = user_id, a_account_id = account_id, a_provider_id = provider,
      a_access_token = None, a_refresh_token = None, a_access_token_expires_at = None,
      a_scope = None, a_password = password, a_created_at = now, a_updated_at = now\<rparr>"

text \<open>
  The transaction of \<open>sign_up_email\<close>, up to its commit: the new user, the plaintext
  verification token, the session and the refresh token.
\<close>

definition sign_up_tx ::
  "ext \<Rightarrow> app_config \<Rightarrow> call \<Rightarrow> sign_up_request \<Rightarrow> request_context \<Rightarrow> store
     \<Rightarrow> ((user_row \<times> string \<times> uuid \<times> string) \<times> store) result" where
  "sign_up_tx P cfg k req ctx st =
     (let email = normalize_email (su_email req); now = c_now k; user_id = c_uuid k 0 in
      if sql_exists (\<lambda>u. u_email u = email \<and> u_deleted_at u = None) (users st)
      then Inl (Conflict ''User with this email already exists'')
      else and_then (hash_password P cfg (c_salt k) (su_password req)) (\<lambda>h.
        let u = new_user_row now user_id (str_trim (su_name req)) email False (su_image req) in
        and_then (ok_or unique_violation (sql_insert user_clash u (users st))) (\<lambda>us.
        and_then (ok_or unique_violation
                   (sql_insert account_clash
                      (new_account_row now (c_uuid k 1) user_id email ''credential'' (Some h)) (accounts st))) (\<lambda>as.
        and_then (issue_verification_token P now (c_uuid k 2) (c_rand k 0) email EmailVerify
                    (hours (email_verify_ttl_hours cfg)) (st\<lparr>users := us, accounts := as\<rparr>)) (\<lambda>(vt, st1).
        and_then (create_session P cfg now (c_uuid k 3) (c_rand k 1) user_id ctx st1) (\<lambda>((sid, rt), st2).
          Inr ((u, vt, sid, rt), st2)))))))"

definition sign_up_email ::
  "ext \<Rightarrow> app_config \<Rightarrow> call \<Rightarrow> sign_up_request \<Rightarrow> request_context \<Rightarrow> store
     \<Rightarrow> auth_response result \<times> store" where
  "sign_up_email P cfg k req ctx st =
     (case sign_up_tx P cfg k req ctx st of
        Inl e \<Rightarrow> (Inl e, st)
      | Inr ((u, vt, sid, rt), st1) \<Rightarrow>
          (let st2 = send_verification_email cfg (normalize_email (su_email req)) vt st1;
               st3 = record_best_effort k (c_uuid k 4) (Some (u_id u)) ''user.signed_up'' ''user''
                       (Some (uuid_str P (u_id u))) ctx None st2 in
           case generate_access_token P cfg (c_now k) (user_of_row u) sid of
             Inl e \<Rightarrow> (Inl e, st3)
           | Inr access \<Rightarrow> (Inr (auth_response_of cfg access rt sid (user_of_row u)), st3)))"

definition credential_of :: "uuid \<Rightarrow> store \<Rightarrow> account_row option" where
  "credential_of user_id st =
     find (\<lambda>a. a_user_id a = user_id \<and> a_provider_id a = ''credential'') (accounts st)"

definition credential_password :: "uuid \<Rightarrow> store \<Rightarrow> string option" where
  "credential_password user_id st = Option.bind (credential_of user_id st) a_password"

definition bump_failed :: "time \<Rightarrow> app_config \<Rightarrow> user_row \<Rightarrow> user_row" where
  "bump_failed now cfg u =
     u\<lparr>u_failed_login_attempts := u_failed_login_attempts u + 1,
       u_locked_until := (if lockout_threshold cfg \<le> u_failed_login_attempts u + 1
                          then Some (now + minutes (as_i32 (lockout_minutes cfg)))
                          else u_locked_until u)\<rparr>"

text \<open>The audit entry needs a fresh UUID, the only one a failed sign-in draws.\<close>

definition register_failed_login ::
  "ext \<Rightarrow> app_config \<Rightarrow> call \<Rightarrow> uuid \<Rightarrow> request_context \<Rightarrow> store \<Rightarrow> unit result \<times> store" where
  "register_failed_login P cfg k user_id ctx st =
     (let now = c_now k;
          us = sql_update (\<lambda>u. u_id u = user_id) (bump_failed now cfg) (users st);
          st1 = st\<lparr>users := us\<rparr> in
      case find (\<lambda>u. u_id u = user_id) us of
        None \<Rightarrow> (Inl (DatabaseError NotDatabase), st1)
      | Some u \<Rightarrow>
          (Inr (),
           if (case u_locked_until u of Some until \<Rightarrow> until > now | None \<Rightarrow> False)
           then record_best_effort k (c_uuid k 0) (Some user_id) ''user.locked_out'' ''user''
                  (Some (uuid_str P user_id)) ctx None st1
           else st1))"

definition is_locked :: "time \<Rightarrow> user_row \<Rightarrow> bool" where
  "is_locked now u = (case u_locked_until u of Some until \<Rightarrow> until > now | None \<Rightarrow> False)"

definition bad_credentials :: app_error where
  "bad_credentials = Unauthorized ''Invalid email or password''"

definition reset_failures :: "user_row \<Rightarrow> user_row" where
  "reset_failures u = u\<lparr>u_failed_login_attempts := 0, u_locked_until := None\<rparr>"

definition sign_in_email ::
  "ext \<Rightarrow> app_config \<Rightarrow> call \<Rightarrow> sign_in_request \<Rightarrow> request_context \<Rightarrow> store
     \<Rightarrow> auth_response result \<times> store" where
  "sign_in_email P cfg k req ctx st =
     (let email = normalize_email (si_email req); now = c_now k in
      case live_user_by_email email st of
        None \<Rightarrow> (Inl bad_credentials, st)
      | Some u \<Rightarrow>
          if u_banned u then (Inl (Forbidden ''This account has been suspended''), st)
          else if is_locked now u
          then (Inl (TooManyRequests ''Too many failed sign-in attempts. Try again later.''), st)
          else (case credential_password (u_id u) st of
            None \<Rightarrow> (Inl bad_credentials, st)
          | Some h \<Rightarrow>
            (case verify_password P (si_password req) h of
               Inl e \<Rightarrow> (Inl e, st)
             | Inr False \<Rightarrow>
                 (case register_failed_login P cfg k (u_id u) ctx st of
                    (Inl e, st1) \<Rightarrow> (Inl e, st1)
                  | (Inr _, st1) \<Rightarrow> (Inl bad_credentials, st1))
             | Inr True \<Rightarrow>
                 (case create_session P cfg now (c_uuid k 0) (c_rand k 0) (u_id u) ctx
                         (st\<lparr>users := sql_update (\<lambda>x. u_id x = u_id u) reset_failures (users st)\<rparr>) of
                    Inl e \<Rightarrow> (Inl e, st)
                  | Inr ((sid, rt), st1) \<Rightarrow>
                      (let st2 = record_best_effort k (c_uuid k 1) (Some (u_id u)) ''user.signed_in'' ''session''
                                   (Some (uuid_str P sid)) ctx None st1 in
                       case generate_access_token P cfg now (user_of_row u) sid of
                         Inl e \<Rightarrow> (Inl e, st2)
                       | Inr access \<Rightarrow>
                           (Inr (auth_response_of cfg access rt sid (user_of_row u)), st2))))))"

section \<open>Account recovery\<close>

definition verify_email ::
  "ext \<Rightarrow> call \<Rightarrow> string \<Rightarrow> request_context \<Rightarrow> store \<Rightarrow> string result \<times> store" where
  "verify_email P k token ctx st =
     (case consume_verification_token P (c_now k) token EmailVerify st of
        Inl e \<Rightarrow> (Inl e, st)
      | Inr (identifier, st1) \<Rightarrow>
          (let st2 = st1\<lparr>users := sql_update (\<lambda>u. u_email u = identifier)
                 (\<lambda>u. u\<lparr>u_email_verified := True, u_updated_at := c_now k\<rparr>) (users st1)\<rparr> in
           (Inr ''Email verified successfully'',
            record_best_effort k (c_uuid k 0) None ''user.email_verified'' ''user'' None ctx None st2)))"

definition neutral_reset_message :: string where
  "neutral_reset_message = ''If that email is registered, a password reset link has been sent''"

definition forget_password ::
  "ext \<Rightarrow> app_config \<Rightarrow> call \<Rightarrow> string \<Rightarrow> store \<Rightarrow> string result \<times> store" where
  "forget_password P cfg k raw_email st =
     (let email = normalize_email raw_email in
      if \<not> sql_exists (\<lambda>u. u_email u = email \<and> u_deleted_at u = None) (users st)
      then (Inr neutral_reset_message, st)
      else (case issue_verification_token P (c_now k) (c_uuid k 0) (c_rand k 0) email PasswordReset
                   (minutes (password_reset_ttl_minutes cfg)) st of
              Inl e \<Rightarrow> (Inl e, st)
            | Inr (token, st1) \<Rightarrow> (Inr neutral_reset_message, send_password_reset_email cfg email token st1)))"

definition set_password :: "time \<Rightarrow> string \<Rightarrow> account_row \<Rightarrow> account_row" where
  "set_password now h a = a\<lparr>a_password := Some h, a_updated_at := now\<rparr>"

definition reset_password ::
  "ext \<Rightarrow> app_config \<Rightarrow> call \<Rightarrow> string \<Rightarrow> string \<Rightarrow> request_context \<Rightarrow> store \<Rightarrow> string result \<times> store" where
  "reset_password P cfg k token new_password ctx st =
     (case hash_password P cfg (c_salt k) new_password of
        Inl e \<Rightarrow> (Inl e, st)
      | Inr h \<Rightarrow>
        (case consume_verification_token P (c_now k) token PasswordReset st of
           Inl e \<Rightarrow> (Inl e, st)
         | Inr (identifier, st1) \<Rightarrow>
           (case live_user_by_email identifier st1 of
              None \<Rightarrow> (Inl (BadRequest ''Invalid or expired token''), st)
            | Some u \<Rightarrow>
                (let now = c_now k;
                     st2 = st1\<lparr>accounts := sql_update
                              (\<lambda>a. a_user_id a = u_id u \<and> a_provider_id a = ''credential'')
                              (set_password now h) (accounts st1)\<rparr>;
                     st3 = st2\<lparr>users := sql_update (\<lambda>x. u_id x = u_id u)
                              (\<lambda>x. reset_failures x\<lparr>u_updated_at := now\<rparr>) (users st2)\<rparr>;
                     st4 = revoke_sessions now (\<lambda>s. s_user_id s = u_id u) st3 in
                 (Inr ''Password has been reset successfully. All sessions were signed out.'',
                  record_best_effort k (c_uuid k 0) (Some (u_id u)) ''user.password_reset'' ''user''
                    (Some (uuid_str P (u_id u))) ctx None st4)))))"

section \<open>Profile\<close>

definition update_profile ::
  "call \<Rightarrow> uuid \<Rightarrow> update_user_request \<Rightarrow> store \<Rightarrow> user_response result \<times> store" where
  "update_profile k user_id req st =
     (let w = (\<lambda>u. u_id u = user_id \<and> u_deleted_at u = None);
          f = (\<lambda>u. u\<lparr>u_name := unwrap_or_else (u_name u) (map_option str_trim (uu_name req)),
                     u_image := coalesce (uu_image req) (u_image u), u_updated_at := c_now k\<rparr>);
          st1 = st\<lparr>users := sql_update w f (users st)\<rparr> in
      case find w (users st) of
        None \<Rightarrow> (Inl (NotFound ''User not found''), st)
      | Some u \<Rightarrow> (Inr (user_response_of (user_of_row (f u))), st1))"

definition change_password ::
  "ext \<Rightarrow> app_config \<Rightarrow> call \<Rightarrow> uuid \<Rightarrow> uuid \<Rightarrow> string \<Rightarrow> string \<Rightarrow> request_context \<Rightarrow> store
     \<Rightarrow> string result \<times> store" where
  "change_password P cfg k user_id current_session current_password new_password ctx st =
     (case credential_of user_id st of
        None \<Rightarrow> (Inl (BadRequest ''This account signs in with a social provider''), st)
      | Some account \<Rightarrow>
        (case a_password account of
           None \<Rightarrow> (Inl (BadRequest ''Password not set''), st)
         | Some h \<Rightarrow>
           (case verify_password P current_password h of
              Inl e \<Rightarrow> (Inl e, st)
            | Inr False \<Rightarrow> (Inl (Unauthorized ''Incorrect current password''), st)
            | Inr True \<Rightarrow>
              (case hash_password P cfg (c_salt k) new_password of
                 Inl e \<Rightarrow> (Inl e, st)
               | Inr h' \<Rightarrow>
                 (let now = c_now k;
                      st1 = st\<lparr>accounts := sql_update (\<lambda>a. a_id a = a_id account) (set_password now h')
                               (accounts st)\<rparr>;
                      st2 = revoke_sessions now (\<lambda>s. s_user_id s = user_id \<and> s_id s \<noteq> current_session) st1 in
                  (Inr ''Password changed. Other sessions were signed out.'',
                   record_best_effort k (c_uuid k 0) (Some user_id) ''user.password_changed'' ''user''
                     (Some (uuid_str P user_id)) ctx None st2))))))"

definition tombstone_user :: "ext \<Rightarrow> time \<Rightarrow> user_row \<Rightarrow> user_row" where
  "tombstone_user P now u =
     u\<lparr>u_deleted_at := Some now, u_email := ''deleted+'' @ uuid_str P (u_id u) @ ''@invalid'',
       u_name := ''Deleted user'', u_image := None, u_updated_at := now\<rparr>"

definition delete_account ::
  "ext \<Rightarrow> call \<Rightarrow> uuid \<Rightarrow> request_context \<Rightarrow> store \<Rightarrow> string result \<times> store" where
  "delete_account P k user_id ctx st =
     (let now = c_now k; w = (\<lambda>u. u_id u = user_id \<and> u_deleted_at u = None) in
      if sql_count w (users st) = 0 then (Inl (NotFound ''User not found''), st)
      else
        (let st1 = st\<lparr>users := sql_update w (tombstone_user P now) (users st)\<rparr>;
             st2 = revoke_sessions now (\<lambda>s. s_user_id s = user_id) st1;
             st3 = st2\<lparr>accounts := sql_delete (\<lambda>a. a_user_id a = user_id) (accounts st2)\<rparr> in
         (Inr ''Account deleted successfully'',
          record_best_effort k (c_uuid k 0) (Some user_id) ''user.deleted'' ''user''
            (Some (uuid_str P user_id)) ctx None st3)))"

end
