(* ===== verification/Auth_Facts.thy ===== *)
theory Auth_Facts
  imports Auth
begin

text \<open>
  What sessions, recovery tokens and sign-in guarantee: the schema invariant, what every
  operation leaves untouched, refresh-token rotation and replay, revocation and its
  permanence over every sequence of operations, single-use recovery tokens, lockout and
  the uniformity of sign-in failures.
\<close>

section \<open>The operations as steps\<close>

datatype auth_action =
    ASignUp call sign_up_request request_context
  | ASignIn call sign_in_request request_context
  | ARefresh call string request_context
  | ASignOut call uuid uuid request_context
  | ASignOutAll call uuid request_context
  | AVerifyEmail call string request_context
  | AForgetPassword call string
  | AResetPassword call string string request_context
  | AUpdateProfile call uuid update_user_request
  | AChangePassword call uuid uuid string string request_context
  | ADeleteAccount call uuid request_context

fun auth_step :: "ext \<Rightarrow> app_config \<Rightarrow> auth_action \<Rightarrow> store \<Rightarrow> store" where
  "auth_step P cfg (ASignUp k req ctx) st = snd (sign_up_email P cfg k req ctx st)"
| "auth_step P cfg (ASignIn k req ctx) st = snd (sign_in_email P cfg k req ctx st)"
| "auth_step P cfg (ARefresh k t ctx) st = snd (refresh_session P cfg k t ctx st)"
| "auth_step P cfg (ASignOut k u s ctx) st = snd (sign_out P k u s ctx st)"
| "auth_step P cfg (ASignOutAll k u ctx) st = snd (sign_out_all k u ctx st)"
| "auth_step P cfg (AVerifyEmail k t ctx) st = snd (verify_email P k t ctx st)"
| "auth_step P cfg (AForgetPassword k e) st = snd (forget_password P cfg k e st)"
| "auth_step P cfg (AResetPassword k t p ctx) st = snd (reset_password P cfg k t p ctx st)"
| "auth_step P cfg (AUpdateProfile k u req) st = snd (update_profile k u req st)"
| "auth_step P cfg (AChangePassword k u s p q ctx) st = snd (change_password P cfg k u s p q ctx st)"
| "auth_step P cfg (ADeleteAccount k u ctx) st = snd (delete_account P k u ctx st)"

section \<open>What the statements keep\<close>

lemma revoke_frame [simp]:
  "users (revoke_sessions now w st) = users st"
  "accounts (revoke_sessions now w st) = accounts st"
  "verifications (revoke_sessions now w st) = verifications st"
  "audit_logs (revoke_sessions now w st) = audit_logs st"
  "outbox (revoke_sessions now w st) = outbox st"
  by (simp_all add: revoke_sessions_def)

lemma tombstone_simps [simp]:
  "u_id (tombstone_user P now u) = u_id u" "u_deleted_at (tombstone_user P now u) = Some now"
  by (simp_all add: tombstone_user_def)

lemma sessions_revoke:
  "sessions (revoke_sessions now w st) = sql_update (\<lambda>s. w s \<and> s_revoked_at s = None)
     (\<lambda>s. s\<lparr>s_revoked_at := Some now\<rparr>) (sessions st)"
  by (simp add: revoke_sessions_def)

lemma revoked_all:
  "s \<in> set (sessions (revoke_sessions now w st)) \<Longrightarrow> (\<And>s t. w (s\<lparr>s_revoked_at := t\<rparr>) = w s) \<Longrightarrow>
   w s \<Longrightarrow> s_revoked_at s \<noteq> None"
  by (auto simp: sessions_revoke set_sql_update split: if_splits)

lemma revoked_user:
  "s \<in> set (sessions (revoke_sessions now (\<lambda>x. s_user_id x = u) st)) \<Longrightarrow> s_user_id s = u \<Longrightarrow>
   \<exists>t. s_revoked_at s = Some t"
  using revoked_all [of s now "\<lambda>x. s_user_id x = u" st] by auto

lemma inv_revoke: "identity_inv st \<Longrightarrow> identity_inv (revoke_sessions now w st)"
  unfolding identity_inv_def
  by (auto simp: sessions_revoke image_sql_update intro!: no_clash_update_frame simp: session_clash_def)

lemma inv_users_update:
  assumes "identity_inv st"
    and "\<And>a b. user_clash (f a) b \<longleftrightarrow> user_clash a b" "\<And>a b. user_clash a (f b) \<longleftrightarrow> user_clash a b"
    and "\<And>u. u_id (f u) = u_id u"
  shows "identity_inv (st\<lparr>users := sql_update w f (users st)\<rparr>)"
proof -
  have "no_clash user_clash (sql_update w f (users st))"
    using assms(1) by (intro no_clash_update_frame assms) (simp add: identity_inv_def)
  then show ?thesis using assms(1,4) by (simp add: identity_inv_def image_sql_update)
qed

lemma user_clash_frame:
  "(\<And>u. u_id (f u) = u_id u) \<Longrightarrow> (\<And>u. u_email (f u) = u_email u) \<Longrightarrow>
   (\<And>u. u_deleted_at (f u) = u_deleted_at u) \<Longrightarrow>
   user_clash (f a) b = user_clash a b \<and> user_clash b (f a) = user_clash b a"
  by (simp add: user_clash_def)

lemma inv_users_frame:
  assumes "identity_inv st" "\<And>u. u_id (f u) = u_id u" "\<And>u. u_email (f u) = u_email u"
    "\<And>u. u_deleted_at (f u) = u_deleted_at u"
  shows "identity_inv (st\<lparr>users := sql_update w f (users st)\<rparr>)"
  by (rule inv_users_update [OF assms(1)]) (simp_all add: user_clash_def assms)

lemma inv_accounts_frame:
  assumes "identity_inv st" "\<And>a. (a_id (f a), a_user_id (f a), a_provider_id (f a), a_account_id (f a))
      = (a_id a, a_user_id a, a_provider_id a, a_account_id a)"
  shows "identity_inv (st\<lparr>accounts := sql_update w f (accounts st)\<rparr>)"
  using assms by (auto simp: identity_inv_def image_sql_update account_clash_def intro!: no_clash_update_frame)

lemma inv_accounts_delete:
  "identity_inv st \<Longrightarrow> identity_inv (st\<lparr>accounts := sql_delete w (accounts st)\<rparr>)"
  by (auto simp: identity_inv_def image_subset_iff intro: no_clash_delete)

lemma inv_verifications_frame:
  assumes "identity_inv st" "\<And>a. (v_id (f a), v_token_hash (f a)) = (v_id a, v_token_hash a)"
  shows "identity_inv (st\<lparr>verifications := sql_update w f (verifications st)\<rparr>)"
  using assms by (auto simp: identity_inv_def verification_clash_def intro!: no_clash_update_frame)

lemma inv_create_session:
  assumes "identity_inv st" "create_session P cfg now i d u ctx st = Inr (x, st')" "u \<in> u_id ` set (users st)"
  shows "identity_inv st'"
proof -
  from assms(2) obtain r ss where r: "sql_insert session_clash r (sessions st) = Some ss"
    "s_user_id r = u" "st' = st\<lparr>sessions := ss\<rparr>"
    by (auto simp: create_session_def Let_def new_session_row_def split: option.splits)
  have "no_clash session_clash ss"
    using sessions.insert_keeps [OF _ r(1)] assms(1) by (simp add: identity_inv_def)
  with r assms(1,3) show ?thesis by (simp add: identity_inv_def sql_insert_Some)
qed

lemma inv_issue:
  assumes "identity_inv st" "issue_verification_token P now i d e p ttl st = Inr (x, st')"
  shows "identity_inv st'"
proof -
  let ?vs = "sql_update (\<lambda>v. v_identifier v = e \<and> v_purpose v = purpose_str p \<and> v_consumed_at v = None)
                 (\<lambda>v. v\<lparr>v_consumed_at := Some now\<rparr>) (verifications st)"
  have "no_clash verification_clash ?vs"
    using inv_verifications_frame [OF assms(1), of "\<lambda>v. v\<lparr>v_consumed_at := Some now\<rparr>"]
    by (simp add: identity_inv_def)
  then show ?thesis
    using assms verifications.insert_keeps
    by (auto simp: issue_verification_token_def Let_def identity_inv_def image_subset_iff split: option.splits)
qed

lemma inv_consume:
  assumes "identity_inv st" "consume_verification_token P now t p st = Inr (x, st')"
  shows "identity_inv st'"
  using assms inv_verifications_frame [OF assms(1), of "\<lambda>v. v\<lparr>v_consumed_at := Some now\<rparr>"]
  by (auto simp: consume_verification_token_def Let_def split: option.splits)

lemma live_user_by_id_Some:
  "live_user_by_id i st = Some u \<Longrightarrow> u \<in> set (users st) \<and> u_id u = i \<and> u_deleted_at u = None"
  unfolding live_user_by_id_def by (auto dest: find_Some_mem)

lemma live_user_by_email_Some:
  "live_user_by_email e st = Some u \<Longrightarrow> u \<in> set (users st) \<and> u_email u = e \<and> u_deleted_at u = None"
  unfolding live_user_by_email_def by (auto dest: find_Some_mem)

section \<open>The schema invariant\<close>

lemma inv_sign_up_tx:
  assumes "identity_inv st" "sign_up_tx P cfg k req ctx st = Inr (x, st')"
  shows "identity_inv st'"
proof -
  let ?e = "normalize_email (su_email req)"
  let ?u = "new_user_row (c_now k) (c_uuid k 0) (str_trim (su_name req)) ?e False (su_image req)"
  from assms(2) obtain h us as vt st1 y where
    us: "sql_insert user_clash ?u (users st) = Some us" and
    as: "sql_insert account_clash (new_account_row (c_now k) (c_uuid k 1) (c_uuid k 0) ?e ''credential'' (Some h)) (accounts st) = Some as" and
    vt: "issue_verification_token P (c_now k) (c_uuid k 2) (c_rand k 0) ?e EmailVerify
          (hours (email_verify_ttl_hours cfg)) (st\<lparr>users := us, accounts := as\<rparr>) = Inr (vt, st1)" and
    cs: "create_session P cfg (c_now k) (c_uuid k 3) (c_rand k 1) (c_uuid k 0) ctx st1 = Inr (y, st')"
    by (auto simp: sign_up_tx_def Let_def and_then_Inr split: if_splits)
  have i1: "identity_inv (st\<lparr>users := us, accounts := as\<rparr>)"
    using assms(1) us as users.insert_keeps [OF _ us] accounts.insert_keeps [OF _ as]
    by (auto simp: identity_inv_def sql_insert_Some new_user_row_def new_account_row_def)
  have "identity_inv st1" by (rule inv_issue [OF i1 vt])
  moreover have "users st1 = us"
    using vt by (auto simp: issue_verification_token_def Let_def split: option.splits)
  then have "c_uuid k 0 \<in> u_id ` set (users st1)"
    using us by (auto simp: sql_insert_Some new_user_row_def)
  ultimately show ?thesis using inv_create_session cs by blast
qed

lemma inv_sign_up: "identity_inv st \<Longrightarrow> identity_inv (snd (sign_up_email P cfg k req ctx st))"
  by (auto simp: sign_up_email_def Let_def dest: inv_sign_up_tx split: sum.splits)

lemma inv_register_failed: "identity_inv st \<Longrightarrow> identity_inv (snd (register_failed_login P cfg k i ctx st))"
  using inv_users_frame [of st "bump_failed (c_now k) cfg" "\<lambda>u. u_id u = i"]
  by (auto simp: register_failed_login_def Let_def bump_failed_def split: option.splits)

lemma inv_sign_in:
  assumes "identity_inv st"
  shows "identity_inv (snd (sign_in_email P cfg k req ctx st))"
proof -
  have reset: "identity_inv (st\<lparr>users := sql_update w reset_failures (users st)\<rparr>)" for w
    by (rule inv_users_frame [OF assms]) (simp_all add: reset_failures_def)
  have cs: "identity_inv st'"
    if "create_session P cfg (c_now k) i d (u_id u) ctx
          (st\<lparr>users := sql_update w reset_failures (users st)\<rparr>) = Inr (x, st')" "u \<in> set (users st)"
    for u i d w x st'
    using inv_create_session [OF reset that(1)] that(2)
    by (auto simp: image_sql_update reset_failures_def)
  have fl: "identity_inv st'" if "register_failed_login P cfg k i ctx st = (r, st')" for i r st'
    using inv_register_failed [OF assms, of P cfg k i ctx] that by simp
  show ?thesis
    using assms
    by (auto simp: sign_in_email_def Let_def dest: fl cs dest!: live_user_by_email_Some
        split: option.split sum.split bool.split prod.split)
qed

lemma inv_refresh: "identity_inv st \<Longrightarrow> identity_inv (snd (refresh_session P cfg k t ctx st))"
proof -
  assume i: "identity_inv st"
  have "identity_inv (st\<lparr>sessions := sql_update w (rotate_session now cfg h ctx) (sessions st)\<rparr>)"
    if "no_clash session_clash (sql_update w (rotate_session now cfg h ctx) (sessions st))" for w now h
    using i that by (auto simp: identity_inv_def image_sql_update rotate_session_def)
  with i show ?thesis
    by (auto simp: refresh_session_def Let_def inv_revoke split: option.split sum.split)
qed

lemma inv_verify_email: "identity_inv st \<Longrightarrow> identity_inv (snd (verify_email P k t ctx st))"
  by (auto simp: verify_email_def Let_def dest: inv_consume intro!: inv_users_frame split: sum.splits)

lemma inv_forget: "identity_inv st \<Longrightarrow> identity_inv (snd (forget_password P cfg k e st))"
  by (auto simp: forget_password_def Let_def dest: inv_issue split: sum.splits)

lemma inv_reset:
  assumes "identity_inv st"
  shows "identity_inv (snd (reset_password P cfg k t p ctx st))"
proof -
  have "identity_inv (b\<lparr>accounts := sql_update w (set_password now h) (accounts b),
      users := sql_update w' (\<lambda>x. reset_failures x\<lparr>u_updated_at := now\<rparr>) (users b)\<rparr>)"
    if "identity_inv b" for b w w' now h
    using inv_users_frame [OF inv_accounts_frame [OF that, of "set_password now h" w],
        of "\<lambda>x. reset_failures x\<lparr>u_updated_at := now\<rparr>" w']
    by (simp add: set_password_def reset_failures_def)
  with assms show ?thesis
    by (auto simp: reset_password_def Let_def dest: inv_consume intro!: inv_revoke
        split: sum.splits option.splits)
qed

lemma inv_update_profile: "identity_inv st \<Longrightarrow> identity_inv (snd (update_profile k u req st))"
  by (auto simp: update_profile_def Let_def intro!: inv_users_frame split: option.splits)

lemma inv_change_password: "identity_inv st \<Longrightarrow> identity_inv (snd (change_password P cfg k u s p q ctx st))"
  by (auto simp: change_password_def Let_def set_password_def intro!: inv_revoke inv_accounts_frame
      split: sum.splits option.splits bool.splits)

lemma inv_delete_account:
  assumes "identity_inv st"
  shows "identity_inv (snd (delete_account P k u ctx st))"
proof -
  let ?us = "sql_update (\<lambda>x. u_id x = u \<and> u_deleted_at x = None) (tombstone_user P (c_now k)) (users st)"
  have "no_clash user_clash ?us"
    using assms by (intro users.update_keeps) (auto simp: identity_inv_def user_clash_def tombstone_user_def)
  then have "identity_inv (st\<lparr>users := ?us\<rparr>)"
    using assms by (simp add: identity_inv_def image_sql_update tombstone_user_def)
  from inv_accounts_delete [OF inv_revoke [OF this]] show ?thesis
    using assms by (simp add: delete_account_def Let_def)
qed

lemmas inv_auth = inv_sign_up inv_sign_in inv_refresh inv_verify_email inv_forget inv_reset
  inv_update_profile inv_change_password inv_delete_account

lemma identity_inv_step: "identity_inv st \<Longrightarrow> identity_inv (auth_step P cfg a st)"
  by (cases a) (simp_all add: inv_auth sign_out_def sign_out_all_def Let_def inv_revoke)

section \<open>History is never rewritten\<close>

definition session_grows :: "session_row \<Rightarrow> session_row \<Rightarrow> bool" where
  "session_grows s s' \<longleftrightarrow> s_id s' = s_id s \<and> s_user_id s' = s_user_id s \<and>
     (s_revoked_at s \<noteq> None \<longrightarrow> s_revoked_at s' = s_revoked_at s)"

definition verification_grows :: "verification_row \<Rightarrow> verification_row \<Rightarrow> bool" where
  "verification_grows v v' \<longleftrightarrow> v_id v' = v_id v \<and> v_identifier v' = v_identifier v \<and>
     v_purpose v' = v_purpose v \<and> v_token_hash v' = v_token_hash v \<and> v_expires_at v' = v_expires_at v \<and>
     (v_consumed_at v \<noteq> None \<longrightarrow> v_consumed_at v' = v_consumed_at v)"

definition user_grows :: "user_row \<Rightarrow> user_row \<Rightarrow> bool" where
  "user_grows u u' \<longleftrightarrow> u_id u' = u_id u \<and> (u_deleted_at u \<noteq> None \<longrightarrow> u_deleted_at u' = u_deleted_at u)"

definition history :: "store \<Rightarrow> store \<Rightarrow> bool" where
  "history st st' \<longleftrightarrow> evolves session_grows (sessions st) (sessions st') \<and>
     evolves verification_grows (verifications st) (verifications st') \<and>
     evolves user_grows (users st) (users st') \<and>
     take (length (audit_logs st)) (audit_logs st') = audit_logs st"

lemma grows_refl [simp]: "session_grows s s" "verification_grows v v" "user_grows u u"
  by (simp_all add: session_grows_def verification_grows_def user_grows_def)

lemma grows_trans:
  "session_grows a b \<Longrightarrow> session_grows b c \<Longrightarrow> session_grows a c"
  "verification_grows v w \<Longrightarrow> verification_grows w x \<Longrightarrow> verification_grows v x"
  "user_grows p q \<Longrightarrow> user_grows q r \<Longrightarrow> user_grows p r"
  by (auto simp: session_grows_def verification_grows_def user_grows_def)

lemma history_refl [simp]: "history st st"
  by (simp add: history_def evolves_refl)

lemma history_trans: "history a b \<Longrightarrow> history b c \<Longrightarrow> history a c"
proof -
  assume 1: "history a b" and 2: "history b c"
  have "take (length (audit_logs a)) (audit_logs c) = audit_logs a"
  proof -
    let ?a = "audit_logs a" and ?b = "audit_logs b" and ?c = "audit_logs c"
    have ab: "take (length ?a) ?b = ?a" and bc: "take (length ?b) ?c = ?b"
      using 1 2 by (simp_all add: history_def)
    have "length ?a \<le> length ?b" using ab by (metis length_take min.cobounded1 nle_le take_all)
    then have "take (length ?a) ?c = take (length ?a) (take (length ?b) ?c)" by (simp add: min_def)
    then show ?thesis by (simp only: ab bc)
  qed
  with 1 2 show ?thesis
    unfolding history_def by (blast intro: evolves_trans grows_trans)
qed

lemma history_audit: "history st (record_best_effort k i u a r ri c m st)"
  using audit_append_only [of k i u a r ri c m st] by (auto simp: history_def evolves_refl)

lemma history_then_audit: "history st x \<Longrightarrow> history st (record_best_effort k i u a r ri c m x)"
  using history_trans history_audit by blast

lemma history_revoke: "history st (revoke_sessions now w st)"
  by (auto simp: history_def evolves_refl sessions_revoke session_grows_def intro!: evolves_update)

lemma history_then_revoke: "history st x \<Longrightarrow> history st (revoke_sessions now w x)"
  using history_trans history_revoke by blast

lemma history_users:
  "(\<And>u. w u \<Longrightarrow> user_grows u (f u)) \<Longrightarrow> history st (st\<lparr>users := sql_update w f (users st)\<rparr>)"
  by (auto simp: history_def intro!: evolves_refl evolves_update)

lemma history_accounts: "history st (st\<lparr>accounts := as\<rparr>)"
  by (auto simp: history_def intro!: evolves_refl)

lemma history_mail:
  "history st (send_verification_email cfg r t st)" "history st (send_password_reset_email cfg r t st)"
  by (auto simp: history_def intro!: evolves_refl)

lemma history_then_mail:
  "history st x \<Longrightarrow> history st (send_verification_email cfg r t x)"
  "history st x \<Longrightarrow> history st (send_password_reset_email cfg r t x)"
  using history_trans history_mail by blast+

lemma history_create_session:
  "create_session P cfg now i d u ctx st = Inr (x, st') \<Longrightarrow> history st st'"
  by (auto simp: create_session_def Let_def history_def intro!: evolves_refl
      intro: evolves_insert split: option.splits)

lemma history_consume:
  "consume_verification_token P now t p st = Inr (x, st') \<Longrightarrow> history st st'"
  by (auto simp: consume_verification_token_def Let_def history_def redeemable_def verification_grows_def
      intro!: evolves_refl evolves_update split: option.splits)

lemma history_issue:
  "issue_verification_token P now i d e p ttl st = Inr (x, st') \<Longrightarrow> history st st'"
proof -
  assume a: "issue_verification_token P now i d e p ttl st = Inr (x, st')"
  let ?vs = "sql_update (\<lambda>v. v_identifier v = e \<and> v_purpose v = purpose_str p \<and> v_consumed_at v = None)
                 (\<lambda>v. v\<lparr>v_consumed_at := Some now\<rparr>) (verifications st)"
  have "evolves verification_grows (verifications st) ?vs"
    by (intro evolves_update) (auto simp: verification_grows_def)
  moreover from a obtain r where "sql_insert verification_clash r ?vs = Some (verifications st')"
    "st' = st\<lparr>verifications := verifications st'\<rparr>"
    by (auto simp: issue_verification_token_def Let_def split: option.splits)
  ultimately have "evolves verification_grows (verifications st) (verifications st')"
    by (auto intro: evolves_trans [OF _ evolves_insert] grows_trans(2))
  moreover have "sessions st' = sessions st" "users st' = users st" "audit_logs st' = audit_logs st"
    by (subst \<open>st' = _\<close>, simp)+
  ultimately show ?thesis by (simp add: history_def evolves_refl)
qed

lemmas history_intros = history_then_audit history_then_revoke history_revoke history_refl

lemma history_sign_up: "history st (snd (sign_up_email P cfg k req ctx st))"
proof -
  have tx: "history st st'" if a: "sign_up_tx P cfg k req ctx st = Inr (x, st')" for x st'
  proof -
    from a obtain us as vt st1 y r where
      us: "sql_insert user_clash r (users st) = Some us" and
      vt: "issue_verification_token P (c_now k) (c_uuid k 2) (c_rand k 0) (normalize_email (su_email req)) EmailVerify
            (hours (email_verify_ttl_hours cfg)) (st\<lparr>users := us, accounts := as\<rparr>) = Inr (vt, st1)" and
      cs: "create_session P cfg (c_now k) (c_uuid k 3) (c_rand k 1) (c_uuid k 0) ctx st1 = Inr (y, st')"
      by (auto simp: sign_up_tx_def Let_def and_then_Inr split: if_splits)
    have "history st (st\<lparr>users := us, accounts := as\<rparr>)"
      using us by (auto simp: history_def intro!: evolves_refl intro: evolves_insert)
    with history_issue [OF vt] history_create_session [OF cs] show ?thesis
      by (blast intro: history_trans)
  qed
  show ?thesis
    by (auto simp: sign_up_email_def Let_def intro!: history_then_audit history_then_mail
        dest: tx split: sum.split prod.split)
qed

lemma history_sign_in: "history st (snd (sign_in_email P cfg k req ctx st))"
proof -
  have cs: "history st st'"
    if "create_session P cfg now i d u ctx (st\<lparr>users := sql_update w reset_failures (users st)\<rparr>) = Inr (x, st')"
    for now i d u w x st'
    using history_trans [OF history_users history_create_session [OF that]]
    by (simp add: user_grows_def reset_failures_def)
  have fl: "history st (snd (register_failed_login P cfg k u ctx st))" for u
    by (auto simp: register_failed_login_def Let_def bump_failed_def user_grows_def
        intro!: history_then_audit history_users split: option.split)
  have fl': "register_failed_login P cfg k u ctx st = (r, x) \<Longrightarrow> history st x" for u r x
    using fl [of u] by simp
  show ?thesis
    by (auto simp: sign_in_email_def Let_def intro!: history_then_audit dest: cs fl'
        split: option.split sum.split bool.split prod.split)
qed

lemma history_refresh: "history st (snd (refresh_session P cfg k t ctx st))"
proof -
  have "history st (st\<lparr>sessions := sql_update w (rotate_session now cfg h ctx) (sessions st)\<rparr>)" for w now h
    by (auto simp: history_def session_grows_def rotate_session_def intro!: evolves_refl evolves_update)
  then show ?thesis
    by (auto simp: refresh_session_def Let_def intro: history_intros split: option.split sum.split)
qed

lemma history_verify_email: "history st (snd (verify_email P k t ctx st))"
  by (auto simp: verify_email_def Let_def user_grows_def intro!: history_then_audit
      intro: history_trans [OF history_consume history_users] split: sum.split prod.split)

lemma history_forget: "history st (snd (forget_password P cfg k e st))"
  by (auto simp: forget_password_def Let_def intro!: history_then_mail dest: history_issue
      split: sum.split prod.split)

lemma history_reset: "history st (snd (reset_password P cfg k t p ctx st))"
proof -
  have "history st (b\<lparr>accounts := as, users := sql_update w (\<lambda>x. reset_failures x\<lparr>u_updated_at := now\<rparr>) (users b)\<rparr>)"
    if "consume_verification_token P now' t pu st = Inr (i, b)" for b as w now now' t pu i
  proof -
    have "history (b\<lparr>accounts := as\<rparr>)
        (b\<lparr>accounts := as, users := sql_update w (\<lambda>x. reset_failures x\<lparr>u_updated_at := now\<rparr>) (users b)\<rparr>)"
      using history_users [of w "\<lambda>x. reset_failures x\<lparr>u_updated_at := now\<rparr>" "b\<lparr>accounts := as\<rparr>"]
      by (simp add: user_grows_def reset_failures_def)
    with history_consume [OF that] history_accounts show ?thesis by (blast intro: history_trans)
  qed
  then show ?thesis
    by (auto simp: reset_password_def Let_def intro!: history_intros split: sum.split option.split)
qed

lemma history_update_profile: "history st (snd (update_profile k u req st))"
  by (auto simp: update_profile_def Let_def user_grows_def intro!: history_users split: option.split)

lemma history_change_password: "history st (snd (change_password P cfg k u s p q ctx st))"
  by (auto simp: change_password_def Let_def intro!: history_then_audit history_then_revoke history_accounts
      split: option.split sum.split bool.split)

lemma history_delete_account: "history st (snd (delete_account P k u ctx st))"
proof -
  have 1: "history st (revoke_sessions now w (st\<lparr>users := sql_update (\<lambda>x. u_id x = u \<and> u_deleted_at x = None)
      (tombstone_user P now) (users st)\<rparr>))" for now w
    by (intro history_then_revoke history_users) (simp add: user_grows_def tombstone_user_def)
  then show ?thesis
    by (auto simp: delete_account_def Let_def intro!: history_then_audit history_trans [OF 1 history_accounts])
qed

lemmas history_auth = history_sign_up history_sign_in history_refresh history_verify_email
  history_forget history_reset history_update_profile history_change_password history_delete_account

lemma history_step: "history st (auth_step P cfg a st)"
  by (cases a) (simp_all add: history_auth sign_out_def sign_out_all_def Let_def history_intros)

interpretation auth: monotone_system identity_inv "auth_step P cfg" history for P cfg
  by unfold_locales (auto intro: identity_inv_step history_step history_trans)

section \<open>Looking up sessions and users\<close>

lemma inv_no_clash:
  "identity_inv st \<Longrightarrow> no_clash user_clash (users st)"
  "identity_inv st \<Longrightarrow> no_clash account_clash (accounts st)"
  "identity_inv st \<Longrightarrow> no_clash session_clash (sessions st)"
  "identity_inv st \<Longrightarrow> no_clash verification_clash (verifications st)"
  by (simp_all add: identity_inv_def)

lemma live_user_by_id_iff:
  "identity_inv st \<Longrightarrow> live_user_by_id i st = Some u \<longleftrightarrow>
     u \<in> set (users st) \<and> u_id u = i \<and> u_deleted_at u = None"
proof
  assume "identity_inv st" "u \<in> set (users st) \<and> u_id u = i \<and> u_deleted_at u = None"
  then show "live_user_by_id i st = Some u"
    unfolding live_user_by_id_def
    by (intro find_unique) (auto dest: users.pk_unique [OF inv_no_clash(1)])
qed (simp add: live_user_by_id_Some)

lemma live_user_by_email_iff:
  "identity_inv st \<Longrightarrow> live_user_by_email e st = Some u \<longleftrightarrow>
     u \<in> set (users st) \<and> u_email u = e \<and> u_deleted_at u = None"
proof
  assume "identity_inv st" "u \<in> set (users st) \<and> u_email u = e \<and> u_deleted_at u = None"
  then show "live_user_by_email e st = Some u"
    unfolding live_user_by_email_def
    by (intro find_unique) (auto dest: users.uk_unique [OF inv_no_clash(1)])
qed (simp add: live_user_by_email_Some)

lemma find_session_iff:
  "identity_inv st \<Longrightarrow> find (\<lambda>s. s_id s = i \<and> s_user_id s = u) (sessions st) = Some s \<longleftrightarrow>
     s \<in> set (sessions st) \<and> s_id s = i \<and> s_user_id s = u"
proof
  assume "identity_inv st" "s \<in> set (sessions st) \<and> s_id s = i \<and> s_user_id s = u"
  then show "find (\<lambda>s. s_id s = i \<and> s_user_id s = u) (sessions st) = Some s"
    by (intro find_unique) (auto dest: sessions.pk_unique [OF inv_no_clash(3)])
qed (auto dest: find_Some_mem)

lemma find_hash_iff:
  "identity_inv st \<Longrightarrow> find (\<lambda>s. s_refresh_token_hash s = h) (sessions st) = Some s \<longleftrightarrow>
     s \<in> set (sessions st) \<and> s_refresh_token_hash s = h"
proof
  assume "identity_inv st" "s \<in> set (sessions st) \<and> s_refresh_token_hash s = h"
  then show "find (\<lambda>s. s_refresh_token_hash s = h) (sessions st) = Some s"
    by (intro find_unique) (auto dest: sessions.uk_unique [OF inv_no_clash(3)])
qed (auto dest: find_Some_mem)

lemma session_user_iff:
  "identity_inv st \<Longrightarrow> session_user uid sid st = Some (s, u) \<longleftrightarrow>
     s \<in> set (sessions st) \<and> s_id s = sid \<and> s_user_id s = uid \<and>
     u \<in> set (users st) \<and> u_id u = uid \<and> u_deleted_at u = None"
proof -
  assume inv: "identity_inv st"
  have "session_user uid sid st = Some (s, u) \<longleftrightarrow>
      find (\<lambda>s. s_id s = sid \<and> s_user_id s = uid) (sessions st) = Some s \<and>
      live_user_by_id (s_user_id s) st = Some u"
    by (auto simp: session_user_def split: option.splits)
  then show ?thesis by (auto simp: find_session_iff [OF inv] live_user_by_id_iff [OF inv])
qed

text \<open>
  C6. The per-request check: an access token's session authenticates a user exactly when
  the session row exists for that user, is not revoked and not expired, and the user
  exists, is not deleted and not banned; the user returned is the current row, not the
  token's contents.
\<close>

theorem resolve_session_iff:
  assumes "identity_inv st"
  shows "resolve_session now uid sid st = Inr usr \<longleftrightarrow>
    (\<exists>s\<in>set (sessions st). \<exists>u\<in>set (users st).
       s_id s = sid \<and> s_user_id s = uid \<and> s_revoked_at s = None \<and> now < s_expires_at s \<and>
       u_id u = uid \<and> u_deleted_at u = None \<and> \<not> u_banned u \<and> usr = user_of_row u)"
proof (cases "session_user uid sid st")
  case None
  then have "\<not> (s \<in> set (sessions st) \<and> s_id s = sid \<and> s_user_id s = uid \<and>
     u \<in> set (users st) \<and> u_id u = uid \<and> u_deleted_at u = None)" for s u
    using session_user_iff [OF assms, of uid sid s u] by simp
  with None show ?thesis by (auto simp: resolve_session_def)
next
  case (Some su)
  obtain s u where su: "su = (s, u)" by (cases su)
  note iff = session_user_iff [OF assms, of uid sid]
  have row: "s \<in> set (sessions st)" "s_id s = sid" "s_user_id s = uid"
     "u \<in> set (users st)" "u_id u = uid" "u_deleted_at u = None"
    using iff [of s u] Some su by simp_all
  have unique: "s' = s \<and> u' = u" if "s' \<in> set (sessions st)" "s_id s' = sid" "s_user_id s' = uid"
     "u' \<in> set (users st)" "u_id u' = uid" "u_deleted_at u' = None" for s' u'
    using iff [of s' u'] that Some su by simp
  let ?ok = "s_revoked_at s = None \<and> now < s_expires_at s \<and> \<not> u_banned u \<and> usr = user_of_row u"
  have "?ok \<Longrightarrow> ?thesis"
    unfolding resolve_session_def Some su option.case prod.case
    using row by (auto simp: not_le intro!: bexI [OF _ row(1)] bexI [OF _ row(4)])
  moreover have ?ok if rhs: "\<exists>s\<in>set (sessions st). \<exists>u\<in>set (users st).
       s_id s = sid \<and> s_user_id s = uid \<and> s_revoked_at s = None \<and> now < s_expires_at s \<and>
       u_id u = uid \<and> u_deleted_at u = None \<and> \<not> u_banned u \<and> usr = user_of_row u"
  proof -
    from rhs obtain s' u' where *: "s' \<in> set (sessions st)" "u' \<in> set (users st)" "s_id s' = sid"
      "s_user_id s' = uid" "u_id u' = uid" "u_deleted_at u' = None" "s_revoked_at s' = None"
      "now < s_expires_at s'" "\<not> u_banned u'" "usr = user_of_row u'"
      by blast
    from unique [OF *(1,3,4,2,5,6)] * show ?ok by simp
  qed
  moreover have "resolve_session now uid sid st = Inr usr \<Longrightarrow> ?ok"
    by (auto simp: resolve_session_def Some su split: if_splits)
  ultimately show ?thesis by blast
qed

section \<open>Refresh tokens\<close>

lemma refresh_ok:
  assumes "identity_inv st" "refresh_session P cfg k t ctx st = (Inr r, st')"
  obtains s u where "s \<in> set (sessions st)" "s_refresh_token_hash s = sha256_hex P t"
    "s_revoked_at s = None" "c_now k < s_expires_at s"
    "u \<in> set (users st)" "u_id u = s_user_id s" "u_deleted_at u = None" "\<not> u_banned u"
    "ar_session_id r = s_id s" "ar_user r = user_response_of (user_of_row u)"
    "ar_refresh_token r = random_token (c_rand k 0) TOKEN_LEN"
    "st' = st\<lparr>sessions := sql_update (\<lambda>x. s_id x = s_id s)
        (rotate_session (c_now k) cfg (sha256_hex P (ar_refresh_token r)) ctx) (sessions st)\<rparr>"
    "no_clash session_clash (sessions st')"
proof -
  from assms(2) obtain s where s: "find (\<lambda>s. s_refresh_token_hash s = sha256_hex P t) (sessions st) = Some s"
    by (auto simp: refresh_session_def Let_def split: option.splits)
  from assms(2) s obtain u where u: "live_user_by_id (s_user_id s) st = Some u"
    by (auto simp: refresh_session_def Let_def split: option.splits if_splits)
  show ?thesis
    by (rule that [of s u]) (use assms s u find_Some_mem [OF s] live_user_by_id_Some [OF u] in
      \<open>auto simp: refresh_session_def Let_def auth_response_of_def split: if_splits sum.splits\<close>)
qed

lemma rotated_mem:
  assumes "no_clash session_clash ss" "s \<in> set ss"
  shows "x \<in> set (sql_update (\<lambda>x. s_id x = s_id s) f ss) \<longleftrightarrow> x = f s \<or> (x \<in> set ss \<and> x \<noteq> s)"
proof -
  have "x \<in> set ss \<Longrightarrow> s_id x = s_id s \<longleftrightarrow> x = s" for x
    using sessions.pk_unique [OF assms(1) _ assms(2)] by blast
  with assms(2) show ?thesis by (auto simp: set_sql_update image_iff)
qed

text \<open>
  Refresh-token rotation: a successful refresh is for a live session of a live,
  unbanned user, changes only that session, consumes the presented token (it becomes the
  previous one) and installs the new one; the new token is the only one that will refresh
  this session next.
\<close>

theorem refresh_rotates:
  assumes "identity_inv st" "refresh_session P cfg k t ctx st = (Inr r, st')"
  shows "\<exists>s\<in>set (sessions st). s_refresh_token_hash s = sha256_hex P t \<and> s_id s = ar_session_id r \<and>
      s_revoked_at s = None \<and> c_now k < s_expires_at s \<and>
      (\<exists>s'\<in>set (sessions st'). s_id s' = s_id s \<and> s_user_id s' = s_user_id s \<and>
         s_refresh_token_hash s' = sha256_hex P (ar_refresh_token r) \<and>
         s_previous_token_hash s' = Some (sha256_hex P t) \<and> s_revoked_at s' = None) \<and>
      (\<forall>x. s_id x \<noteq> s_id s \<longrightarrow> (x \<in> set (sessions st') \<longleftrightarrow> x \<in> set (sessions st))) \<and>
      users st' = users st \<and> length (sessions st') = length (sessions st)"
proof -
  from refresh_ok [OF assms] obtain s u where *: "s \<in> set (sessions st)"
    "s_refresh_token_hash s = sha256_hex P t" "s_revoked_at s = None" "c_now k < s_expires_at s"
    "ar_session_id r = s_id s"
    and st': "st' = st\<lparr>sessions := sql_update (\<lambda>x. s_id x = s_id s)
        (rotate_session (c_now k) cfg (sha256_hex P (ar_refresh_token r)) ctx) (sessions st)\<rparr>"
    by blast
  note mem = rotated_mem [OF inv_no_clash(3) [OF assms(1)] *(1)]
  let ?s = "rotate_session (c_now k) cfg (sha256_hex P (ar_refresh_token r)) ctx s"
  have s': "?s \<in> set (sessions st')" "s_id ?s = s_id s" "s_user_id ?s = s_user_id s"
     "s_refresh_token_hash ?s = sha256_hex P (ar_refresh_token r)"
     "s_previous_token_hash ?s = Some (sha256_hex P t)" "s_revoked_at ?s = None"
    using * by (simp_all add: st' mem rotate_session_def)
  have "\<forall>x. s_id x \<noteq> s_id s \<longrightarrow> (x \<in> set (sessions st') \<longleftrightarrow> x \<in> set (sessions st))"
    using s'(2) by (auto simp: st' mem)
  moreover have "users st' = users st" "length (sessions st') = length (sessions st)"
    by (simp_all add: st')
  ultimately show ?thesis using * s' by (intro bexI [OF _ *(1)]) (auto intro!: bexI [OF _ s'(1)])
qed


text \<open>
  The limit of replay detection: only the token rotated last is remembered.  A token
  that was rotated away two refreshes ago is answered like an unknown one - the state does
  not change and no session is revoked.
\<close>

theorem older_token_goes_unnoticed:
  assumes "identity_inv st"
    and "refresh_session P cfg k t ctx st = (Inr r, st1)"
    and "refresh_session P cfg k1 (ar_refresh_token r) ctx st1 = (Inr r', st2)"
    and "sha256_hex P (ar_refresh_token r) \<noteq> sha256_hex P t" "sha256_hex P (ar_refresh_token r') \<noteq> sha256_hex P t"
    and "\<forall>s\<in>set (sessions st). s_previous_token_hash s \<noteq> Some (sha256_hex P t)"
  shows "refresh_session P cfg k2 t ctx2 st2 = (Inl (Unauthorized ''Invalid refresh token''), st2)"
proof -
  have inv1: "identity_inv st1" using inv_refresh [OF assms(1), of P cfg k t ctx] assms(2) by simp
  have inv2: "identity_inv st2" using inv_refresh [OF inv1, of P cfg k1 "ar_refresh_token r" ctx] assms(3) by simp
  from refresh_rotates [OF assms(1,2)] obtain s s1 where s: "s \<in> set (sessions st)"
      "s_refresh_token_hash s = sha256_hex P t"
    and s1: "s1 \<in> set (sessions st1)" "s_id s1 = s_id s"
      "s_refresh_token_hash s1 = sha256_hex P (ar_refresh_token r)"
    and o1: "\<forall>x. s_id x \<noteq> s_id s \<longrightarrow> (x \<in> set (sessions st1) \<longleftrightarrow> x \<in> set (sessions st))"
    by blast
  from refresh_rotates [OF inv1 assms(3)] obtain q s2 where q: "q \<in> set (sessions st1)"
      "s_refresh_token_hash q = sha256_hex P (ar_refresh_token r)"
    and s2: "s2 \<in> set (sessions st2)" "s_id s2 = s_id q"
      "s_refresh_token_hash s2 = sha256_hex P (ar_refresh_token r')"
      "s_previous_token_hash s2 = Some (sha256_hex P (ar_refresh_token r))"
    and o2: "\<forall>x. s_id x \<noteq> s_id q \<longrightarrow> (x \<in> set (sessions st2) \<longleftrightarrow> x \<in> set (sessions st1))"
    by blast
  have "q = s1" using sessions.uk_unique [OF inv_no_clash(3) [OF inv1] q(1) s1(1)] q(2) s1(3) by simp
  have only: "x = s2 \<or> (x \<in> set (sessions st) \<and> s_id x \<noteq> s_id s)" if "x \<in> set (sessions st2)" for x
    using that o1 o2 sessions.pk_unique [OF inv_no_clash(3) [OF inv2] that s2(1)] s2(2) s1(2) \<open>q = s1\<close> by auto
  have "s_refresh_token_hash x \<noteq> sha256_hex P t" "s_previous_token_hash x \<noteq> Some (sha256_hex P t)"
    if "x \<in> set (sessions st2)" for x
    using only [OF that] s2(3,4) assms(4-6) sessions.uk_unique [OF inv_no_clash(3) [OF assms(1)] _ s(1)] s(2)
    by (metis option.inject)+
  then show ?thesis by (simp add: refresh_session_def find_None_all [THEN iffD2])
qed

section \<open>Revocation\<close>

text \<open>
  Signing out everywhere, resetting the password and deleting the account each leave
  every session of the user revoked; a reset also replaces the stored password and lifts
  the lockout, and a deletion leaves no account and no live user behind.
\<close>

theorem mass_revocation:
  assumes "identity_inv st"
  shows "(\<forall>s\<in>set (sessions (snd (sign_out_all k u ctx st))). s_user_id s = u \<longrightarrow> s_revoked_at s \<noteq> None) \<and>
    (delete_account P k u ctx st = (Inr msg, st1) \<longrightarrow>
       (\<forall>s\<in>set (sessions st1). s_user_id s = u \<longrightarrow> s_revoked_at s \<noteq> None) \<and>
       (\<forall>a\<in>set (accounts st1). a_user_id a \<noteq> u) \<and> live_user_by_id u st1 = None) \<and>
    (reset_password P cfg k t pw ctx st = (Inr msg', st2) \<longrightarrow>
       (\<exists>v\<in>set (verifications st). v_token_hash v = sha256_hex P t \<and> v_purpose v = ''password_reset'' \<and>
        (\<exists>x\<in>set (users st). u_email x = v_identifier v \<and> u_deleted_at x = None \<and>
          (\<forall>s\<in>set (sessions st2). s_user_id s = u_id x \<longrightarrow> s_revoked_at s \<noteq> None) \<and>
          (\<forall>a\<in>set (accounts st2). a_user_id a = u_id x \<and> a_provider_id a = ''credential'' \<longrightarrow>
             (\<exists>h. argon2_hash P pw (c_salt k) = Some h \<and> a_password a = Some h)) \<and>
          (\<forall>y\<in>set (users st2). u_id y = u_id x \<longrightarrow> u_failed_login_attempts y = 0 \<and> u_locked_until y = None))))"
proof (intro conjI impI)
  show "\<forall>s\<in>set (sessions (snd (sign_out_all k u ctx st))). s_user_id s = u \<longrightarrow> s_revoked_at s \<noteq> None"
    by (auto simp: sign_out_all_def Let_def intro: revoked_user)
next
  assume d: "delete_account P k u ctx st = (Inr msg, st1)"
  then show "\<forall>s\<in>set (sessions st1). s_user_id s = u \<longrightarrow> s_revoked_at s \<noteq> None"
      "\<forall>a\<in>set (accounts st1). a_user_id a \<noteq> u"
    by (auto simp: delete_account_def Let_def intro: revoked_user split: if_splits)
  let ?w = "\<lambda>x. u_id x = u \<and> u_deleted_at x = None"
  have us: "set (users st1) = (\<lambda>x. if ?w x then tombstone_user P (c_now k) x else x) ` set (users st)"
    using d by (auto simp: delete_account_def Let_def set_sql_update split: if_splits)
  have gone: "\<not> ?w (if ?w x then tombstone_user P (c_now k) x else x)" for x by simp
  show "live_user_by_id u st1 = None"
    unfolding live_user_by_id_def find_None_all us
  proof
    fix x assume "x \<in> (\<lambda>x. if ?w x then tombstone_user P (c_now k) x else x) ` set (users st)"
    then show "\<not> ?w x" by (rule imageE) (simp only: gone not_False_eq_True)
  qed
next
  assume r: "reset_password P cfg k t pw ctx st = (Inr msg', st2)"
  obtain v where v: "find (redeemable (c_now k) (sha256_hex P t) PasswordReset) (verifications st) = Some v"
    using r by (auto simp: reset_password_def consume_verification_token_def Let_def split: sum.splits option.splits)
  obtain x where x: "live_user_by_email (v_identifier v) st = Some x"
    using r v by (auto simp: reset_password_def consume_verification_token_def Let_def live_user_by_email_def
        split: sum.splits option.splits)
  obtain h where h: "argon2_hash P pw (c_salt k) = Some h" "hash_password P cfg (c_salt k) pw = Inr h"
    using r by (auto simp: reset_password_def hash_password_def split: sum.splits if_splits)
  have st2: "sessions st2 = sessions (revoke_sessions (c_now k) (\<lambda>s. s_user_id s = u_id x) st)"
      "accounts st2 = sql_update (\<lambda>a. a_user_id a = u_id x \<and> a_provider_id a = ''credential'')
         (set_password (c_now k) h) (accounts st)"
      "users st2 = sql_update (\<lambda>y. u_id y = u_id x) (\<lambda>x. reset_failures x\<lparr>u_updated_at := c_now k\<rparr>) (users st)"
    using r v x h by (auto simp: reset_password_def consume_verification_token_def Let_def
        live_user_by_email_def sessions_revoke split: sum.splits option.splits)
  have "\<forall>s\<in>set (sessions st2). s_user_id s = u_id x \<longrightarrow> s_revoked_at s \<noteq> None"
    by (auto simp: st2 intro: revoked_user)
  moreover have "\<forall>a\<in>set (accounts st2). a_user_id a = u_id x \<and> a_provider_id a = ''credential'' \<longrightarrow>
             (\<exists>h. argon2_hash P pw (c_salt k) = Some h \<and> a_password a = Some h)"
    by (auto simp: st2 set_sql_update set_password_def h)
  moreover have "\<forall>y\<in>set (users st2). u_id y = u_id x \<longrightarrow> u_failed_login_attempts y = 0 \<and> u_locked_until y = None"
    by (auto simp: st2 set_sql_update reset_failures_def)
  ultimately show "\<exists>v\<in>set (verifications st). v_token_hash v = sha256_hex P t \<and> v_purpose v = ''password_reset'' \<and>
        (\<exists>x\<in>set (users st). u_email x = v_identifier v \<and> u_deleted_at x = None \<and>
          (\<forall>s\<in>set (sessions st2). s_user_id s = u_id x \<longrightarrow> s_revoked_at s \<noteq> None) \<and>
          (\<forall>a\<in>set (accounts st2). a_user_id a = u_id x \<and> a_provider_id a = ''credential'' \<longrightarrow>
             (\<exists>h. argon2_hash P pw (c_salt k) = Some h \<and> a_password a = Some h)) \<and>
          (\<forall>y\<in>set (users st2). u_id y = u_id x \<longrightarrow> u_failed_login_attempts y = 0 \<and> u_locked_until y = None))"
    using find_Some_mem [OF v] live_user_by_email_Some [OF x]
    by (intro bexI [of _ v] conjI bexI [of _ x]) (auto simp: redeemable_def)
qed

text \<open>
  C8. Revocation is immediate and permanent: once a session row is revoked, no sequence of
  sign-ups, sign-ins, refreshes, profile changes, password changes, recoveries and
  deletions makes it authenticate again, and no refresh token brings it back.
\<close>

theorem revocation_is_permanent:
  fixes P :: ext and cfg :: app_config and as :: "auth_action list"
  assumes "identity_inv st" "s \<in> set (sessions st)" "s_revoked_at s \<noteq> None"
  defines "later \<equiv> fold (auth_step P cfg) as st"
  shows "(\<forall>usr. resolve_session now uid (s_id s) later \<noteq> Inr usr) \<and>
         (\<forall>r st'. refresh_session P cfg k t ctx later = (Inr r, st') \<longrightarrow> ar_session_id r \<noteq> s_id s)"
proof -
  have inv: "identity_inv later" unfolding later_def by (rule auth.inv_run [OF assms(1)])
  have "history st later" unfolding later_def by (rule auth.R_run [OF assms(1)])
  then have "evolves session_grows (sessions st) (sessions later)" by (simp add: history_def)
  from evolvesD [OF this assms(2)]
  obtain s' where s': "s' \<in> set (sessions later)" "s_id s' = s_id s" "s_revoked_at s' \<noteq> None"
    using assms(3) by (auto simp: session_grows_def)
  have dead: "s_revoked_at x \<noteq> None" if "x \<in> set (sessions later)" "s_id x = s_id s" for x
    using sessions.pk_unique [OF inv_no_clash(3) [OF inv] that(1) s'(1)] that(2) s'(2,3) by simp
  have "resolve_session now uid (s_id s) later \<noteq> Inr usr" for usr
    using resolve_session_iff [OF inv, of now uid "s_id s" usr] dead by auto
  moreover have "ar_session_id r \<noteq> s_id s" if "refresh_session P cfg k t ctx later = (Inr r, st')" for r st'
    using refresh_ok [OF inv that] dead by metis
  ultimately show ?thesis by blast
qed

section \<open>Recovery tokens\<close>

lemma consume_ok:
  assumes "consume_verification_token P now t p st = Inr (e, st')"
  obtains v where "v \<in> set (verifications st)" "redeemable now (sha256_hex P t) p v" "e = v_identifier v"
    "st' = st\<lparr>verifications := sql_update (redeemable now (sha256_hex P t) p)
       (\<lambda>v. v\<lparr>v_consumed_at := Some now\<rparr>) (verifications st)\<rparr>"
  using assms by (auto simp: consume_verification_token_def Let_def dest: find_Some_mem split: option.splits)

lemma consume_fails:
  "(\<And>v. v \<in> set (verifications st) \<Longrightarrow> \<not> redeemable now (sha256_hex P t) p v) \<Longrightarrow>
   \<not> is_ok (consume_verification_token P now t p st)"
  using find_None_all [of "redeemable now (sha256_hex P t) p" "verifications st"]
  by (simp add: consume_verification_token_def)


text \<open>
  A recovery token is bound to its purpose, its address and its lifetime: a freshly
  issued token is accepted exactly for the purpose it was issued for and strictly before
  it expires, then yields the address it was issued to; and issuing it supersedes every
  outstanding token of that address and purpose.
\<close>

theorem recovery_token_bound:
  assumes "identity_inv st" "issue_verification_token P now i d e p ttl st = Inr (token, st1)"
  shows "(is_ok (consume_verification_token P now' token p' st1) \<longleftrightarrow> p' = p \<and> now' < now + ttl) \<and>
    (\<forall>e' st2. consume_verification_token P now' token p' st1 = Inr (e', st2) \<longrightarrow> e' = e) \<and>
    (\<forall>v\<in>set (verifications st1). v_identifier v = e \<and> v_purpose v = purpose_str p \<and> v_consumed_at v = None
       \<longrightarrow> v_token_hash v = sha256_hex P token)"
proof -
  let ?vs = "sql_update (\<lambda>v. v_identifier v = e \<and> v_purpose v = purpose_str p \<and> v_consumed_at v = None)
                 (\<lambda>v. v\<lparr>v_consumed_at := Some now\<rparr>) (verifications st)"
  from assms(2) obtain r where ins: "sql_insert verification_clash r ?vs = Some (verifications st1)"
    and r: "v_identifier r = e" "v_purpose r = purpose_str p" "v_token_hash r = sha256_hex P token"
      "v_expires_at r = now + ttl" "v_consumed_at r = None"
    by (auto simp: issue_verification_token_def Let_def split: option.splits)
  have inv1: "identity_inv st1" by (rule inv_issue [OF assms])
  have rm: "r \<in> set (verifications st1)" using ins by (simp add: sql_insert_Some)
  have row: "x = r" if "x \<in> set (verifications st1)" "v_token_hash x = sha256_hex P token" for x
    using verifications.uk_unique [OF inv_no_clash(4) [OF inv1] that(1) rm] that(2) r(3) by simp
  have purpose: "purpose_str a = purpose_str b \<longleftrightarrow> a = b" for a b
    by (cases a; cases b) simp_all
  have red: "redeemable now' (sha256_hex P token) p' x \<longleftrightarrow> x = r \<and> p' = p \<and> now' < now + ttl"
    if "x \<in> set (verifications st1)" for x
    using row [OF that] r by (auto simp: redeemable_def purpose)
  have "is_ok (consume_verification_token P now' token p' st1) \<longleftrightarrow> p' = p \<and> now' < now + ttl"
  proof
    assume "is_ok (consume_verification_token P now' token p' st1)"
    with red show "p' = p \<and> now' < now + ttl" using consume_fails by blast
  next
    assume "p' = p \<and> now' < now + ttl"
    with red rm have "redeemable now' (sha256_hex P token) p' r" by simp
    with rm find_None_all [of "redeemable now' (sha256_hex P token) p'" "verifications st1"]
    show "is_ok (consume_verification_token P now' token p' st1)"
      by (auto simp: consume_verification_token_def Let_def split: option.split)
  qed
  moreover have "e' = e" if c: "consume_verification_token P now' token p' st1 = Inr (e', st2)" for e' st2
  proof -
    obtain v where "v \<in> set (verifications st1)" "redeemable now' (sha256_hex P token) p' v" "e' = v_identifier v"
      using consume_ok [OF c] by blast
    with red r(1) show ?thesis by blast
  qed
  moreover have old: "\<not> (v_identifier v = e \<and> v_purpose v = purpose_str p \<and> v_consumed_at v = None)"
    if "v \<in> set ?vs" for v
    using that by (rule sql_update_memE) auto
  have "v_token_hash v = sha256_hex P token" if "v \<in> set (verifications st1)"
    "v_identifier v = e \<and> v_purpose v = purpose_str p \<and> v_consumed_at v = None" for v
  proof -
    have "set (verifications st1) = insert r (set ?vs)" using ins by (simp add: sql_insert_Some)
    then have "v = r" using that old [of v] by blast
    then show ?thesis by (simp add: r(3))
  qed
  ultimately show ?thesis by blast
qed

section \<open>Changing the password\<close>

text \<open>
  Changing the password requires the current one, replaces exactly the credential of
  this user, and revokes every other session of the user while the session the caller is
  on - and every other user's session - stays as it was.
\<close>

theorem change_password_keeps_current_session:
  assumes "identity_inv st"
    and "change_password P cfg k u cur old new ctx st = (Inr msg, st1)"
  shows "(\<exists>h. credential_password u st = Some h \<and> argon2_verify P h old) \<and>
    (\<forall>s\<in>set (sessions st1). s_user_id s = u \<and> s_id s \<noteq> cur \<longrightarrow> s_revoked_at s \<noteq> None) \<and>
    (\<forall>s. s_user_id s \<noteq> u \<or> s_id s = cur \<longrightarrow> s \<in> set (sessions st) \<longleftrightarrow> s \<in> set (sessions st1)) \<and>
    (\<forall>a. a_user_id a \<noteq> u \<longrightarrow> a \<in> set (accounts st) \<longleftrightarrow> a \<in> set (accounts st1))"
proof -
  obtain acc h h' where acc: "credential_of u st = Some acc" "a_password acc = Some h"
    "verify_password P old h = Inr True" "hash_password P cfg (c_salt k) new = Inr h'"
    using assms(2) by (auto simp: change_password_def split: option.splits sum.splits bool.splits)
  have s1': "sessions st1 = sql_update (\<lambda>s. (s_user_id s = u \<and> s_id s \<noteq> cur) \<and> s_revoked_at s = None)
        (\<lambda>s. s\<lparr>s_revoked_at := Some (c_now k)\<rparr>) (sessions st)"
    and a1: "accounts st1 = sql_update (\<lambda>a. a_id a = a_id acc) (set_password (c_now k) h') (accounts st)"
    using assms(2) acc by (auto simp: change_password_def Let_def sessions_revoke)
  have acc_u: "acc \<in> set (accounts st)" "a_user_id acc = u"
    using acc(1) find_Some_mem unfolding credential_of_def by fastforce+
  have same: "a_id a = a_id acc \<Longrightarrow> a \<in> set (accounts st) \<Longrightarrow> a_user_id a = u" for a
    using accounts.pk_unique [OF inv_no_clash(2) [OF assms(1)] _ acc_u(1)] acc_u(2) by blast
  have "a \<in> set (accounts st1) \<longleftrightarrow> a \<in> set (accounts st)" if "a_user_id a \<noteq> u" for a
    unfolding a1 by (rule sql_update_unaffected [where Q = "\<lambda>a. a_user_id a = u"])
      (use same that in \<open>auto simp: set_password_def\<close>)
  then have keep: "\<forall>a. a_user_id a \<noteq> u \<longrightarrow> a \<in> set (accounts st) \<longleftrightarrow> a \<in> set (accounts st1)" by blast
  have "s \<in> set (sessions st1) \<longleftrightarrow> s \<in> set (sessions st)" if "s_user_id s \<noteq> u \<or> s_id s = cur" for s
    unfolding s1' by (rule sql_update_unaffected [where Q = "\<lambda>s. s_user_id s = u \<and> s_id s \<noteq> cur"])
      (use that in auto)
  then have "\<forall>s. s_user_id s \<noteq> u \<or> s_id s = cur \<longrightarrow> s \<in> set (sessions st) \<longleftrightarrow> s \<in> set (sessions st1)" by blast
  moreover have "s_revoked_at s \<noteq> None"
    if "s \<in> set (sessions st1)" "s_user_id s = u" "s_id s \<noteq> cur" for s
    using that(1) unfolding s1' by (rule sql_update_memE) (use that(2,3) in auto)
  moreover have "\<exists>h. credential_password u st = Some h \<and> argon2_verify P h old"
    using acc by (auto simp: credential_password_def verify_password_def split: if_splits)
  ultimately show ?thesis using keep by blast
qed

section \<open>Signing in\<close>

lemma create_session_ok:
  "create_session P cfg now i d u ctx st = Inr ((sid, rt), st') \<longleftrightarrow>
     sid = i \<and> rt = random_token d TOKEN_LEN \<and>
     (\<exists>ss. sql_insert session_clash (new_session_row P cfg now i rt u ctx) (sessions st) = Some ss \<and>
        st' = st\<lparr>sessions := ss\<rparr>)"
  by (auto simp: create_session_def Let_def split: option.split)

lemma new_session_simps [simp]:
  "s_id (new_session_row P cfg now i rt u ctx) = i"
  "s_user_id (new_session_row P cfg now i rt u ctx) = u"
  "s_refresh_token_hash (new_session_row P cfg now i rt u ctx) = sha256_hex P rt"
  "s_revoked_at (new_session_row P cfg now i rt u ctx) = None"
  "s_expires_at (new_session_row P cfg now i rt u ctx) = now + days (refresh_token_ttl_days cfg)"
  by (simp_all add: new_session_row_def)

lemma register_failed_effect:
  assumes "u \<in> set (users st)"
  shows "\<exists>st1. register_failed_login P cfg k (u_id u) ctx st = (Inr (), st1) \<and>
     users st1 = sql_update (\<lambda>x. u_id x = u_id u) (bump_failed (c_now k) cfg) (users st) \<and>
     accounts st1 = accounts st"
proof -
  let ?us = "sql_update (\<lambda>x. u_id x = u_id u) (bump_failed (c_now k) cfg) (users st)"
  have "bump_failed (c_now k) cfg u \<in> set ?us" "u_id (bump_failed (c_now k) cfg u) = u_id u"
    using assms by (auto simp: set_sql_update image_iff bump_failed_def)
  then obtain x where "find (\<lambda>x. u_id x = u_id u) ?us = Some x"
    using find_None_all [of "\<lambda>x. u_id x = u_id u" ?us] by (cases "find (\<lambda>x. u_id x = u_id u) ?us") auto
  then show ?thesis by (simp add: register_failed_login_def Let_def)
qed


text \<open>
  A session just obtained by signing in authenticates its user at once and until it
  expires, and its refresh token is the one the store expects; every other session is
  left alone.
\<close>

theorem sign_in_opens_session:
  assumes "identity_inv st" "sign_in_email P cfg k req ctx st = (Inr r, st')"
    and "c_now k \<le> t" "t < c_now k + days (refresh_token_ttl_days cfg)"
  shows "(\<exists>usr. resolve_session t (ur_id (ar_user r)) (ar_session_id r) st' = Inr usr \<and>
            user_response_of usr = ar_user r) \<and>
         (\<exists>s\<in>set (sessions st'). s_id s = ar_session_id r \<and>
            s_refresh_token_hash s = sha256_hex P (ar_refresh_token r)) \<and>
         set (sessions st) \<subseteq> set (sessions st')"
proof -
  let ?e = "normalize_email (si_email req)"
  obtain u st1 where u: "live_user_by_email ?e st = Some u" "\<not> u_banned u"
    and cs: "create_session P cfg (c_now k) (c_uuid k 0) (c_rand k 0) (u_id u) ctx
       (st\<lparr>users := sql_update (\<lambda>x. u_id x = u_id u) reset_failures (users st)\<rparr>)
         = Inr ((ar_session_id r, ar_refresh_token r), st1)"
    and st': "sessions st' = sessions st1" "users st' = users st1"
    and r: "ar_user r = user_response_of (user_of_row u)"
    using assms(2) by (auto simp: sign_in_email_def Let_def auth_response_of_def
        split: option.splits if_splits sum.splits bool.splits prod.splits)
  let ?st0 = "st\<lparr>users := sql_update (\<lambda>x. u_id x = u_id u) reset_failures (users st)\<rparr>"
  let ?s = "new_session_row P cfg (c_now k) (ar_session_id r) (ar_refresh_token r) (u_id u) ctx"
  obtain ss where ins: "sql_insert session_clash ?s (sessions ?st0) = Some ss" and st1: "st1 = ?st0\<lparr>sessions := ss\<rparr>"
    using cs by (auto simp: create_session_ok)
  have us: "users st1 = sql_update (\<lambda>x. u_id x = u_id u) reset_failures (users st)"
    by (simp add: st1)
  have inv': "identity_inv st'" using inv_sign_in [OF assms(1), of P cfg k req ctx] assms(2) by simp
  have um: "reset_failures u \<in> set (users st')" "u_id (reset_failures u) = u_id u"
     "user_of_row (reset_failures u) = user_of_row u"
    using live_user_by_email_Some [OF u(1)] by (auto simp: st' us set_sql_update image_iff reset_failures_def user.truncate_def)
  have sm: "?s \<in> set (sessions st')" "set (sessions st) \<subseteq> set (sessions st')"
    using ins by (auto simp: sql_insert_Some st' st1)
  have "resolve_session t (u_id u) (ar_session_id r) st' = Inr (user_of_row u)"
    unfolding resolve_session_iff [OF inv']
    using sm um assms(4) u(2) live_user_by_email_Some [OF u(1)]
    by (intro bexI [OF _ sm(1)] bexI [OF _ um(1)]) (auto simp: reset_failures_def)
  moreover have "ur_id (ar_user r) = u_id u" by (simp add: r user_response_of_def user.truncate_def)
  ultimately show ?thesis using sm(2) r bexI [OF _ sm(1)] by (auto intro!: bexI [OF _ sm(1)])
qed

section \<open>Lockout\<close>

text \<open>Failed attempts of one account, one after another, at the times of \<open>ks\<close>.\<close>

definition failing_attempts ::
  "ext \<Rightarrow> app_config \<Rightarrow> sign_in_request \<Rightarrow> request_context \<Rightarrow> call list \<Rightarrow> store \<Rightarrow> store" where
  "failing_attempts P cfg req ctx ks st = fold (\<lambda>k st. snd (sign_in_email P cfg k req ctx st)) ks st"

text \<open>What an attempt needs to be answered with a failed password check.\<close>

definition attackable :: "ext \<Rightarrow> sign_in_request \<Rightarrow> store \<Rightarrow> user_row \<Rightarrow> string \<Rightarrow> bool" where
  "attackable P req st u h \<longleftrightarrow> identity_inv st \<and> live_user_by_email (normalize_email (si_email req)) st = Some u \<and>
     \<not> u_banned u \<and> credential_password (u_id u) st = Some h \<and> argon2_parse P h \<and>
     \<not> argon2_verify P h (si_password req)"

lemma one_failure:
  assumes "attackable P req st u h" "\<not> is_locked (c_now k) u"
  shows "attackable P req (snd (sign_in_email P cfg k req ctx st)) (bump_failed (c_now k) cfg u) h"
proof -
  let ?e = "normalize_email (si_email req)"
  note a = assms(1) [unfolded attackable_def]
  have u: "u \<in> set (users st)" "u_email u = ?e" "u_deleted_at u = None"
    using a live_user_by_email_Some by blast+
  from register_failed_effect [OF u(1), of P cfg k ctx] obtain st1 where
    st1: "register_failed_login P cfg k (u_id u) ctx st = (Inr (), st1)"
    "users st1 = sql_update (\<lambda>x. u_id x = u_id u) (bump_failed (c_now k) cfg) (users st)"
    "accounts st1 = accounts st" by blast
  have out: "snd (sign_in_email P cfg k req ctx st) = st1"
    using a assms(2) st1(1) by (simp add: sign_in_email_def verify_password_def)
  have inv: "identity_inv st1" using inv_sign_in [of st P cfg k req ctx] a out by simp
  have "bump_failed (c_now k) cfg u \<in> set (users st1)"
    using u(1) by (auto simp: st1(2) set_sql_update)
  then have "live_user_by_email ?e st1 = Some (bump_failed (c_now k) cfg u)"
    using live_user_by_email_iff [OF inv] u by (simp add: bump_failed_def)
  with a inv st1(3) show ?thesis
    by (simp add: attackable_def out bump_failed_def credential_password_def credential_of_def)
qed


text \<open>
  The counter survives the lock: when a lock has expired, a single further wrong
  password locks the account again for the full duration, because only a successful
  sign-in or a reset clears the counter.
\<close>

theorem expired_lock_relocks_at_once:
  assumes "attackable P req st u h" "lockout_threshold cfg \<le> u_failed_login_attempts u"
    and "\<not> is_locked (c_now k) u"
  shows "\<exists>u'. live_user_by_email (normalize_email (si_email req)) (snd (sign_in_email P cfg k req ctx st)) = Some u' \<and>
           u_locked_until u' = Some (c_now k + minutes (as_i32 (lockout_minutes cfg)))"
  using one_failure [OF assms(1,3), of cfg ctx] assms(2)
  by (auto simp: attackable_def bump_failed_def)

section \<open>A concrete instance\<close>

definition sample_cfg :: app_config where
  "sample_cfg = for_testing toy_ext ''db''"

definition sample_ctx :: request_context where
  "sample_ctx = \<lparr>rc_ip_address = Some ''10.0.0.1'', rc_user_agent = None\<rparr>"

text \<open>A call whose random characters are all \<open>c\<close>.\<close>

definition sample_call :: "time \<Rightarrow> char \<Rightarrow> call" where
  "sample_call t c = \<lparr>c_now = t, c_uuid = (\<lambda>i. nat t * 10 + i + 10), c_rand = (\<lambda>i j. c), c_salt = ''salt'',
     c_nonce = (\<lambda>_. replicate 12 0), c_audit_ok = True\<rparr>"

definition sample_user :: user_row where
  "sample_user = new_user_row 0 1 ''Ann'' ''ann@example.com'' True None"

definition sample_account :: account_row where
  "sample_account = new_account_row 0 2 1 ''ann@example.com'' ''credential'' (Some ''secret$salt'')"

definition sample_session :: session_row where
  "sample_session = new_session_row toy_ext sample_cfg 0 3 ''tok'' 1 sample_ctx"

definition sample_store :: store where
  "sample_store = empty_store\<lparr>users := [sample_user], accounts := [sample_account], sessions := [sample_session]\<rparr>"

definition sample_token :: "char \<Rightarrow> string" where
  "sample_token c = replicate TOKEN_LEN c"

lemmas sample_defs = sample_store_def sample_session_def sample_user_def sample_account_def
  new_user_row_def new_account_row_def empty_store_def

lemma sample_inv: "identity_inv sample_store"
  by (simp add: identity_inv_def sample_defs no_clash_def)

lemma sample_cfg_simps [simp]:
  "refresh_token_ttl_days sample_cfg = 30" "lockout_threshold sample_cfg = 10" "lockout_minutes sample_cfg = 15"
  "argon2_ok toy_ext sample_cfg" "email_verify_ttl_hours sample_cfg = 24" "password_reset_ttl_minutes sample_cfg = 30"
  by (simp_all add: sample_cfg_def for_testing_def Let_def argon2_ok_def toy_ext_def)

lemma sample_call_simps [simp]:
  "c_now (sample_call t c) = t" "c_salt (sample_call t c) = ''salt''" "c_audit_ok (sample_call t c) = True"
  "c_uuid (sample_call t c) i = nat t * 10 + i + 10"
  "random_token (c_rand (sample_call t c) i) TOKEN_LEN = sample_token c"
  by (simp_all add: sample_call_def random_token_def map_replicate_const sample_token_def)

lemma sample_jwt: "\<exists>a. generate_access_token toy_ext cfg now u sid = Inr a"
  by (simp add: generate_access_token_def toy_ext_def toy_jwt_encode_def Let_def)

lemma sample_hash_neq: "c \<noteq> CHR ''t'' \<Longrightarrow> sha256_hex toy_ext (sample_token c) \<noteq> sha256_hex toy_ext ''tok''"
  by (rule toy_sha256_hex_neq) (simp_all add: sample_token_def TOKEN_LEN_def)

definition sample_rotated :: "time \<Rightarrow> char \<Rightarrow> session_row \<Rightarrow> session_row" where
  "sample_rotated t c s = rotate_session t sample_cfg (sha256_hex toy_ext (sample_token c)) sample_ctx s"

text \<open>Refreshing the only session of the sample user.\<close>

lemma sample_refresh:
  assumes "s_refresh_token_hash s = sha256_hex toy_ext tk" "s_revoked_at s = None" "t < s_expires_at s" "s_user_id s = 1"
  shows "\<exists>r. refresh_session toy_ext sample_cfg (sample_call t c) tk sample_ctx (sample_store\<lparr>sessions := [s]\<rparr>)
     = (Inr r, sample_store\<lparr>sessions := [sample_rotated t c s]\<rparr>) \<and> ar_refresh_token r = sample_token c \<and>
       ar_session_id r = s_id s"
proof -
  obtain a where "generate_access_token toy_ext sample_cfg t (user_of_row sample_user) (s_id s) = Inr a"
    using sample_jwt by blast
  then show ?thesis
    using assms by (simp add: refresh_session_def live_user_by_id_def sample_defs
        sample_rotated_def no_clash_def auth_response_of_def Let_def)
qed

lemma sample_refresh_1:
  "\<exists>r. refresh_session toy_ext sample_cfg (sample_call 5 (CHR ''a'')) ''tok'' sample_ctx sample_store
     = (Inr r, sample_store\<lparr>sessions := [sample_rotated 5 (CHR ''a'') sample_session]\<rparr>) \<and>
       ar_refresh_token r = sample_token (CHR ''a'') \<and> ar_session_id r = 3"
  using sample_refresh [of sample_session "''tok''" 5 "CHR ''a''"]
  by (simp add: sample_store_def sample_session_def days_def)

lemma sample_fresh:
  "\<forall>s\<in>set (sessions sample_store). s_previous_token_hash s \<noteq> Some (sha256_hex toy_ext ''tok'')"
  by (simp add: sample_defs new_session_row_def)

theorem resolve_session_iff_witness:
  "resolve_session 5 1 3 sample_store = Inr (user_of_row sample_user)"
  unfolding resolve_session_iff [OF sample_inv]
  by (simp add: sample_defs days_def)

theorem refresh_rotates_witness:
  "\<exists>r st'. refresh_session toy_ext sample_cfg (sample_call 5 (CHR ''a'')) ''tok'' sample_ctx sample_store = (Inr r, st') \<and>
     length (sessions st') = 1"
  using sample_refresh_1 refresh_rotates [OF sample_inv] by (fastforce simp: sample_defs)


theorem older_token_goes_unnoticed_witness:
  "\<exists>r r' st1 st2. refresh_session toy_ext sample_cfg (sample_call 5 (CHR ''a'')) ''tok'' sample_ctx sample_store = (Inr r, st1) \<and>
     refresh_session toy_ext sample_cfg (sample_call 6 (CHR ''b'')) (ar_refresh_token r) sample_ctx st1 = (Inr r', st2) \<and>
     refresh_session toy_ext sample_cfg (sample_call 7 (CHR ''c'')) ''tok'' sample_ctx st2
       = (Inl (Unauthorized ''Invalid refresh token''), st2)"
proof -
  let ?s1 = "sample_rotated 5 (CHR ''a'') sample_session"
  obtain r where r: "refresh_session toy_ext sample_cfg (sample_call 5 (CHR ''a'')) ''tok'' sample_ctx sample_store
     = (Inr r, sample_store\<lparr>sessions := [?s1]\<rparr>)" "ar_refresh_token r = sample_token (CHR ''a'')"
    using sample_refresh_1 by blast
  have s1: "s_refresh_token_hash ?s1 = sha256_hex toy_ext (ar_refresh_token r)" "s_revoked_at ?s1 = None"
    "6 < s_expires_at ?s1" "s_user_id ?s1 = 1"
    by (simp_all add: sample_rotated_def rotate_session_def sample_session_def r(2) days_def)
  from sample_refresh [OF this, of "CHR ''b''"] obtain r' where
    r': "refresh_session toy_ext sample_cfg (sample_call 6 (CHR ''b'')) (ar_refresh_token r) sample_ctx
       (sample_store\<lparr>sessions := [?s1]\<rparr>)
     = (Inr r', sample_store\<lparr>sessions := [sample_rotated 6 (CHR ''b'') ?s1]\<rparr>)" "ar_refresh_token r' = sample_token (CHR ''b'')"
    by blast
  from older_token_goes_unnoticed [OF sample_inv r(1) r'(1) _ _ sample_fresh] r r' sample_hash_neq [of "CHR ''a''"]
    sample_hash_neq [of "CHR ''b''"]
  show ?thesis by auto
qed

theorem mass_revocation_witness:
  "s_revoked_at (hd (sessions (snd (sign_out_all (sample_call 5 (CHR ''a'')) 1 sample_ctx sample_store)))) \<noteq> None"
proof -
  let ?ss = "sessions (snd (sign_out_all (sample_call 5 (CHR ''a'')) 1 sample_ctx sample_store))"
  have "hd ?ss \<in> set ?ss" "s_user_id (hd ?ss) = 1"
    by (simp_all add: sign_out_all_def sessions_revoke sample_defs Let_def)
  with mass_revocation [OF sample_inv, where k = "sample_call 5 (CHR ''a'')" and u = 1 and ctx = sample_ctx]
  show ?thesis by blast
qed

lemma sample_inv_revoked: "identity_inv (revoke_sessions 5 (\<lambda>_. True) sample_store)"
  by (rule inv_revoke [OF sample_inv])

theorem revocation_is_permanent_witness:
  "\<forall>usr. resolve_session 6 1 3 (fold (auth_step toy_ext sample_cfg)
      [ARefresh (sample_call 6 (CHR ''b'')) ''tok'' sample_ctx, ASignOutAll (sample_call 7 (CHR ''c'')) 1 sample_ctx]
      (revoke_sessions 5 (\<lambda>_. True) sample_store)) \<noteq> Inr usr"
proof -
  let ?s = "sample_session\<lparr>s_revoked_at := Some 5\<rparr>"
  have m: "?s \<in> set (sessions (revoke_sessions 5 (\<lambda>_. True) sample_store))" "s_revoked_at ?s \<noteq> None"
    and i: "s_id ?s = 3"
    by (simp_all add: sessions_revoke sample_defs)
  from revocation_is_permanent [OF sample_inv_revoked m] have "\<forall>usr. resolve_session 6 1 (s_id ?s) (fold (auth_step toy_ext sample_cfg)
      [ARefresh (sample_call 6 (CHR ''b'')) ''tok'' sample_ctx, ASignOutAll (sample_call 7 (CHR ''c'')) 1 sample_ctx]
      (revoke_sessions 5 (\<lambda>_. True) sample_store)) \<noteq> Inr usr" by blast
  then show ?thesis unfolding i .
qed

text \<open>A verification token for the sample user, and its store.\<close>

definition sample_issued :: store where
  "sample_issued = sample_store\<lparr>verifications := [\<lparr>v_id = 9, v_identifier = ''ann@example.com'',
     v_purpose = ''password_reset'', v_token_hash = sha256_hex toy_ext (sample_token (CHR ''a'')),
     v_expires_at = 5 + minutes 30, v_consumed_at = None\<rparr>]\<rparr>"

lemma sample_issue:
  "issue_verification_token toy_ext 5 9 (\<lambda>_. CHR ''a'') ''ann@example.com'' PasswordReset (minutes 30) sample_store
     = Inr (sample_token (CHR ''a''), sample_issued)"
  by (simp add: issue_verification_token_def random_token_def map_replicate_const sample_token_def sample_issued_def
      sample_defs sql_insert_def Let_def)

lemma sample_issued_inv: "identity_inv sample_issued"
  using inv_issue [OF sample_inv sample_issue] .

theorem recovery_token_bound_witness:
  "\<not> is_ok (consume_verification_token toy_ext 6 (sample_token (CHR ''a'')) EmailVerify sample_issued) \<and>
   is_ok (consume_verification_token toy_ext 6 (sample_token (CHR ''a'')) PasswordReset sample_issued)"
  using recovery_token_bound [OF sample_inv sample_issue, of 6] by (simp add: minutes_def)


lemma sample_credential:
  "credential_of 1 sample_store = Some sample_account" "a_password sample_account = Some ''secret$salt''"
  "a_id sample_account = 2"
  by (simp_all add: credential_of_def sample_defs)

lemma sample_verify: "verify_password toy_ext pw ''secret$salt'' = Inr (take (Suc (length pw)) ''secret$salt'' = pw @ ''$'')"
  by (simp add: verify_password_def toy_ext_def)

theorem change_password_keeps_current_session_witness:
  "\<exists>msg st1. change_password toy_ext sample_cfg (sample_call 5 (CHR ''a'')) 1 3 ''secret'' ''other'' sample_ctx sample_store
      = (Inr msg, st1) \<and> sample_session \<in> set (sessions st1)"
proof -
  let ?r = "change_password toy_ext sample_cfg (sample_call 5 (CHR ''a'')) 1 3 ''secret'' ''other'' sample_ctx sample_store"
  have "hash_password toy_ext sample_cfg ''salt'' ''other'' = Inr ''other$salt''"
    by (simp add: hash_password_def) (simp add: toy_ext_def)
  then obtain msg st1 where c: "?r = (Inr msg, st1)"
    by (simp add: change_password_def sample_credential sample_verify Let_def del: One_nat_def)
  have "sample_session \<in> set (sessions sample_store)" "s_id sample_session = 3"
    by (simp_all add: sample_defs)
  with change_password_keeps_current_session [OF sample_inv c] c show ?thesis by blast
qed

definition sample_sign_in :: "string \<Rightarrow> sign_in_request" where
  "sample_sign_in pw = \<lparr>si_email = ''ann@example.com'', si_password = pw\<rparr>"

lemma sample_password [simp]: "si_password (sample_sign_in pw) = pw"
  by (simp add: sample_sign_in_def)

lemma sample_normalize: "normalize_email (si_email (sample_sign_in pw)) = ''ann@example.com''"
  by (simp add: normalize_email_def sample_sign_in_def str_trim_graphic is_graphic_def to_ascii_lowercase_def
      ascii_lower_def)

lemma sample_attackable: "attackable toy_ext (sample_sign_in ''wrong'') sample_store sample_user ''secret$salt''"
  unfolding attackable_def sample_normalize
proof (intro conjI sample_inv)
  show "live_user_by_email ''ann@example.com'' sample_store = Some sample_user" "\<not> u_banned sample_user"
    "credential_password (u_id sample_user) sample_store = Some ''secret$salt''"
    by (simp_all add: live_user_by_email_def sample_defs credential_password_def credential_of_def)
qed (simp_all add: toy_ext_def sample_sign_in_def)


theorem sign_in_opens_session_witness:
  "\<exists>r st'. sign_in_email toy_ext sample_cfg (sample_call 5 (CHR ''a'')) (sample_sign_in ''secret'') sample_ctx sample_store
      = (Inr r, st') \<and> length (sessions st') = 2 \<and>
      (\<exists>usr. resolve_session 6 (ur_id (ar_user r)) (ar_session_id r) st' = Inr usr)"
proof -
  obtain a where a: "generate_access_token toy_ext sample_cfg 5 (user_of_row sample_user) 60 = Inr a"
    using sample_jwt by blast
  have facts: "live_user_by_email ''ann@example.com'' sample_store = Some sample_user"
    "\<not> u_banned sample_user" "\<not> is_locked 5 sample_user" "u_id sample_user = 1"
    "credential_password 1 sample_store = Some ''secret$salt''" "sessions sample_store = [sample_session]"
    by (simp_all add: live_user_by_email_def sample_defs is_locked_def credential_password_def credential_of_def)
  have "\<not> session_clash (new_session_row toy_ext sample_cfg 5 60 (sample_token (CHR ''a'')) 1 sample_ctx) sample_session"
    using sample_hash_neq [of "CHR ''a''"] by (simp add: session_clash_def sample_session_def)
  then obtain r st' where r:
    "sign_in_email toy_ext sample_cfg (sample_call 5 (CHR ''a'')) (sample_sign_in ''secret'') sample_ctx sample_store
      = (Inr r, st')" "length (sessions st') = 2"
    using a by (simp add: sign_in_email_def sample_normalize Let_def create_session_def facts sample_verify
        sql_insert_def auth_response_of_def del: One_nat_def)
  with sign_in_opens_session [OF sample_inv r(1), of 6] show ?thesis by (auto simp: days_def)
qed


theorem expired_lock_relocks_at_once_witness:
  "\<exists>u'. live_user_by_email ''ann@example.com'' (snd (sign_in_email toy_ext (sample_cfg\<lparr>lockout_threshold := 0\<rparr>)
      (sample_call 5 (CHR ''a'')) (sample_sign_in ''wrong'') sample_ctx sample_store)) = Some u' \<and> u_locked_until u' \<noteq> None"
  using expired_lock_relocks_at_once [OF sample_attackable, of "sample_cfg\<lparr>lockout_threshold := 0\<rparr>"
      "sample_call 5 (CHR ''a'')" sample_ctx]
  by (auto simp: sample_normalize sample_user_def new_user_row_def is_locked_def)

end
