(* ===== verification/Pagination.thy ===== *)
theory Pagination
  imports Crypto
begin

text \<open>
  Page-number and keyset pagination (\<open>src/models/pagination.rs\<close>): query parameters and
  metadata are 64-bit words, so the wrap-around of \<open>offset\<close> in a release build is part of
  the model; a cursor is the base64url text of the last row's timestamp and id.
\<close>

section \<open>Pages\<close>

record page_params =
  pp_page :: "64 word option"
  pp_page_size :: "64 word option"

definition pp_get_page :: "page_params \<Rightarrow> 64 word" where
  "pp_get_page p = max (unwrap_or (pp_page p) 1) 1"

definition clamp_1_100 :: "64 word \<Rightarrow> 64 word" where
  "clamp_1_100 n = (if n < 1 then 1 else if 100 < n then 100 else n)"

definition pp_get_page_size :: "page_params \<Rightarrow> 64 word" where
  "pp_get_page_size p = clamp_1_100 (unwrap_or (pp_page_size p) 20)"

definition pp_offset :: "page_params \<Rightarrow> 64 word" where
  "pp_offset p = (pp_get_page p - 1) * pp_get_page_size p"

definition pp_limit :: "page_params \<Rightarrow> 64 word" where
  "pp_limit p = pp_get_page_size p"

record page_meta =
  pm_page :: "64 word"
  pm_page_size :: "64 word"
  pm_total_pages :: "64 word"
  pm_total_count :: "64 word"
  pm_has_next :: bool
  pm_has_previous :: bool

text \<open>\<open>u64::div_ceil\<close>; the caller divides only by a page size, which is at least 1.\<close>

definition div_ceil :: "64 word \<Rightarrow> 64 word \<Rightarrow> 64 word" where
  "div_ceil a b = (if a mod b > 0 then a div b + 1 else a div b)"

definition page_meta_new :: "64 word \<Rightarrow> 64 word \<Rightarrow> 64 word \<Rightarrow> page_meta" where
  "page_meta_new page page_size total_count =
     (let total_pages = if total_count = 0 then 0 else div_ceil total_count page_size in
      \<lparr>pm_page = page, pm_page_size = page_size, pm_total_pages = total_pages,
       pm_total_count = total_count, pm_has_next = page < total_pages,
       pm_has_previous = page > 1 \<and> total_pages > 0\<rparr>)"

section \<open>Cursors\<close>

record cursor_params =
  cp_limit :: "64 word option"
  cp_cursor :: "string option"

definition cp_get_limit :: "cursor_params \<Rightarrow> 64 word" where
  "cp_get_limit p = clamp_1_100 (unwrap_or (cp_limit p) 20)"

record cursor =
  cu_created_at :: time
  cu_id :: uuid

record cursor_meta =
  cm_limit :: "64 word"
  cm_has_next :: bool
  cm_next_cursor :: "string option"
  cm_previous_cursor :: "string option"

definition cursor_encode :: "ext \<Rightarrow> cursor \<Rightarrow> string" where
  "cursor_encode P c =
     b64url_encode P (bytes_of (int_str (cu_created_at c) @ ''|'' @ uuid_str P (cu_id c)))"

text \<open>\<open>DateTime::from_timestamp_micros\<close>: \<open>None\<close> beyond the range of chrono's dates.\<close>

definition from_timestamp_micros :: "ext \<Rightarrow> int \<Rightarrow> time option" where
  "from_timestamp_micros P m = (if chrono_min P \<le> m \<and> m \<le> chrono_max P then Some m else None)"

definition cursor_decode :: "ext \<Rightarrow> string \<Rightarrow> cursor option" where
  "cursor_decode P raw =
     (case b64url_decode P raw of None \<Rightarrow> None | Some decoded \<Rightarrow>
      case string_from_utf8 decoded of None \<Rightarrow> None | Some text \<Rightarrow>
      case split_once (CHR ''|'') text of None \<Rightarrow> None | Some (micros, i) \<Rightarrow>
      case parse_sint 64 micros of None \<Rightarrow> None | Some m \<Rightarrow>
      case from_timestamp_micros P m of None \<Rightarrow> None | Some t \<Rightarrow>
      case uuid_parse P i of None \<Rightarrow> None | Some u \<Rightarrow>
        Some \<lparr>cu_created_at = t, cu_id = u\<rparr>)"

definition cursor_meta_from_page :: "ext \<Rightarrow> 64 word \<Rightarrow> bool \<Rightarrow> cursor option \<Rightarrow> cursor_meta" where
  "cursor_meta_from_page P lim has_next last_row =
     \<lparr>cm_limit = lim, cm_has_next = has_next,
      cm_next_cursor = (if has_next then map_option (cursor_encode P) last_row else None),
      cm_previous_cursor = None\<rparr>"

section \<open>Facts\<close>

lemma unat_clamp: "1 \<le> unat (clamp_1_100 n) \<and> unat (clamp_1_100 n) \<le> 100"
  by (auto simp: clamp_1_100_def word_less_nat_alt simp del: word_less_1)

lemma pp_page_ge_1: "1 \<le> unat (pp_get_page p)"
proof -
  have "1 \<le> pp_get_page p" unfolding pp_get_page_def by (rule max.cobounded2)
  then show ?thesis by (simp add: word_le_nat_alt)
qed

lemma unat_div_ceil:
  assumes "b \<noteq> 0"
  shows "unat (div_ceil a b) = (unat a + unat b - 1) div unat b"
proof -
  have b: "0 < unat b" using assms by (simp add: unat_gt_0)
  let ?a = "unat a" and ?b = "unat b"
  show ?thesis
  proof (cases "?a mod ?b = 0")
    case True
    then obtain q where q: "?a = ?b * q" by blast
    have "a mod b = 0" using True by (simp add: word_arith_nat_mod)
    moreover have "(?a + ?b - 1) div ?b = q"
      unfolding q using b by (simp add: div_nat_eqI)
    ultimately show ?thesis using q b by (simp add: div_ceil_def unat_div)
  next
    case False
    have nz: "a mod b > 0" using False
      by (metis unat_mod word_gt_0 unat_0)
    have lt: "?a div ?b < ?a \<or> ?a div ?b = ?a" using div_le_dividend le_neq_implies_less by blast
    have "?b \<noteq> 1" using False by auto
    moreover have "0 < ?a" using False by (metis gr0I mod_0)
    ultimately have "?a div ?b < ?a" using b by (intro div_less_dividend) auto
    moreover have "?a < 2 ^ LENGTH(64)" by (rule unsigned_less)
    ultimately have "unat (a div b) + 1 < 2 ^ 64" by (simp add: unat_div)
    then have "unat (a div b + 1) = ?a div ?b + 1"
      by (simp add: unat_div unat_word_ariths(1))
    moreover have "(?a + ?b - 1) div ?b = ?a div ?b + 1"
    proof -
      have "?a + ?b - 1 = ?b * (?a div ?b + 1) + (?a mod ?b - 1)"
        using False mult_div_mod_eq [of ?b ?a] by simp
      moreover have "?a mod ?b - 1 < ?b" using b by (metis less_imp_diff_less mod_less_divisor)
      ultimately show ?thesis using b by (metis div_mult_self4 div_less add.right_neutral add.commute not_gr0)
    qed
    ultimately show ?thesis using nz by (simp add: div_ceil_def)
  qed
qed

text \<open>The slices of size \<open>n\<close> cover a list once, in order.\<close>

lemma concat_pages:
  "0 < n \<Longrightarrow> concat (map (\<lambda>k. take n (drop (k * n) xs)) [0..<m]) = take (m * n) xs"
proof (induction m)
  case (Suc m)
  have "take (Suc m * n) xs = take (m * n) xs @ take n (drop (m * n) xs)"
    by (simp add: take_add [symmetric] add.commute)
  with Suc show ?case by simp
qed simp

text \<open>The rows of page \<open>p\<close>: \<open>LIMIT page_size OFFSET offset\<close> of the ordered result.\<close>

definition page_rows :: "page_params \<Rightarrow> 'a list \<Rightarrow> 'a list" where
  "page_rows p rows = take (unat (pp_limit p)) (drop (unat (pp_offset p)) rows)"

lemma unat_offset:
  assumes "unat (pp_get_page p - 1) * unat (pp_get_page_size p) < 2 ^ 64"
  shows "unat (pp_offset p) = (unat (pp_get_page p) - 1) * unat (pp_get_page_size p)"
proof -
  have "unat (pp_get_page p - 1) = unat (pp_get_page p) - 1"
    using pp_page_ge_1 [of p] by (simp add: unat_sub word_le_nat_alt)
  with assms show ?thesis by (simp add: pp_offset_def unat_word_ariths(2))
qed

section \<open>One page of a table\<close>

text \<open>
  What every listing does: \<open>ORDER BY \<dots> DESC LIMIT $2 OFFSET $3\<close> with both numbers cast to
  \<open>i64\<close>, and \<open>COUNT(*)\<close> of the same rows.  PostgreSQL refuses a negative offset.
\<close>

definition sql_page ::
  "('r \<Rightarrow> bool) \<Rightarrow> ('r \<Rightarrow> 'k::linorder) \<Rightarrow> page_params \<Rightarrow> 'r list \<Rightarrow> ('r list \<times> 64 word) result" where
  "sql_page w key params rs =
     (let lim = as_i64 (pp_limit params); ofs = as_i64 (pp_offset params) in
      if ofs < 0 then Inl (DatabaseError (Database OtherDbError))
      else Inr (sql_page_desc key (nat lim) (nat ofs) (filter w rs),
                word_of_nat (sql_count w rs)))"

lemma as_i64_of_int: "- (2 ^ 63) \<le> i \<Longrightarrow> i < 2 ^ 63 \<Longrightarrow> as_i64 (word_of_int i) = i"
  by (simp add: as_i64_def sint_sbintrunc' signed_take_bit_int_eq_self)

lemma as_i64_small:
  assumes "unat w < 2 ^ 63"
  shows "as_i64 w = int (unat w)"
proof -
  have "int (unat w) < 2 ^ 63" using assms by (metis of_nat_less_iff of_nat_numeral of_nat_power)
  then have "as_i64 (word_of_int (int (unat w))) = int (unat w)" by (intro as_i64_of_int) linarith+
  then show ?thesis by simp
qed

lemma as_i64_limit: "as_i64 (pp_limit p) = int (unat (pp_get_page_size p))"
proof -
  have "unat (pp_get_page_size p) \<le> 100" using unat_clamp by (simp add: pp_get_page_size_def)
  then show ?thesis unfolding pp_limit_def by (intro as_i64_small) simp
qed

lemma sql_page_rows:
  assumes "sql_page w key p rs = Inr (page, cnt)"
  shows "set page \<subseteq> {r \<in> set rs. w r}" "length page \<le> 100" "cnt = word_of_nat (sql_count w rs)"
proof -
  have "unat (pp_get_page_size p) \<le> 100" using unat_clamp by (simp add: pp_get_page_size_def)
  with assms set_sql_page_desc [of key _ _ "filter w rs"] as_i64_limit [of p]
  show "set page \<subseteq> {r \<in> set rs. w r}" "length page \<le> 100" "cnt = word_of_nat (sql_count w rs)"
    by (fastforce simp: sql_page_def sql_page_desc_def Let_def split: if_splits)+
qed

section \<open>Walking the pages\<close>

text \<open>Page \<open>k\<close> at the requested size, the size it is clamped to, and the number of pages announced.\<close>

definition nth_page :: "64 word option \<Rightarrow> nat \<Rightarrow> page_params" where
  "nth_page sz k = \<lparr>pp_page = Some (word_of_nat k), pp_page_size = sz\<rparr>"

definition eff_size :: "64 word option \<Rightarrow> nat" where
  "eff_size sz = unat (clamp_1_100 (unwrap_or sz 20))"

definition announced :: "64 word option \<Rightarrow> nat \<Rightarrow> nat" where
  "announced sz n =
     unat (pm_total_pages (page_meta_new 1 (clamp_1_100 (unwrap_or sz 20)) (word_of_nat n)))"

lemma eff_size: "1 \<le> eff_size sz" "eff_size sz \<le> 100"
  using unat_clamp by (auto simp: eff_size_def)

lemma unat_small: "k < 2 ^ 63 \<Longrightarrow> unat (word_of_nat k :: 64 word) = k"
  by (simp add: unat_of_nat take_bit_nat_eq_self)

lemma size_nth_page: "unat (pp_get_page_size (nth_page sz k)) = eff_size sz"
  by (simp add: nth_page_def pp_get_page_size_def eff_size_def)

lemma announced_eq:
  assumes n: "n < 2 ^ 63"
  shows "announced sz n = (n + eff_size sz - 1) div eff_size sz"
proof (cases "n = 0")
  case True
  then have "(n + eff_size sz - 1) div eff_size sz = 0"
    using eff_size [of sz] by (simp add: div_eq_0_iff)
  with True show ?thesis by (simp add: announced_def page_meta_new_def)
next
  case False
  let ?cl = "clamp_1_100 (unwrap_or sz 20)" and ?w = "word_of_nat n :: 64 word"
  have sz: "?cl \<noteq> 0" using unat_clamp [of "unwrap_or sz 20"] by auto
  have "?w \<noteq> 0" using False unat_small [OF n] by (metis unat_0)
  then show ?thesis
    using unat_div_ceil [OF sz, of ?w] unat_small [OF n]
    by (simp add: announced_def page_meta_new_def Let_def eff_size_def)
qed

lemma announced_bounds:
  assumes n: "n < 2 ^ 63"
  shows "announced sz n \<le> n" "n \<le> announced sz n * eff_size sz"
    "(announced sz n - 1) * eff_size sz \<le> n"
proof -
  let ?s = "eff_size sz"
  note t = announced_eq [OF n, of sz] and s = eff_size [of sz]
  have "n + ?s - 1 < Suc n * ?s" using s by (cases ?s) auto
  then show "announced sz n \<le> n"
    unfolding t using less_mult_imp_div_less less_Suc_eq_le by blast
  show "n \<le> announced sz n * ?s"
    using s dividend_less_times_div [of ?s "n + ?s - 1"] unfolding t by (simp add: mult.commute)
  have "announced sz n * ?s \<le> n + ?s - 1" unfolding t by (rule div_times_less_eq_dividend)
  then show "(announced sz n - 1) * ?s \<le> n" using s by (simp add: diff_mult_distrib)
qed

lemma nth_page_offset:
  assumes n: "n < 2 ^ 63" and k: "k < announced sz n"
  shows "unat (pp_offset (nth_page sz (Suc k))) = k * eff_size sz" "k * eff_size sz \<le> n"
proof -
  let ?q = "nth_page sz (Suc k)"
  have "k * eff_size sz \<le> (announced sz n - 1) * eff_size sz"
    using k by (intro mult_le_mono1) simp
  then show le: "k * eff_size sz \<le> n" using announced_bounds(3) [OF n] by (rule order_trans)
  have "Suc k < 2 ^ 63" using k announced_bounds(1) [OF n, of sz] n by linarith
  then have w: "unat (word_of_nat (Suc k) :: 64 word) = Suc k" by (rule unat_small)
  then have "(1 :: 64 word) \<le> word_of_nat (Suc k)"
    by (simp only: word_le_nat_alt unat_1 le_add1 plus_1_eq_Suc [symmetric])
  then have p: "unat (pp_get_page ?q) = Suc k"
    using w by (simp only: nth_page_def pp_get_page_def page_params.simps unwrap_or.simps max.absorb1)
  have d: "unat (pp_get_page ?q - 1) = k"
    using p pp_page_ge_1 [of ?q] by (simp add: unat_sub word_le_nat_alt)
  have "unat (pp_get_page ?q - 1) * unat (pp_get_page_size ?q) < 2 ^ 64"
    unfolding d size_nth_page using le n by simp
  from unat_offset [OF this] show "unat (pp_offset ?q) = k * eff_size sz"
    by (simp add: p size_nth_page)
qed

lemma pages_concat:
  assumes n: "length rows < 2 ^ 63"
  shows "concat (map (\<lambda>k. page_rows (nth_page sz k) rows) [1..<Suc (announced sz (length rows))]) = rows"
proof -
  let ?s = "eff_size sz" and ?t = "announced sz (length rows)"
  have row: "page_rows (nth_page sz (Suc k)) rows = take ?s (drop (k * ?s) rows)" if "k < ?t" for k
    by (simp add: page_rows_def nth_page_offset(1) [OF n that] pp_limit_def size_nth_page)
  have "map (\<lambda>k. page_rows (nth_page sz k) rows) [1..<Suc ?t]
      = map (\<lambda>k. take ?s (drop (k * ?s) rows)) [0..<?t]"
    by (rule nth_equalityI) (auto simp: row simp del: upt_Suc)
  then show ?thesis
    using eff_size [of sz] announced_bounds(2) [OF n, of sz] by (simp only: concat_pages) simp
qed

lemma length_page_rows: "length (page_rows (nth_page sz k) rows) \<le> 100"
  using eff_size [of sz] by (simp add: page_rows_def pp_limit_def size_nth_page)

text \<open>On the pages that are announced, a listing is the page of the ordered rows.\<close>

lemma sql_page_nth:
  assumes "sql_count w rs < 2 ^ 63" "k < announced sz (sql_count w rs)"
  shows "sql_page w key (nth_page sz (Suc k)) rs
    = Inr (page_rows (nth_page sz (Suc k)) (rev (sort_key key (rev (filter w rs)))), word_of_nat (sql_count w rs))"
proof -
  let ?q = "nth_page sz (Suc k)"
  have "unat (pp_offset ?q) < 2 ^ 63" using nth_page_offset [OF assms] assms(1) by linarith
  then show ?thesis
    unfolding sql_page_def Let_def as_i64_limit sql_page_desc_def page_rows_def
    by (simp add: as_i64_small pp_limit_def)
qed

text \<open>Walking every announced page of a listing gives exactly its rows, newest first.\<close>

lemma listing_pages:
  assumes "sql_count w rs < 2 ^ 63"
  shows "concat (map (\<lambda>k. fst (projr (sql_page w key (nth_page sz k) rs)))
           [1..<Suc (announced sz (sql_count w rs))]) = rev (sort_key key (rev (filter w rs)))"
proof -
  let ?rows = "rev (sort_key key (rev (filter w rs)))" and ?t = "announced sz (sql_count w rs)"
  have len: "length ?rows = sql_count w rs" by (simp add: sql_count_def)
  have "map (\<lambda>k. fst (projr (sql_page w key (nth_page sz k) rs))) [1..<Suc ?t]
      = map (\<lambda>k. page_rows (nth_page sz k) ?rows) [1..<Suc ?t]"
    by (rule nth_equalityI) (auto simp: sql_page_nth [OF assms] simp del: upt_Suc)
  then show ?thesis using pages_concat [of ?rows sz] assms by (simp only: len)
qed

section \<open>Properties\<close>

text \<open>
  Page-number pagination loses nothing and repeats nothing: walking the pages
  \<open>1 \<dots> total_pages\<close> that \<open>PageMeta::new\<close> announces, with any requested page size (clamped
  to 1..100), concatenates to exactly the ordered result, each page holds at most 100
  rows, and \<open>has_next\<close> is set on exactly the pages that are not the last.
\<close>

theorem pages_cover_result:
  fixes rows :: "'a list" and size :: "64 word option"
  assumes n: "length rows < 2 ^ 63"
  defines "q \<equiv> \<lambda>k. \<lparr>pp_page = Some (word_of_nat k), pp_page_size = size\<rparr>"
    and "m \<equiv> \<lambda>k. page_meta_new (word_of_nat k) (clamp_1_100 (unwrap_or size 20)) (word_of_nat (length rows))"
  shows "concat (map (\<lambda>k. page_rows (q k) rows) [1..<Suc (unat (pm_total_pages (m 1)))]) = rows \<and>
         (\<forall>k. length (page_rows (q k) rows) \<le> 100) \<and>
         (\<forall>k\<in>{1..unat (pm_total_pages (m 1))}. pm_has_next (m k) \<longleftrightarrow> k < unat (pm_total_pages (m 1)))"
proof -
  have q: "q = nth_page size" by (simp add: q_def nth_page_def fun_eq_iff)
  have t: "unat (pm_total_pages (m 1)) = announced size (length rows)" by (simp add: m_def announced_def)
  have "pm_has_next (m k) \<longleftrightarrow> k < announced size (length rows)"
    if "k \<in> {1..announced size (length rows)}" for k
  proof -
    have "unat (word_of_nat k :: 64 word) = k"
      using that announced_bounds(1) [OF n, of size] n by (intro unat_small) auto
    then show ?thesis
      by (simp add: m_def page_meta_new_def Let_def word_less_nat_alt announced_def)
  qed
  with pages_concat [OF n] length_page_rows show ?thesis unfolding t q by blast
qed

theorem pages_cover_result_witness:
  "concat (map (\<lambda>k. page_rows \<lparr>pp_page = Some (word_of_nat k), pp_page_size = Some 2\<rparr> [5,6,7::nat])
     [1..<Suc (unat (pm_total_pages (page_meta_new 1 2 3)))]) = [5,6,7]"
  using pages_cover_result [of "[5,6,7::nat]" "Some 2"] by (simp add: clamp_1_100_def)

text \<open>
  A cursor round-trips: for every row whose timestamp chrono can represent, decoding
  the encoded cursor gives back the same timestamp and id, so two rows with different
  sort keys never share a cursor; text that is not the base64url of UTF-8 decodes to
  nothing instead of panicking.
\<close>

theorem cursor_round_trip:
  assumes "b64url_ok P" "uuid_ok P" "- (2 ^ 63) \<le> chrono_min P" "chrono_max P < 2 ^ 63"
  shows "(chrono_min P \<le> cu_created_at c \<and> cu_created_at c \<le> chrono_max P \<longrightarrow>
            cursor_decode P (cursor_encode P c) = Some c) \<and>
         (b64url_decode P raw = Some bs \<and> utf8_decode bs = None \<longrightarrow> cursor_decode P raw = None) \<and>
         (b64url_decode P raw = None \<longrightarrow> cursor_decode P raw = None)"
proof (intro conjI impI)
  assume r: "chrono_min P \<le> cu_created_at c \<and> cu_created_at c \<le> chrono_max P"
  let ?t = "int_str (cu_created_at c) @ ''|'' @ uuid_str P (cu_id c)"
  have ascii: "of_char x < (128::nat)" if "x \<in> set ?t" for x
    using that int_str_ascii [of x] uuid_str_ascii [OF assms(2), of x] by auto
  have "\<forall>b\<in>set (bytes_of ?t). b < 256" using bytes_of_bound by blast
  then have d: "b64url_decode P (cursor_encode P c) = Some (bytes_of ?t)"
    using assms(1) by (simp add: b64url_ok_def cursor_encode_def)
  have "\<forall>b\<in>set (bytes_of ?t). b < 128" using ascii unfolding bytes_of_def by force
  then have u: "string_from_utf8 (bytes_of ?t) = Some ?t"
    using utf8_decode_ascii by (simp add: string_from_utf8_def del: append.simps)
  have s: "split_once (CHR ''|'') ?t = Some (int_str (cu_created_at c), uuid_str P (cu_id c))"
    using split_once_append [OF int_str_no(1)] by simp
  have "parse_sint 64 (int_str (cu_created_at c)) = Some (cu_created_at c)"
    using r assms(3,4) by (intro parse_sint_int_str) auto
  with r assms(2) show "cursor_decode P (cursor_encode P c) = Some c"
    unfolding cursor_decode_def d option.case u s
    by (simp add: from_timestamp_micros_def uuid_ok_def)
qed (simp_all add: cursor_decode_def string_from_utf8_def)

theorem cursor_round_trip_witness:
  "cursor_decode toy_ext (cursor_encode toy_ext \<lparr>cu_created_at = 1700000000000000, cu_id = 42\<rparr>)
     = Some \<lparr>cu_created_at = 1700000000000000, cu_id = 42\<rparr>"
  using cursor_round_trip [OF toy_ext_laws(1) toy_uuid_ok,
      of "\<lparr>cu_created_at = 1700000000000000, cu_id = 42\<rparr>"]
  by (simp add: toy_ext_def)

end
