(* ===== verification/Jobs.thy ===== *)
theory Jobs
  imports Store
begin

text \<open>
  The background job queue (\<open>src/services/job_queue.rs\<close>, \<open>src/models/job.rs\<close>): jobs are
  enqueued, claimed one at a time in order of \<open>run_at\<close>, completed, or failed and retried
  with exponential backoff.  A claim is one transaction under a row lock, so it is one step.
\<close>

section \<open>Statuses\<close>

datatype job_status = Queued | Running | Completed | Failed | Cancelled

fun status_str :: "job_status \<Rightarrow> string" where
  "status_str Queued = ''queued''"
| "status_str Running = ''running''"
| "status_str Completed = ''completed''"
| "status_str Failed = ''failed''"
| "status_str Cancelled = ''cancelled''"

lemma status_str_inj: "status_str a = status_str b \<longleftrightarrow> a = b"
  by (cases a; cases b) simp_all

section \<open>Operations\<close>

definition new_job_row ::
  "time \<Rightarrow> uuid \<Rightarrow> string \<Rightarrow> json \<Rightarrow> string option \<Rightarrow> time option \<Rightarrow> int option \<Rightarrow> job_row" where
  "new_job_row now i job_type payload queue run_at max_attempts =
     \<lparr>j_id = i, j_queue = unwrap_or queue ''default'', j_job_type = job_type, j_payload = payload,
      j_status = ''queued'', j_attempts = 0, j_max_attempts = unwrap_or max_attempts 5,
      j_last_error = None, j_run_at = unwrap_or run_at now, j_locked_at = None, j_locked_by = None,
      j_created_at = now, j_updated_at = now\<rparr>"

text \<open>The payload is already a JSON value: converting it is the caller's \<open>Serialize\<close>.\<close>

definition enqueue ::
  "time \<Rightarrow> uuid \<Rightarrow> string \<Rightarrow> json \<Rightarrow> string option \<Rightarrow> time option \<Rightarrow> int option \<Rightarrow> store
     \<Rightarrow> uuid result \<times> store" where
  "enqueue now i job_type payload queue run_at max_attempts st =
     (case sql_insert job_clash (new_job_row now i job_type payload queue run_at max_attempts)
             (background_jobs st) of
        None \<Rightarrow> (Inl unique_violation, st)
      | Some js \<Rightarrow> (Inr i, st\<lparr>background_jobs := js\<rparr>))"

definition due :: "time \<Rightarrow> string \<Rightarrow> job_row \<Rightarrow> bool" where
  "due now queue j \<longleftrightarrow> j_queue j = queue \<and> j_status j = ''queued'' \<and> j_run_at j \<le> now"

text \<open>\<open>ORDER BY run_at ASC \<dots> LIMIT 1\<close>.\<close>

definition next_due :: "time \<Rightarrow> string \<Rightarrow> job_row list \<Rightarrow> job_row option" where
  "next_due now queue js =
     (case sort_key j_run_at (filter (due now queue) js) of [] \<Rightarrow> None | j # _ \<Rightarrow> Some j)"

definition start_job :: "time \<Rightarrow> string \<Rightarrow> job_row \<Rightarrow> job_row" where
  "start_job now worker j = j\<lparr>j_status := ''running'', j_attempts := j_attempts j + 1,
     j_locked_at := Some now, j_locked_by := Some worker, j_updated_at := now\<rparr>"

definition poll_next_job :: "time \<Rightarrow> string \<Rightarrow> string \<Rightarrow> store \<Rightarrow> job_row option \<times> store" where
  "poll_next_job now queue worker st =
     (case next_due now queue (background_jobs st) of
        None \<Rightarrow> (None, st)
      | Some j \<Rightarrow>
          (Some (start_job now worker j),
           st\<lparr>background_jobs := sql_update (\<lambda>x. j_id x = j_id j) (start_job now worker) (background_jobs st)\<rparr>))"

definition finish_job :: "time \<Rightarrow> string \<Rightarrow> job_row \<Rightarrow> job_row" where
  "finish_job now status j = j\<lparr>j_status := status, j_locked_at := None, j_locked_by := None, j_updated_at := now\<rparr>"

definition complete_job :: "time \<Rightarrow> uuid \<Rightarrow> store \<Rightarrow> store" where
  "complete_job now job_id st =
     st\<lparr>background_jobs := sql_update (\<lambda>j. j_id j = job_id) (finish_job now ''completed'') (background_jobs st)\<rparr>"

definition backoff_secs :: "int \<Rightarrow> int" where
  "backoff_secs attempts = 2 ^ nat (min (max attempts 0) 10) * 5"

definition fail_row :: "time \<Rightarrow> int \<Rightarrow> int \<Rightarrow> string \<Rightarrow> job_row \<Rightarrow> job_row" where
  "fail_row now attempts max_attempts message j =
     (if attempts \<ge> max_attempts
      then (finish_job now ''failed'' j)\<lparr>j_last_error := Some message\<rparr>
      else (finish_job now ''queued'' j)\<lparr>j_last_error := Some message, j_run_at := now + seconds (backoff_secs attempts)\<rparr>)"

definition fail_job :: "time \<Rightarrow> uuid \<Rightarrow> int \<Rightarrow> int \<Rightarrow> string \<Rightarrow> store \<Rightarrow> store" where
  "fail_job now job_id attempts max_attempts message st =
     st\<lparr>background_jobs := sql_update (\<lambda>j. j_id j = job_id) (fail_row now attempts max_attempts message)
          (background_jobs st)\<rparr>"

definition reapable :: "time \<Rightarrow> job_row \<Rightarrow> bool" where
  "reapable cutoff j \<longleftrightarrow> j_status j \<in> set [''completed'', ''cancelled'', ''failed''] \<and> j_updated_at j < cutoff"

definition reap_old_jobs :: "time \<Rightarrow> int \<Rightarrow> store \<Rightarrow> nat \<times> store" where
  "reap_old_jobs now retention_days st =
     (let w = reapable (now - days retention_days) in
      (sql_count w (background_jobs st), st\<lparr>background_jobs := sql_delete w (background_jobs st)\<rparr>))"

section \<open>Facts\<close>

lemma backoff_bounds: "5 \<le> backoff_secs a \<and> backoff_secs a \<le> 5120"
proof -
  have "nat (min (max a 0) 10) \<le> 10" by linarith
  then have "(2::int) ^ nat (min (max a 0) 10) \<le> 2 ^ 10" by (intro power_increasing) auto
  moreover have "(1::int) \<le> 2 ^ nat (min (max a 0) 10)" by simp
  ultimately show ?thesis unfolding backoff_secs_def by simp
qed

lemma sort_key_head:
  assumes "sort_key f xs = y # ys"
  shows "y \<in> set xs" "\<And>x. x \<in> set xs \<Longrightarrow> f y \<le> f x"
proof -
  have s: "set xs = set (y # ys)" using assms by (metis set_sort)
  then show "y \<in> set xs" by simp
  have "sorted (map f (y # ys))" using assms by (metis sorted_sort_key)
  with s show "\<And>x. x \<in> set xs \<Longrightarrow> f y \<le> f x" by auto
qed

lemma next_due_Some:
  assumes "next_due now queue js = Some j"
  shows "j \<in> set js" "due now queue j" "\<And>x. x \<in> set js \<Longrightarrow> due now queue x \<Longrightarrow> j_run_at j \<le> j_run_at x"
proof -
  obtain js' where s: "sort_key j_run_at (filter (due now queue) js) = j # js'"
    using assms by (auto simp: next_due_def split: list.splits)
  show "j \<in> set js" "due now queue j" using sort_key_head(1) [OF s] by auto
  show "\<And>x. x \<in> set js \<Longrightarrow> due now queue x \<Longrightarrow> j_run_at j \<le> j_run_at x"
    using sort_key_head(2) [OF s] by simp
qed

lemma next_due_None: "next_due now queue js = None \<longleftrightarrow> (\<forall>j\<in>set js. \<not> due now queue j)"
proof -
  have "sort_key j_run_at (filter (due now queue) js) = [] \<longleftrightarrow> filter (due now queue) js = []"
    by (metis set_empty set_sort)
  then show ?thesis by (auto simp: next_due_def filter_empty_conv split: list.splits)
qed

text \<open>What holds of every row of the queue between the worker's steps.\<close>

definition job_ok :: "job_row \<Rightarrow> bool" where
  "job_ok j \<longleftrightarrow> j_status j \<in> range status_str \<and>
     0 \<le> j_attempts j \<and> j_attempts j \<le> max 1 (j_max_attempts j) \<and>
     (j_status j = ''queued'' \<longrightarrow> j_attempts j = 0 \<or> j_attempts j < j_max_attempts j) \<and>
     (j_status j = ''running'' \<longrightarrow> 1 \<le> j_attempts j) \<and>
     (j_status j = ''running'' \<longleftrightarrow> j_locked_at j \<noteq> None) \<and>
     (j_status j = ''running'' \<longleftrightarrow> j_locked_by j \<noteq> None)"

lemma status_range [simp]:
  "''queued'' \<in> range status_str" "''running'' \<in> range status_str" "''completed'' \<in> range status_str"
  "''failed'' \<in> range status_str"
  using status_str.simps by (metis rangeI)+

lemma job_ok_new: "job_ok (new_job_row now i t p q r m)"
  by (simp add: job_ok_def new_job_row_def)

lemma job_ok_start: "job_ok j \<Longrightarrow> j_status j = ''queued'' \<Longrightarrow> job_ok (start_job now w j)"
  by (auto simp: job_ok_def start_job_def)

lemma job_ok_complete: "job_ok j \<Longrightarrow> job_ok (finish_job now ''completed'' j)"
  by (simp add: job_ok_def finish_job_def)

lemma job_ok_fail:
  "job_ok j \<Longrightarrow> a = j_attempts j \<or> a = m \<Longrightarrow> m = j_max_attempts j \<Longrightarrow> job_ok (fail_row now a m msg j)"
  by (auto simp: job_ok_def fail_row_def finish_job_def)

definition job_inv :: "store \<Rightarrow> bool" where
  "job_inv st \<longleftrightarrow> no_clash job_clash (background_jobs st) \<and> (\<forall>j\<in>set (background_jobs st). job_ok j)"

lemma job_ids [simp]:
  "j_id (start_job now w j) = j_id j" "j_id (finish_job now s j) = j_id j"
  "j_id (fail_row now a m msg j) = j_id j"
  by (simp_all add: start_job_def finish_job_def fail_row_def)

lemma no_clash_job_update:
  "(\<And>j. j_id (f j) = j_id j) \<Longrightarrow> no_clash job_clash js \<Longrightarrow> no_clash job_clash (sql_update w f js)"
  by (rule no_clash_update_frame) (simp_all add: job_clash_def)

lemma job_inv_enqueue: "job_inv st \<Longrightarrow> job_inv (snd (enqueue now i t p q r m st))"
  by (auto simp: job_inv_def enqueue_def job_ok_new sql_insert_Some
      intro: jobs.insert_keeps split: option.split)

lemma job_inv_poll: "job_inv st \<Longrightarrow> job_inv (snd (poll_next_job now q w st))"
proof (cases "next_due now q (background_jobs st)")
  case (Some j)
  assume inv: "job_inv st"
  have j: "j \<in> set (background_jobs st)" "j_status j = ''queued''"
    using next_due_Some [OF Some] by (auto simp: due_def)
  show ?thesis
    using inv job_ok_start [OF _ j(2)] j(1) jobs.set_update_pk [OF _ j(1)]
    by (auto simp: job_inv_def poll_next_job_def Some intro: no_clash_job_update)
qed (simp add: poll_next_job_def)

lemma job_inv_complete: "job_inv st \<Longrightarrow> job_inv (complete_job now i st)"
  by (auto simp: job_inv_def complete_job_def job_ok_complete set_sql_update intro: no_clash_job_update)

lemma job_inv_fail:
  assumes "job_inv st" "\<And>j. j \<in> set (background_jobs st) \<Longrightarrow> j_id j = i \<Longrightarrow> (a = j_attempts j \<or> a = m) \<and> m = j_max_attempts j"
  shows "job_inv (fail_job now i a m msg st)"
proof -
  have "job_ok (fail_row now a m msg j)" if "j \<in> set (background_jobs st)" "j_id j = i" for j
    using assms that by (intro job_ok_fail) (auto simp: job_inv_def)
  with assms(1) show ?thesis
    by (auto simp: job_inv_def fail_job_def set_sql_update intro: no_clash_job_update)
qed

lemma job_inv_reap: "job_inv st \<Longrightarrow> job_inv (snd (reap_old_jobs now n st))"
  by (simp add: job_inv_def reap_old_jobs_def Let_def no_clash_delete)

text \<open>How many jobs of a queue could be claimed now.\<close>

definition due_count :: "time \<Rightarrow> string \<Rightarrow> store \<Rightarrow> nat" where
  "due_count now queue st = sql_count (due now queue) (background_jobs st)"

lemma due_count_update:
  assumes "\<And>j. \<not> due now q (f j)"
  shows "due_count now q (st\<lparr>background_jobs := sql_update w f (background_jobs st)\<rparr>)
       = sql_count (\<lambda>j. due now q j \<and> \<not> w j) (background_jobs st)"
proof -
  have "sql_count (due now q) (sql_update w f js) = sql_count (\<lambda>j. due now q j \<and> \<not> w j) js" for js
    using assms by (induction js) (auto simp: sql_count_def)
  then show ?thesis by (simp add: due_count_def)
qed

lemma sql_count_strict:
  assumes "j \<in> set js" "p j" "\<not> q j" "\<And>x. q x \<Longrightarrow> p x"
  shows "sql_count q js < sql_count p js"
  using assms(1)
proof (induction js)
  case (Cons x xs)
  have "length (filter q xs) \<le> length (filter p xs)"
    using assms(4) by (induction xs) auto
  with Cons assms(2-4) show ?case by (auto simp: sql_count_def)
qed simp

lemma poll_decreases:
  assumes "poll_next_job now q w st = (Some j, st')"
  shows "due_count now q st' < due_count now q st"
proof -
  obtain i where i: "next_due now q (background_jobs st) = Some i"
    and st': "st' = st\<lparr>background_jobs := sql_update (\<lambda>x. j_id x = j_id i) (start_job now w) (background_jobs st)\<rparr>"
    using assms by (auto simp: poll_next_job_def split: option.splits)
  have "\<not> due now q (start_job now w x)" for x by (simp add: due_def start_job_def)
  from due_count_update [OF this] have "due_count now q st' = sql_count (\<lambda>x. due now q x \<and> j_id x \<noteq> j_id i) (background_jobs st)"
    unfolding st' .
  also have "\<dots> < due_count now q st"
    unfolding due_count_def using next_due_Some [OF i] by (intro sql_count_strict [of i]) auto
  finally show ?thesis .
qed

lemma not_due_after:
  "\<not> due now q (finish_job now ''completed'' j)" "\<not> due now q (fail_row now a m msg j)"
proof -
  have "0 < seconds (backoff_secs a)" using backoff_bounds [of a] by (simp add: seconds_def)
  then show "\<not> due now q (fail_row now a m msg j)" by (simp add: due_def fail_row_def finish_job_def)
qed (simp add: due_def finish_job_def)

lemma sql_count_mono: "(\<And>x. q x \<Longrightarrow> p x) \<Longrightarrow> sql_count q js \<le> sql_count p js"
  by (induction js) (auto simp: sql_count_def)

lemma finish_not_more_due:
  "due_count now q (complete_job now i st) \<le> due_count now q st"
  "due_count now q (fail_job now i a m msg st) \<le> due_count now q st"
  unfolding complete_job_def fail_job_def due_count_update [OF not_due_after(1)] due_count_update [OF not_due_after(2)]
  by (auto simp: due_count_def intro: sql_count_mono)

section \<open>Properties\<close>

text \<open>
  C14. Claiming a job: a worker gets nothing exactly when no job of the queue is queued and
  due; otherwise it gets a due job with the least \<open>run_at\<close>, that row alone becomes running
  under its name with one more attempt, and until the row is finished no poll by anybody, at
  any time, hands it out again.
\<close>

theorem poll_claims_earliest_due_job:
  assumes inv: "job_inv st"
  shows "(fst (poll_next_job now q w st) = None \<longleftrightarrow> (\<forall>j\<in>set (background_jobs st). \<not> due now q j)) \<and>
         (fst (poll_next_job now q w st) = None \<longrightarrow> snd (poll_next_job now q w st) = st) \<and>
         (\<forall>j'. fst (poll_next_job now q w st) = Some j' \<longrightarrow>
            (\<exists>j\<in>set (background_jobs st). due now q j \<and>
               (\<forall>x\<in>set (background_jobs st). due now q x \<longrightarrow> j_run_at j \<le> j_run_at x) \<and>
               j' = start_job now w j \<and>
               set (background_jobs (snd (poll_next_job now q w st))) = insert j' (set (background_jobs st) - {j})) \<and>
            (\<forall>now' q' w' x. fst (poll_next_job now' q' w' (snd (poll_next_job now q w st))) = Some x \<longrightarrow> j_id x \<noteq> j_id j'))"
proof (cases "next_due now q (background_jobs st)")
  case None
  moreover have "\<forall>j\<in>set (background_jobs st). \<not> due now q j" using None by (simp add: next_due_None)
  ultimately show ?thesis by (simp add: poll_next_job_def)
next
  case (Some j)
  note j = next_due_Some [OF Some]
  let ?st' = "snd (poll_next_job now q w st)"
  have nc: "no_clash job_clash (background_jobs st)" using inv by (simp add: job_inv_def)
  have rows: "set (background_jobs ?st') = insert (start_job now w j) (set (background_jobs st) - {j})"
    using jobs.set_update_pk [OF nc j(1)] by (simp add: poll_next_job_def Some)
  have "j_id x \<noteq> j_id j" if p: "fst (poll_next_job now' q' w' ?st') = Some x" for now' q' w' x
  proof -
    obtain y where y: "next_due now' q' (background_jobs ?st') = Some y" "x = start_job now' w' y"
      using p by (auto simp: poll_next_job_def [of now' q' w' ?st'] split: option.splits)
    from next_due_Some [OF y(1)] have "y \<in> set (background_jobs ?st')" "j_status y = ''queued''"
      by (simp_all add: due_def)
    moreover have "j_status (start_job now w j) \<noteq> ''queued''" by (simp add: start_job_def)
    ultimately have "y \<in> set (background_jobs st)" "y \<noteq> j" unfolding rows by auto
    with jobs.pk_unique [OF nc _ j(1)] y(2) show ?thesis by auto
  qed
  moreover have "fst (poll_next_job now q w st) = Some (start_job now w j)"
    by (simp add: poll_next_job_def Some)
  moreover have "\<not> (\<forall>j\<in>set (background_jobs st). \<not> due now q j)" using j(1,2) by blast
  ultimately show ?thesis using j rows by auto
qed

text \<open>
  Retries are bounded and delayed: a running job that fails goes back to the queue
  exactly while it has attempts left, and is then due no earlier than 10 and no later than
  5120 seconds later (5 seconds times two to the attempts made, at most ten doublings);
  without attempts left it is failed, and no queue ever finds it due again.
\<close>

theorem retries_are_bounded_and_delayed:
  fixes now :: time and msg :: string and st :: store and j :: job_row
  assumes inv: "job_inv st" and j: "j \<in> set (background_jobs st)" "j_status j = ''running''"
  defines "st' \<equiv> fail_job now (j_id j) (j_attempts j) (j_max_attempts j) msg st"
    and "j' \<equiv> fail_row now (j_attempts j) (j_max_attempts j) msg j"
  shows "set (background_jobs st') = insert j' (set (background_jobs st) - {j}) \<and>
         (j_attempts j < j_max_attempts j \<longrightarrow>
            j_status j' = ''queued'' \<and>
            j_run_at j' = now + seconds (5 * 2 ^ nat (min (j_attempts j) 10)) \<and>
            now + seconds 10 \<le> j_run_at j' \<and> j_run_at j' \<le> now + seconds 5120) \<and>
         (j_max_attempts j \<le> j_attempts j \<longrightarrow>
            j_status j' = ''failed'' \<and> (\<forall>t q. \<not> due t q j'))"
proof -
  have nc: "no_clash job_clash (background_jobs st)" and a: "1 \<le> j_attempts j"
    using inv j by (auto simp: job_inv_def job_ok_def)
  have rows: "set (background_jobs st') = insert j' (set (background_jobs st) - {j})"
    using jobs.set_update_pk [OF nc j(1)] by (simp add: st'_def j'_def fail_job_def)
  have b: "backoff_secs (j_attempts j) = 5 * 2 ^ nat (min (j_attempts j) 10)"
    using a by (simp add: backoff_secs_def max_def)
  have "(2::int) ^ 1 \<le> 2 ^ nat (min (j_attempts j) 10)" using a by (intro power_increasing) auto
  then have "10 \<le> backoff_secs (j_attempts j)" "backoff_secs (j_attempts j) \<le> 5120"
    using backoff_bounds [of "j_attempts j"] unfolding b by simp_all
  then show ?thesis
    using rows by (auto simp: j'_def fail_row_def finish_job_def due_def seconds_def b)
qed

section \<open>A concrete queue\<close>

definition sample_job :: "uuid \<Rightarrow> time \<Rightarrow> job_row" where
  "sample_job i t = new_job_row 0 i ''webhook.deliver'' JNull (Some ''webhooks'') (Some t) (Some 5)"

definition job_store :: store where
  "job_store = empty_store\<lparr>background_jobs := [sample_job 1 70, sample_job 2 50, sample_job 3 900]\<rparr>"

lemma job_inv_sample: "job_inv job_store"
proof -
  have "job_ok (sample_job i t)" "j_id (sample_job i t) = i" for i t
    by (simp_all add: sample_job_def job_ok_new) (simp add: new_job_row_def)
  then show ?thesis by (simp add: job_inv_def job_store_def no_clash_def job_clash_def)
qed

theorem poll_claims_earliest_due_job_witness:
  "fst (poll_next_job 100 ''webhooks'' ''w'' job_store) = Some (start_job 100 ''w'' (sample_job 2 50)) \<and>
   fst (poll_next_job 100 ''webhooks'' ''v'' (snd (poll_next_job 100 ''webhooks'' ''w'' job_store)))
     \<noteq> Some (start_job 100 ''w'' (sample_job 2 50))"
proof -
  have "fst (poll_next_job 100 ''webhooks'' ''w'' job_store) = Some (start_job 100 ''w'' (sample_job 2 50))"
    by (simp add: poll_next_job_def next_due_def job_store_def due_def sample_job_def new_job_row_def)
  with poll_claims_earliest_due_job [OF job_inv_sample, of 100 "''webhooks''" "''w''"]
  show ?thesis by blast
qed

definition running_store :: store where
  "running_store = empty_store\<lparr>background_jobs := [start_job 100 ''w'' (sample_job 1 70)]\<rparr>"

lemma job_inv_running: "job_inv running_store"
  by (auto simp: job_inv_def running_store_def job_ok_def start_job_def sample_job_def new_job_row_def no_clash_def)

theorem retries_are_bounded_and_delayed_witness:
  "j_run_at (fail_row 200 1 5 ''boom'' (start_job 100 ''w'' (sample_job 1 70))) = 200 + seconds 10"
proof -
  have "start_job 100 ''w'' (sample_job 1 70) \<in> set (background_jobs running_store)"
    "j_status (start_job 100 ''w'' (sample_job 1 70)) = ''running''"
    "j_attempts (start_job 100 ''w'' (sample_job 1 70)) = 1" "j_max_attempts (start_job 100 ''w'' (sample_job 1 70)) = 5"
    by (simp_all add: running_store_def start_job_def sample_job_def new_job_row_def)
  with retries_are_bounded_and_delayed [OF job_inv_running this(1,2), of 200 "''boom''"]
  show ?thesis by (simp add: seconds_def)
qed

end
