(* ===== verification/Orgs.thy ===== *)
theory Orgs
  imports Store Pagination
begin

text \<open>
  Applications, the organizations under them and their members (\<open>src/services/org.rs\<close>
  with the types of \<open>src/models/org.rs\<close>).  Only the owner of an application creates
  organizations in it; in an organization a caller's role decides whom they may add.
\<close>

section \<open>Roles\<close>

datatype org_role = RoleMember | RoleAdmin | RoleOwner

fun role_rank :: "org_role \<Rightarrow> nat" where
  "role_rank RoleMember = 1"
| "role_rank RoleAdmin = 2"
| "role_rank RoleOwner = 3"

lemma role_rank_inj: "role_rank a = role_rank b \<longleftrightarrow> a = b"
  by (cases a; cases b) simp_all

instantiation org_role :: linorder
begin

definition less_eq_org_role :: "org_role \<Rightarrow> org_role \<Rightarrow> bool" where
  "less_eq_org_role a b \<longleftrightarrow> role_rank a \<le> role_rank b"

definition less_org_role :: "org_role \<Rightarrow> org_role \<Rightarrow> bool" where
  "less_org_role a b \<longleftrightarrow> role_rank a < role_rank b"

instance
  by standard (auto simp: less_eq_org_role_def less_org_role_def role_rank_inj [symmetric])

end

lemma RoleMember_least [simp]: "\<not> r < RoleMember"
  by (cases r) (simp_all add: less_org_role_def)

lemma RoleOwner_greatest [simp]: "r \<le> RoleOwner" "\<not> RoleOwner < r"
  by (cases r; simp add: less_eq_org_role_def less_org_role_def)+

fun role_str :: "org_role \<Rightarrow> string" where
  "role_str RoleOwner = ''owner''"
| "role_str RoleAdmin = ''admin''"
| "role_str RoleMember = ''member''"

section \<open>Requests\<close>

record create_app_request =
  ca_name :: string
  ca_slug :: string
  ca_description :: "string option"

record create_org_request =
  co_name :: string
  co_slug :: string
  co_logo_url :: "string option"

record add_org_member_request =
  am_user_id :: uuid
  am_role :: org_role

text \<open>\<open>SLUG_REGEX\<close>: non-empty runs of lower-case letters and digits, separated by hyphens.\<close>

definition slug_char :: "char \<Rightarrow> bool" where
  "slug_char c = (let n = of_char c :: nat in (97 \<le> n \<and> n \<le> 122) \<or> (48 \<le> n \<and> n \<le> 57))"

definition slug_regex :: "string \<Rightarrow> bool" where
  "slug_regex s = list_all (\<lambda>p. p \<noteq> [] \<and> list_all slug_char p) (split_on (CHR ''-'') s)"

text \<open>
  \<open>#[validate]\<close>: the fields that fail, with their message; lengths count characters.
\<close>

definition length_between :: "nat \<Rightarrow> nat \<Rightarrow> string \<Rightarrow> bool" where
  "length_between a b s = (a \<le> length (chars s) \<and> length (chars s) \<le> b)"

definition check_field :: "string \<Rightarrow> string \<Rightarrow> bool \<Rightarrow> (string \<times> string) list" where
  "check_field field message ok = (if ok then [] else [(field, message)])"

definition validate_create_app :: "create_app_request \<Rightarrow> (string \<times> string) list" where
  "validate_create_app r =
     check_field ''name'' ''Name must be between 2 and 100 characters'' (length_between 2 100 (ca_name r))
     @ check_field ''slug'' ''Slug must be between 2 and 50 characters'' (length_between 2 50 (ca_slug r))
     @ check_field ''slug''
         (''Slug must be lowercase alphanumeric with hyphens (e.g. '' @ CHR 0x27 # ''my-app-123'' @ CHR 0x27 # '')'')
         (slug_regex (ca_slug r))"

definition validate_create_org :: "create_org_request \<Rightarrow> (string \<times> string) list" where
  "validate_create_org r =
     check_field ''name'' ''Name must be between 2 and 100 characters'' (length_between 2 100 (co_name r))
     @ check_field ''slug'' ''Slug must be between 2 and 50 characters'' (length_between 2 50 (co_slug r))
     @ check_field ''slug''
         (''Slug must be lowercase alphanumeric with hyphens (e.g. '' @ CHR 0x27 # ''my-org-123'' @ CHR 0x27 # '')'')
         (slug_regex (co_slug r))"

section \<open>Applications\<close>

definition quoted :: "string \<Rightarrow> string" where
  "quoted s = CHR 0x27 # s @ [CHR 0x27]"

definition user_exists :: "uuid \<Rightarrow> store \<Rightarrow> bool" where
  "user_exists i st = sql_exists (\<lambda>u. u_id u = i) (users st)"

text \<open>A nullable reference: \<open>NULL\<close> refers to nothing.\<close>

fun fk_ok :: "('a \<Rightarrow> bool) \<Rightarrow> 'a option \<Rightarrow> bool" where
  "fk_ok there None = True"
| "fk_ok there (Some x) = there x"

definition create_app ::
  "ext \<Rightarrow> call \<Rightarrow> uuid \<Rightarrow> create_app_request \<Rightarrow> request_context \<Rightarrow> store \<Rightarrow> app_row result \<times> store" where
  "create_app P k owner_id req ctx st =
     (let app = \<lparr>ap_id = c_uuid k 0, ap_owner_id = owner_id, ap_name = ca_name req, ap_slug = ca_slug req,
                 ap_description = ca_description req, ap_created_at = c_now k, ap_updated_at = c_now k\<rparr> in
      case sql_insert app_clash app (apps st) of
        None \<Rightarrow> (Inl (Conflict ''An application with this slug already exists''), st)
      | Some as \<Rightarrow>
          if \<not> user_exists owner_id st then (Inl fk_violation, st)
          else (Inr app,
                record_best_effort k (c_uuid k 1) (Some owner_id) ''app.create'' ''apps''
                  (Some (uuid_str P (ap_id app))) ctx
                  (Some (JObj [(''name'', JStr (ap_name app)), (''slug'', JStr (ap_slug app))]))
                  (st\<lparr>apps := as\<rparr>)))"

definition list_user_apps :: "uuid \<Rightarrow> page_params \<Rightarrow> store \<Rightarrow> (app_row list \<times> 64 word) result" where
  "list_user_apps user_id params st =
     sql_page (\<lambda>a. ap_owner_id a = user_id) ap_created_at params (apps st)"

section \<open>Organizations\<close>

definition app_not_found :: "ext \<Rightarrow> uuid \<Rightarrow> app_error" where
  "app_not_found P app_id = NotFound (''Application '' @ quoted (uuid_str P app_id) @ '' not found'')"

text \<open>The first step of \<open>create_org\<close> and \<open>list_app_orgs\<close>: the application exists and is the caller's.\<close>

definition owned_app :: "ext \<Rightarrow> uuid \<Rightarrow> uuid \<Rightarrow> store \<Rightarrow> app_row result" where
  "owned_app P app_id user_id st =
     (case find (\<lambda>a. ap_id a = app_id) (apps st) of
        None \<Rightarrow> Inl (app_not_found P app_id)
      | Some app \<Rightarrow> if ap_owner_id app \<noteq> user_id then Inl (app_not_found P app_id) else Inr app)"

definition create_org ::
  "ext \<Rightarrow> call \<Rightarrow> uuid \<Rightarrow> uuid \<Rightarrow> create_org_request \<Rightarrow> request_context \<Rightarrow> store
     \<Rightarrow> org_row result \<times> store" where
  "create_org P k app_id user_id req ctx st =
     (case owned_app P app_id user_id st of
        Inl e \<Rightarrow> (Inl e, st)
      | Inr _ \<Rightarrow>
        (let org = \<lparr>og_id = c_uuid k 0, og_app_id = app_id, og_name = co_name req, og_slug = co_slug req,
                    og_logo_url = co_logo_url req, og_created_at = c_now k, og_updated_at = c_now k\<rparr>;
             owner = \<lparr>m_id = c_uuid k 1, m_org_id = c_uuid k 0, m_user_id = user_id, m_role = ''owner'',
                      m_created_at = c_now k, m_updated_at = c_now k\<rparr> in
         case sql_insert org_clash org (organizations st) of
           None \<Rightarrow> (Inl (Conflict ''An organization with this slug already exists in this app''), st)
         | Some os \<Rightarrow>
           (case sql_insert member_clash owner (org_members st) of
              None \<Rightarrow> (Inl unique_violation, st)
            | Some ms \<Rightarrow>
                if \<not> user_exists user_id st then (Inl fk_violation, st)
                else (Inr org,
                      record_best_effort k (c_uuid k 2) (Some user_id) ''org.create'' ''organizations''
                        (Some (uuid_str P (og_id org))) ctx
                        (Some (JObj [(''app_id'', JStr (uuid_str P app_id)), (''name'', JStr (og_name org)),
                                     (''slug'', JStr (og_slug org))]))
                        (st\<lparr>organizations := os, org_members := ms\<rparr>)))))"

definition list_app_orgs ::
  "ext \<Rightarrow> uuid \<Rightarrow> uuid \<Rightarrow> page_params \<Rightarrow> store \<Rightarrow> (org_row list \<times> 64 word) result" where
  "list_app_orgs P app_id user_id params st =
     and_then (owned_app P app_id user_id st)
       (\<lambda>_. sql_page (\<lambda>g. og_app_id g = app_id) og_created_at params (organizations st))"

section \<open>Members\<close>

definition get_user_org_role :: "uuid \<Rightarrow> uuid \<Rightarrow> store \<Rightarrow> org_role option" where
  "get_user_org_role org_id user_id st =
     (case find (\<lambda>m. m_org_id m = org_id \<and> m_user_id m = user_id) (org_members st) of
        None \<Rightarrow> None
      | Some m \<Rightarrow>
          if m_role m = ''owner'' then Some RoleOwner
          else if m_role m = ''admin'' then Some RoleAdmin
          else if m_role m = ''member'' then Some RoleMember
          else None)"

definition require_org_role :: "uuid \<Rightarrow> uuid \<Rightarrow> org_role \<Rightarrow> store \<Rightarrow> org_role result" where
  "require_org_role org_id user_id minimum st =
     (case get_user_org_role org_id user_id st of
        None \<Rightarrow> Inl (NotFound ''Organization not found'')
      | Some role \<Rightarrow>
          if role < minimum
          then Inl (Forbidden (''This action requires the '' @ quoted (role_str minimum)
                 @ '' role or higher in this organization''))
          else Inr role)"

definition require_membership :: "uuid \<Rightarrow> uuid \<Rightarrow> store \<Rightarrow> org_role result" where
  "require_membership org_id user_id st = require_org_role org_id user_id RoleMember st"

definition add_member ::
  "ext \<Rightarrow> call \<Rightarrow> uuid \<Rightarrow> uuid \<Rightarrow> add_org_member_request \<Rightarrow> request_context \<Rightarrow> store
     \<Rightarrow> member_row result \<times> store" where
  "add_member P k org_id caller_id req ctx st =
     (case get_user_org_role org_id caller_id st of
        None \<Rightarrow> (Inl (NotFound (''Organization '' @ quoted (uuid_str P org_id) @ '' not found'')), st)
      | Some caller_role \<Rightarrow>
          if caller_role < RoleAdmin
          then (Inl (Forbidden ''Only organization admins or owners can add members''), st)
          else if am_role req = RoleOwner \<and> caller_role < RoleOwner
          then (Inl (Forbidden ''Only an owner can grant the owner role''), st)
          else
            (let member = \<lparr>m_id = c_uuid k 0, m_org_id = org_id, m_user_id = am_user_id req,
                           m_role = role_str (am_role req), m_created_at = c_now k,
                           m_updated_at = c_now k\<rparr> in
             case sql_insert member_clash member (org_members st) of
               None \<Rightarrow> (Inl (Conflict ''User is already a member of this organization''), st)
             | Some ms \<Rightarrow>
                 if \<not> user_exists (am_user_id req) st then (Inl fk_violation, st)
                 else (Inr member,
                       record_best_effort k (c_uuid k 1) (Some caller_id) ''org.member_add'' ''org_members''
                         (Some (uuid_str P (m_id member))) ctx
                         (Some (JObj [(''org_id'', JStr (uuid_str P org_id)),
                                      (''user_id'', JStr (uuid_str P (am_user_id req))),
                                      (''role'', JStr (role_str (am_role req)))]))
                         (st\<lparr>org_members := ms\<rparr>))))"

section \<open>The invariant\<close>

text \<open>
  The unique constraints and foreign keys of the three tables, and what the code adds to
  them: every organization has an owner among its members.
\<close>

definition org_inv :: "store \<Rightarrow> bool" where
  "org_inv st \<longleftrightarrow>
     no_clash app_clash (apps st) \<and> no_clash org_clash (organizations st) \<and>
     no_clash member_clash (org_members st) \<and>
     ap_owner_id ` set (apps st) \<subseteq> u_id ` set (users st) \<and>
     og_app_id ` set (organizations st) \<subseteq> ap_id ` set (apps st) \<and>
     m_org_id ` set (org_members st) \<subseteq> og_id ` set (organizations st) \<and>
     m_user_id ` set (org_members st) \<subseteq> u_id ` set (users st) \<and>
     (\<forall>g\<in>set (organizations st). \<exists>m\<in>set (org_members st). m_org_id m = og_id g \<and> m_role m = ''owner'')"

text \<open>The tables the invariant is about.\<close>

definition same_orgs :: "store \<Rightarrow> store \<Rightarrow> bool" where
  "same_orgs st st' \<longleftrightarrow> apps st' = apps st \<and> organizations st' = organizations st \<and>
     org_members st' = org_members st"

lemma org_inv_frame:
  "org_inv st \<Longrightarrow> same_orgs st st' \<Longrightarrow> u_id ` set (users st) \<subseteq> u_id ` set (users st') \<Longrightarrow> org_inv st'"
  unfolding org_inv_def same_orgs_def by (simp, meson subset_trans)

lemma org_inv_audit [simp]: "org_inv (record_best_effort k i u a r ri c m st) = org_inv st"
  by (simp add: org_inv_def)

lemma org_inv_empty [simp]: "org_inv empty_store"
  by (simp add: org_inv_def empty_store_def)

lemma user_exists_iff: "user_exists i st \<longleftrightarrow> i \<in> u_id ` set (users st)"
  by (auto simp: user_exists_def sql_exists_iff)

lemma owned_app_Inr:
  "owned_app P a u st = Inr r \<Longrightarrow> r \<in> set (apps st) \<and> ap_id r = a \<and> ap_owner_id r = u"
  by (auto simp: owned_app_def dest!: find_Some_mem split: option.splits if_splits)

lemma owned_app_Inl:
  "owned_app P a u st = Inl e \<Longrightarrow> e = app_not_found P a"
  by (auto simp: owned_app_def split: option.splits if_splits)

lemma create_app_cases:
  assumes "create_app P k owner req ctx st = (r, st')"
  obtains e where "r = Inl e" "st' = st"
  | app as where "r = Inr app" "sql_insert app_clash app (apps st) = Some as" "ap_owner_id app = owner"
      "user_exists owner st" "same_orgs (st\<lparr>apps := as\<rparr>) st'" "users st' = users st"
  using assms unfolding create_app_def Let_def same_orgs_def
  by (fastforce split: option.splits if_splits)

lemma create_org_cases:
  assumes "create_org P k a u req ctx st = (r, st')"
  obtains e where "r = Inl e" "st' = st"
  | org os owner ms app where "r = Inr org" "owned_app P a u st = Inr app"
      "sql_insert org_clash org (organizations st) = Some os" "og_app_id org = a"
      "sql_insert member_clash owner (org_members st) = Some ms"
      "m_org_id owner = og_id org" "m_user_id owner = u" "m_role owner = ''owner''"
      "user_exists u st" "same_orgs (st\<lparr>organizations := os, org_members := ms\<rparr>) st'" "users st' = users st"
  using assms unfolding create_org_def Let_def same_orgs_def
  by (fastforce split: option.splits if_splits sum.splits)

lemma add_member_cases:
  assumes "add_member P k g c req ctx st = (r, st')"
  obtains e where "r = Inl e" "st' = st"
  | role m ms where "r = Inr m" "get_user_org_role g c st = Some role" "RoleAdmin \<le> role" "am_role req \<le> role"
      "sql_insert member_clash m (org_members st) = Some ms"
      "m_org_id m = g" "m_user_id m = am_user_id req" "m_role m = role_str (am_role req)"
      "user_exists (am_user_id req) st" "same_orgs (st\<lparr>org_members := ms\<rparr>) st'" "users st' = users st"
proof -
  have rank: "am_role req \<le> role" if "\<not> role < RoleAdmin" "\<not> (am_role req = RoleOwner \<and> role < RoleOwner)" for role
    using that by (cases role; cases "am_role req") (simp_all add: less_org_role_def less_eq_org_role_def)
  show ?thesis
    using assms rank that unfolding add_member_def Let_def same_orgs_def
    by (fastforce split: option.splits if_splits simp: not_less)
qed

datatype org_action =
    CreateApp call uuid create_app_request request_context
  | CreateOrg call uuid uuid create_org_request request_context
  | AddMember call uuid uuid add_org_member_request request_context

fun org_step :: "ext \<Rightarrow> org_action \<Rightarrow> store \<Rightarrow> store" where
  "org_step P (CreateApp k u req ctx) st = snd (create_app P k u req ctx st)"
| "org_step P (CreateOrg k a u req ctx) st = snd (create_org P k a u req ctx st)"
| "org_step P (AddMember k g u req ctx) st = snd (add_member P k g u req ctx st)"

lemma org_inv_create_app:
  assumes inv: "org_inv st" and step: "create_app P k owner req ctx st = (r, st')"
  shows "org_inv st'"
  using step
proof (cases rule: create_app_cases)
  case 1
  with inv show ?thesis by simp
next
  case (2 app as)
  with inv have "no_clash app_clash as" by (auto simp: org_inv_def intro: apps.insert_keeps)
  moreover have "as = apps st @ [app]" using 2 by (simp add: sql_insert_Some)
  ultimately show ?thesis
    using inv 2 unfolding org_inv_def same_orgs_def user_exists_iff by auto
qed

lemma org_inv_create_org:
  assumes inv: "org_inv st" and step: "create_org P k a u req ctx st = (r, st')"
  shows "org_inv st'"
  using step
proof (cases rule: create_org_cases)
  case 1
  with inv show ?thesis by simp
next
  case (2 org os owner ms app)
  with inv have nc: "no_clash org_clash os" "no_clash member_clash ms"
    by (auto simp: org_inv_def intro: organizations.insert_keeps org_members.insert_keeps)
  have rows: "os = organizations st @ [org]" "ms = org_members st @ [owner]"
    using 2 by (simp_all add: sql_insert_Some)
  have "a \<in> ap_id ` set (apps st)" using owned_app_Inr [OF 2(2)] by auto
  with inv 2 nc rows show ?thesis
    unfolding org_inv_def same_orgs_def user_exists_iff by auto
qed

lemma org_member_org:
  "org_inv st \<Longrightarrow> get_user_org_role g c st = Some role \<Longrightarrow> g \<in> og_id ` set (organizations st)"
  by (auto simp: org_inv_def get_user_org_role_def dest!: find_Some_mem split: option.splits)

lemma org_inv_add_member:
  assumes inv: "org_inv st" and step: "add_member P k g c req ctx st = (r, st')"
  shows "org_inv st'"
  using step
proof (cases rule: add_member_cases)
  case 1
  with inv show ?thesis by simp
next
  case (2 role m ms)
  with inv have nc: "no_clash member_clash ms" by (auto simp: org_inv_def intro: org_members.insert_keeps)
  have rows: "ms = org_members st @ [m]" using 2 by (simp add: sql_insert_Some)
  have "g \<in> og_id ` set (organizations st)" using org_member_org [OF inv 2(2)] .
  with inv 2 nc rows show ?thesis
    unfolding org_inv_def same_orgs_def user_exists_iff by auto
qed

text \<open>Applications, organizations and memberships are only ever added, never changed.\<close>

definition orgs_grow :: "store \<Rightarrow> store \<Rightarrow> bool" where
  "orgs_grow st st' \<longleftrightarrow> set (apps st) \<subseteq> set (apps st') \<and>
     set (organizations st) \<subseteq> set (organizations st') \<and> set (org_members st) \<subseteq> set (org_members st')"

lemma orgs_grow_trans: "orgs_grow s t \<Longrightarrow> orgs_grow t u \<Longrightarrow> orgs_grow s u"
  by (auto simp: orgs_grow_def)

lemma org_step_grows: "orgs_grow st (org_step P a st)"
proof (cases a)
  case (CreateApp k u req ctx)
  then show ?thesis
    by (cases rule: create_app_cases [OF surjective_pairing, of P k u req ctx st])
      (auto simp: orgs_grow_def same_orgs_def sql_insert_Some)
next
  case (CreateOrg k a u req ctx)
  then show ?thesis
    by (cases rule: create_org_cases [OF surjective_pairing, of P k a u req ctx st])
      (auto simp: orgs_grow_def same_orgs_def sql_insert_Some)
next
  case (AddMember k g u req ctx)
  then show ?thesis
    by (cases rule: add_member_cases [OF surjective_pairing, of P k g u req ctx st])
      (auto simp: orgs_grow_def same_orgs_def sql_insert_Some)
qed

lemma org_step_inv: "org_inv st \<Longrightarrow> org_inv (org_step P a st)"
  by (cases a) (simp_all add: org_inv_create_app [OF _ surjective_pairing]
      org_inv_create_org [OF _ surjective_pairing] org_inv_add_member [OF _ surjective_pairing])

interpretation orgs: monotone_system org_inv "org_step P" orgs_grow for P
  by unfold_locales (simp_all add: org_step_inv org_step_grows orgs_grow_trans orgs_grow_def [of s s for s])

section \<open>Properties\<close>


text \<open>
  An outsider learns nothing about what exists: to a user who is no member of an
  organization, adding a member and every role check answer exactly as if the database were
  empty; to a user who does not own an application, creating or listing organizations in it
  does so too.  None of these calls changes anything.
\<close>

theorem outsider_learns_nothing:
  "(get_user_org_role g u st = None \<longrightarrow>
      add_member P k g u req ctx st = (fst (add_member P k g u req ctx empty_store), st) \<and>
      require_org_role g u minimum st = require_org_role g u minimum empty_store \<and>
      require_membership g u st = require_membership g u empty_store) \<and>
   ((\<forall>x\<in>set (apps st). ap_id x = a \<longrightarrow> ap_owner_id x \<noteq> u) \<longrightarrow>
      create_org P k a u creq ctx st = (fst (create_org P k a u creq ctx empty_store), st) \<and>
      list_app_orgs P a u params st = list_app_orgs P a u params empty_store)"
proof -
  have empty: "get_user_org_role g u empty_store = None" "owned_app P a u empty_store = Inl (app_not_found P a)"
    by (simp_all add: get_user_org_role_def owned_app_def empty_store_def)
  have "owned_app P a u st = Inl (app_not_found P a)"
    if "\<forall>x\<in>set (apps st). ap_id x = a \<longrightarrow> ap_owner_id x \<noteq> u"
    using that by (auto simp: owned_app_def dest!: find_Some_mem split: option.splits)
  with empty show ?thesis
    by (simp add: add_member_def require_org_role_def require_membership_def create_org_def list_app_orgs_def)
qed

text \<open>
  A paged listing is equivalent to the unpaged query: for every requested page size,
  walking the pages its metadata announces gives exactly the caller's applications, newest
  first, each once.
\<close>

theorem app_listing_equals_query:
  fixes u :: uuid and sz :: "64 word option" and st :: store
  assumes "sql_count (\<lambda>a. ap_owner_id a = u) (apps st) < 2 ^ 63"
  defines "q \<equiv> \<lambda>k. \<lparr>pp_page = Some (word_of_nat k), pp_page_size = sz\<rparr>"
    and "pages \<equiv> unat (pm_total_pages (page_meta_new 1 (clamp_1_100 (unwrap_or sz 20))
                        (word_of_nat (sql_count (\<lambda>a. ap_owner_id a = u) (apps st)))))"
  shows "concat (map (\<lambda>k. fst (projr (list_user_apps u (q k) st))) [1..<Suc pages])
           = rev (sort_key ap_created_at (rev (filter (\<lambda>a. ap_owner_id a = u) (apps st))))"
proof -
  have "q = nth_page sz" by (simp add: q_def nth_page_def fun_eq_iff)
  moreover have "pages = announced sz (sql_count (\<lambda>a. ap_owner_id a = u) (apps st))"
    by (simp add: pages_def announced_def)
  ultimately show ?thesis using listing_pages [OF assms(1)] by (simp only: list_user_apps_def)
qed

section \<open>A concrete tenant\<close>

definition tenant_user :: "uuid \<Rightarrow> user_row" where
  "tenant_user i = \<lparr>u_id = i, u_name = ''n'', u_email = nat_str i, u_email_verified = True, u_image = None,
      u_role = ''user'', u_banned = False, u_created_at = 0, u_updated_at = 0,
      u_failed_login_attempts = 0, u_locked_until = None, u_deleted_at = None\<rparr>"

definition tenant_app :: "uuid \<Rightarrow> time \<Rightarrow> app_row" where
  "tenant_app i t = \<lparr>ap_id = i, ap_owner_id = 1, ap_name = ''App'', ap_slug = nat_str i,
      ap_description = None, ap_created_at = t, ap_updated_at = t\<rparr>"

definition tenant_store :: store where
  "tenant_store = empty_store\<lparr>users := [tenant_user 1, tenant_user 2, tenant_user 3],
     apps := [tenant_app 10 5, tenant_app 11 9],
     organizations := [\<lparr>og_id = 20, og_app_id = 10, og_name = ''Org'', og_slug = ''org'', og_logo_url = None,
                         og_created_at = 6, og_updated_at = 6\<rparr>],
     org_members := [\<lparr>m_id = 30, m_org_id = 20, m_user_id = 1, m_role = ''owner'', m_created_at = 6, m_updated_at = 6\<rparr>]\<rparr>"

definition tenant_call :: call where
  "tenant_call = \<lparr>c_now = 100, c_uuid = (\<lambda>i. 900 + i), c_rand = (\<lambda>i j. CHR ''r''), c_salt = ''s'',
     c_nonce = (\<lambda>i. replicate 12 0), c_audit_ok = True\<rparr>"

definition tenant_ctx :: request_context where
  "tenant_ctx = \<lparr>rc_ip_address = None, rc_user_agent = None\<rparr>"

lemmas tenant_defs = tenant_store_def tenant_app_def tenant_user_def tenant_call_def tenant_ctx_def empty_store_def

lemma tenant_inv: "org_inv tenant_store"
  by (simp add: org_inv_def tenant_defs no_clash_def clash_defs nat_str_inj)


theorem outsider_learns_nothing_witness:
  "require_org_role 20 2 RoleMember tenant_store = Inl (NotFound ''Organization not found'')"
  using outsider_learns_nothing [of 20 2 tenant_store toy_ext tenant_call undefined tenant_ctx RoleMember]
  by (simp add: get_user_org_role_def require_org_role_def tenant_defs)

theorem app_listing_equals_query_witness:
  "concat (map (\<lambda>k. fst (projr (list_user_apps 1 \<lparr>pp_page = Some (word_of_nat k), pp_page_size = Some 1\<rparr> tenant_store)))
     [1..<3]) = [tenant_app 11 9, tenant_app 10 5]"
proof -
  have c: "sql_count (\<lambda>a. ap_owner_id a = 1) (apps tenant_store) = 2"
    and f: "filter (\<lambda>a. ap_owner_id a = 1) (apps tenant_store) = [tenant_app 10 5, tenant_app 11 9]"
    by (simp_all add: tenant_defs sql_count_def)
  have p: "unat (pm_total_pages (page_meta_new 1 (clamp_1_100 1) (word_of_nat 2))) = 2"
    by (simp add: page_meta_new_def clamp_1_100_def div_ceil_def)
  have s: "rev (sort_key ap_created_at (rev [tenant_app 10 5, tenant_app 11 9]))
      = [tenant_app 11 9, tenant_app 10 5]"
    by (simp add: tenant_app_def)
  have n: "(2::nat) < 2 ^ 63" "Suc 2 = 3" by simp_all
  show ?thesis
    using app_listing_equals_query [of 1 tenant_store "Some 1"]
    by (simp only: unwrap_or.simps c f p s n simp_thms)
qed

end
