(* ===== verification/Webhooks.thy ===== *)
theory Webhooks
  imports Jobs Orgs
begin

text \<open>
  Webhook subscriptions, the dispatch of an event to them through the job queue, one
  signed delivery attempt (\<open>src/services/webhook.rs\<close>, \<open>src/models/webhook.rs\<close>) and the
  worker loop that runs the queue (\<open>background_worker_loop\<close> in \<open>src/main.rs\<close>).  The HTTP
  client and the JSON printer are parameters.
\<close>

section \<open>Requests\<close>

record create_webhook_request =
  cw_target_url :: string
  cw_app_id :: "uuid option"
  cw_org_id :: "uuid option"
  cw_events :: "string list"

record create_webhook_response =
  wr_id :: uuid
  wr_app_id :: "uuid option"
  wr_target_url :: string
  wr_org_id :: "uuid option"
  wr_events :: "string list"
  wr_secret :: string
  wr_created_at :: time

text \<open>\<open>is_url\<close> is the URL check of the validator crate.\<close>

definition validate_create_webhook :: "(string \<Rightarrow> bool) \<Rightarrow> create_webhook_request \<Rightarrow> (string \<times> string) list" where
  "validate_create_webhook is_url r =
     check_field ''target_url'' ''target_url must be a valid HTTP/HTTPS URL'' (is_url (cw_target_url r))
     @ check_field ''events'' ''At least one event topic is required'' (1 \<le> length (cw_events r))"

text \<open>
  The outside of a delivery: the HTTP client (an error text, or the status and the body read
  as text, empty when it cannot be read), the JSON printer (or its error), and the text of a database error.
\<close>

record web =
  http_post :: "string \<Rightarrow> (string \<times> string) list \<Rightarrow> string \<Rightarrow> string + (nat \<times> string)"
  json_text :: "json \<Rightarrow> string + string"
  db_text :: "sqlx_error \<Rightarrow> string"

section \<open>Subscriptions\<close>

definition create_webhook ::
  "call \<Rightarrow> uuid \<Rightarrow> create_webhook_request \<Rightarrow> store \<Rightarrow> create_webhook_response result \<times> store" where
  "create_webhook k owner_id req st =
     (let secret = ''whsec_'' @ random_token (c_rand k 0) 32;
          r = \<lparr>w_id = c_uuid k 0, w_app_id = cw_app_id req, w_owner_id = owner_id, w_org_id = cw_org_id req,
               w_target_url = cw_target_url req, w_secret = secret, w_events = cw_events req,
               w_is_active = True, w_created_at = c_now k, w_updated_at = c_now k\<rparr> in
      case sql_insert webhook_clash r (webhooks st) of
        None \<Rightarrow> (Inl unique_violation, st)
      | Some ws \<Rightarrow>
          if \<not> (user_exists owner_id st \<and> fk_ok (\<lambda>a. sql_exists (\<lambda>x. ap_id x = a) (apps st)) (cw_app_id req)
                \<and> fk_ok (\<lambda>g. sql_exists (\<lambda>x. og_id x = g) (organizations st)) (cw_org_id req))
          then (Inl fk_violation, st)
          else (Inr \<lparr>wr_id = w_id r, wr_app_id = w_app_id r, wr_target_url = w_target_url r,
                     wr_org_id = w_org_id r, wr_events = w_events r, wr_secret = secret,
                     wr_created_at = w_created_at r\<rparr>,
                st\<lparr>webhooks := ws\<rparr>))"

definition opt_matches :: "uuid option \<Rightarrow> uuid option \<Rightarrow> bool" where
  "opt_matches wanted x \<longleftrightarrow> wanted = None \<or> x = wanted"

definition list_webhooks :: "uuid \<Rightarrow> uuid option \<Rightarrow> uuid option \<Rightarrow> store \<Rightarrow> webhook_row list" where
  "list_webhooks owner_id app_id org_id st =
     rev (sort_key w_created_at (rev (filter (\<lambda>w. w_owner_id w = owner_id \<and> w_is_active w \<and>
       opt_matches app_id (w_app_id w) \<and> opt_matches org_id (w_org_id w)) (webhooks st))))"

text \<open>\<open>ON DELETE CASCADE\<close> removes the delivery log with the webhook.\<close>

definition delete_webhook :: "uuid \<Rightarrow> uuid \<Rightarrow> store \<Rightarrow> unit result \<times> store" where
  "delete_webhook webhook_id owner_id st =
     (let w = (\<lambda>x. w_id x = webhook_id \<and> w_owner_id x = owner_id) in
      if sql_count w (webhooks st) = 0 then (Inl (NotFound ''Webhook not found''), st)
      else (Inr (), st\<lparr>webhooks := sql_delete w (webhooks st),
                       webhook_deliveries := sql_delete (\<lambda>d. d_webhook_id d = webhook_id) (webhook_deliveries st)\<rparr>))"

definition list_deliveries :: "uuid \<Rightarrow> uuid \<Rightarrow> store \<Rightarrow> delivery_row list result" where
  "list_deliveries webhook_id owner_id st =
     (if \<not> sql_exists (\<lambda>x. w_id x = webhook_id \<and> w_owner_id x = owner_id) (webhooks st)
      then Inl (NotFound ''Webhook not found'')
      else Inr (sql_page_desc d_created_at 50 0 (filter (\<lambda>d. d_webhook_id d = webhook_id) (webhook_deliveries st))))"

section \<open>Dispatch\<close>

definition compute_signature :: "ext \<Rightarrow> string \<Rightarrow> int \<Rightarrow> string \<Rightarrow> string" where
  "compute_signature P secret ts payload_json =
     (let signed_payload = int_str ts @ ''.'' @ payload_json;
          digest = hmac_sha256 P (bytes_of secret) (bytes_of signed_payload) in
      ''t='' @ int_str ts @ '',v1='' @ concat (map hex_byte digest))"

text \<open>
  The \<open>WHERE\<close> of \<open>dispatch_event\<close>: \<open>$1 IS NULL AND app_id IS NULL OR app_id = $1\<close>, and so on.
\<close>

definition subscribed :: "string \<Rightarrow> uuid option \<Rightarrow> uuid option \<Rightarrow> webhook_row \<Rightarrow> bool" where
  "subscribed event_type app_id org_id w \<longleftrightarrow> w_is_active w \<and> w_app_id w = app_id \<and>
     (org_id = None \<or> w_org_id w = None \<or> w_org_id w = org_id) \<and>
     (''*'' \<in> set (w_events w) \<or> event_type \<in> set (w_events w))"

definition new_delivery_row :: "time \<Rightarrow> uuid \<Rightarrow> uuid \<Rightarrow> string \<Rightarrow> json \<Rightarrow> delivery_row" where
  "new_delivery_row now i webhook_id event_type payload =
     \<lparr>d_id = i, d_webhook_id = webhook_id, d_event_type = event_type, d_payload = payload,
      d_status = ''pending'', d_status_code = None, d_response_body = None, d_attempts = 0,
      d_created_at = now, d_updated_at = now\<rparr>"

definition delivery_job_payload :: "ext \<Rightarrow> uuid \<Rightarrow> webhook_row \<Rightarrow> string \<Rightarrow> json \<Rightarrow> json" where
  "delivery_job_payload P delivery_id w event_type payload =
     JObj [(''delivery_id'', JStr (uuid_str P delivery_id)), (''webhook_id'', JStr (uuid_str P (w_id w))),
           (''target_url'', JStr (w_target_url w)), (''secret'', JStr (w_secret w)),
           (''event_type'', JStr event_type), (''payload'', payload)]"

text \<open>
  The loop over the matching webhooks, the \<open>i\<close>-th drawing the identifiers \<open>2i\<close> and \<open>2i+1\<close>;
  the statements are not one transaction, so an error keeps what was inserted before it.
\<close>

fun dispatch_all ::
  "ext \<Rightarrow> call \<Rightarrow> string \<Rightarrow> json \<Rightarrow> nat \<Rightarrow> webhook_row list \<Rightarrow> store \<Rightarrow> unit result \<times> store" where
  "dispatch_all P k event_type payload i [] st = (Inr (), st)"
| "dispatch_all P k event_type payload i (w # ws) st =
    (let delivery_id = c_uuid k (2 * i) in
     case sql_insert delivery_clash (new_delivery_row (c_now k) delivery_id (w_id w) event_type payload)
            (webhook_deliveries st) of
       None \<Rightarrow> (Inl unique_violation, st)
     | Some ds \<Rightarrow>
       (case enqueue (c_now k) (c_uuid k (2 * i + 1)) ''webhook.deliver''
               (delivery_job_payload P delivery_id w event_type payload) (Some ''webhooks'') None (Some 5)
               (st\<lparr>webhook_deliveries := ds\<rparr>) of
          (Inl e, st1) \<Rightarrow> (Inl e, st1)
        | (Inr _, st1) \<Rightarrow> dispatch_all P k event_type payload (Suc i) ws st1))"

definition dispatch_event ::
  "ext \<Rightarrow> call \<Rightarrow> string \<Rightarrow> json \<Rightarrow> uuid option \<Rightarrow> uuid option \<Rightarrow> store \<Rightarrow> nat result \<times> store" where
  "dispatch_event P k event_type payload app_id org_id st =
     (let matching = filter (subscribed event_type app_id org_id) (webhooks st) in
      case dispatch_all P k event_type payload 0 matching st of
        (Inl e, st1) \<Rightarrow> (Inl e, st1)
      | (Inr _, st1) \<Rightarrow> (Inr (length matching), st1))"

section \<open>Delivery\<close>

text \<open>\<open>chars().take(1000).collect()\<close>.\<close>

definition take_chars :: "nat \<Rightarrow> string \<Rightarrow> string" where
  "take_chars n s = of_chars (take n (chars s))"

definition execute_delivery ::
  "web \<Rightarrow> ext \<Rightarrow> time \<Rightarrow> uuid \<Rightarrow> string \<Rightarrow> string \<Rightarrow> string \<Rightarrow> json \<Rightarrow> store \<Rightarrow> bool result \<times> store" where
  "execute_delivery W P now delivery_id target_url secret event_type payload st =
     (case json_text W payload of
        Inl e \<Rightarrow> (Inl (Internal (''Failed to stringify payload: '' @ e)), st)
      | Inr payload_str \<Rightarrow>
        (let headers = [(''Content-Type'', ''application/json''), (''X-Webhook-Event'', event_type),
                        (''X-Webhook-Delivery'', uuid_str P delivery_id),
                        (''X-Webhook-Signature'', compute_signature P secret (timestamp now) payload_str)];
             mine = (\<lambda>d. d_id d = delivery_id) in
         case http_post W target_url headers payload_str of
           Inr (status_code, body) \<Rightarrow>
             (let is_success = (200 \<le> status_code \<and> status_code < 300) in
              (Inr is_success,
               st\<lparr>webhook_deliveries := sql_update mine
                 (\<lambda>d. d\<lparr>d_status := (if is_success then ''delivered'' else ''failed''),
                        d_status_code := Some (int status_code),
                        d_response_body := Some (take_chars 1000 body),
                        d_attempts := d_attempts d + 1, d_updated_at := now\<rparr>) (webhook_deliveries st)\<rparr>))
         | Inl err_msg \<Rightarrow>
             (Inr False,
              st\<lparr>webhook_deliveries := sql_update mine
                (\<lambda>d. d\<lparr>d_status := ''failed'', d_response_body := Some (take_chars 1000 err_msg),
                       d_attempts := d_attempts d + 1, d_updated_at := now\<rparr>) (webhook_deliveries st)\<rparr>)))"

section \<open>The worker\<close>

text \<open>What the worker reads from a job of type \<open>webhook.deliver\<close>.\<close>

definition delivery_args :: "ext \<Rightarrow> json \<Rightarrow> (uuid \<times> string \<times> string \<times> string) option" where
  "delivery_args P payload =
     (case (Option.bind (as_str (json_index payload ''delivery_id'')) (uuid_parse P),
            as_str (json_index payload ''target_url''), as_str (json_index payload ''secret''),
            as_str (json_index payload ''event_type'')) of
        (Some del_id, Some url, Some sec, Some evt) \<Rightarrow> Some (del_id, url, sec, evt)
      | _ \<Rightarrow> None)"

definition run_delivery_job :: "web \<Rightarrow> ext \<Rightarrow> time \<Rightarrow> job_row \<Rightarrow> store \<Rightarrow> store" where
  "run_delivery_job W P now job st =
     (case delivery_args P (j_payload job) of
        Some (del_id, url, sec, evt) \<Rightarrow>
          (case execute_delivery W P now del_id url sec evt (json_index (j_payload job) ''payload'') st of
             (Inr True, st1) \<Rightarrow> complete_job now (j_id job) st1
           | (Inr False, st1) \<Rightarrow>
               fail_job now (j_id job) (j_attempts job) (j_max_attempts job)
                 ''Delivery returned non-2xx HTTP status'' st1
           | (Inl e, st1) \<Rightarrow>
               fail_job now (j_id job) (j_attempts job) (j_max_attempts job) (error_display (db_text W) e) st1)
      | None \<Rightarrow>
          fail_job now (j_id job) (j_max_attempts job) (j_max_attempts job)
            ''Malformed webhook delivery job payload'' st)"

text \<open>One turn of the loop; \<open>None\<close> is an idle queue, after which the worker sleeps.\<close>

definition worker_step :: "web \<Rightarrow> ext \<Rightarrow> time \<Rightarrow> string \<Rightarrow> store \<Rightarrow> store option" where
  "worker_step W P now worker st =
     (case poll_next_job now ''webhooks'' worker st of
        (None, st1) \<Rightarrow> None
      | (Some job, st1) \<Rightarrow>
          Some (if j_job_type job = ''webhook.deliver'' then run_delivery_job W P now job st1 else st1))"

section \<open>Facts\<close>

lemma execute_delivery_jobs [simp]:
  "background_jobs (snd (execute_delivery W P now d url sec evt p st)) = background_jobs st"
  by (simp add: execute_delivery_def Let_def split: sum.split prod.split)

lemma run_delivery_job_cases:
  obtains "background_jobs (run_delivery_job W P now job st)
             = background_jobs (complete_job now (j_id job) st)"
  | a msg where "background_jobs (run_delivery_job W P now job st)
             = background_jobs (fail_job now (j_id job) a (j_max_attempts job) msg st)"
      "a = j_attempts job \<or> a = j_max_attempts job"
proof (cases "delivery_args P (j_payload job)")
  case None
  then show ?thesis by (intro that(2)) (auto simp: run_delivery_job_def)
next
  case (Some x)
  obtain d url sec evt where x: "x = (d, url, sec, evt)" by (cases x) auto
  let ?p = "json_index (j_payload job) ''payload''"
  obtain r st1 where e: "execute_delivery W P now d url sec evt ?p st = (r, st1)" by fastforce
  then have js: "background_jobs st1 = background_jobs st"
    using execute_delivery_jobs [of W P now d url sec evt ?p st] by simp
  consider (err) "\<exists>m. r = Inl m" | (bad) "r = Inr False" | (good) "r = Inr True"
    by (cases r) auto
  then show ?thesis
  proof cases
    case err
    then obtain m where "r = Inl m" by blast
    with Some x e js show ?thesis
      by (intro that(2) [of "j_attempts job" "error_display (db_text W) m"])
        (simp_all add: run_delivery_job_def fail_job_def)
  next
    case bad
    with Some x e js show ?thesis
      by (intro that(2) [of "j_attempts job" "''Delivery returned non-2xx HTTP status''"])
        (simp_all add: run_delivery_job_def fail_job_def)
  next
    case good
    with Some x e js show ?thesis
      by (intro that(1)) (simp add: run_delivery_job_def complete_job_def)
  qed
qed

lemma due_count_cong: "background_jobs a = background_jobs b \<Longrightarrow> due_count now q a = due_count now q b"
  by (simp add: due_count_def)

lemma job_inv_cong: "background_jobs a = background_jobs b \<Longrightarrow> job_inv a = job_inv b"
  by (simp add: job_inv_def)

lemma run_delivery_not_more_due:
  "due_count now q (run_delivery_job W P now job st) \<le> due_count now q st"
  by (rule run_delivery_job_cases [of W P now job st])
    (use due_count_cong finish_not_more_due in metis)+

text \<open>Every turn of the worker leaves fewer jobs due.\<close>

lemma worker_step_decreases:
  "worker_step W P now w st = Some st' \<Longrightarrow> due_count now ''webhooks'' st' < due_count now ''webhooks'' st"
  using run_delivery_not_more_due poll_decreases
  by (fastforce simp: worker_step_def split: prod.splits option.splits if_splits intro: le_less_trans)

lemma worker_step_None: "worker_step W P now w st = None \<longleftrightarrow> next_due now ''webhooks'' (background_jobs st) = None"
  by (auto simp: worker_step_def poll_next_job_def split: option.split)

text \<open>The loop until it sleeps.\<close>

function drain :: "web \<Rightarrow> ext \<Rightarrow> time \<Rightarrow> string \<Rightarrow> store \<Rightarrow> store" where
  "drain W P now w st = (case worker_step W P now w st of None \<Rightarrow> st | Some st' \<Rightarrow> drain W P now w st')"
  by auto

termination
  by (relation "measure (\<lambda>(W, P, now, w, st). due_count now ''webhooks'' st)") (simp_all add: worker_step_decreases)

declare drain.simps [simp del]

text \<open>The row a turn claims and what it becomes.\<close>

inductive turn :: "time \<Rightarrow> job_row \<Rightarrow> job_row \<Rightarrow> bool" for now :: time where
  delivered: "j_job_type j = ''webhook.deliver'' \<Longrightarrow> turn now j (finish_job now ''completed'' (start_job now w j))"
| failed: "j_job_type j = ''webhook.deliver'' \<Longrightarrow> a = j_attempts j + 1 \<or> a = j_max_attempts j \<Longrightarrow>
    turn now j (fail_row now a (j_max_attempts j) msg (start_job now w j))"
| left_running: "j_job_type j \<noteq> ''webhook.deliver'' \<Longrightarrow> turn now j (start_job now w j)"

inductive_cases turnE: "turn now j j'"

lemma turn_id: "turn now j j' \<Longrightarrow> j_id j' = j_id j"
  by (auto elim: turnE)

lemma start_job_fields [simp]:
  "j_max_attempts (start_job now w j) = j_max_attempts j" "j_attempts (start_job now w j) = j_attempts j + 1"
  "j_job_type (start_job now w j) = j_job_type j" "j_payload (start_job now w j) = j_payload j"
  by (simp_all add: start_job_def)

lemma sql_update_twice:
  "(\<And>r. w (f r) = w r) \<Longrightarrow> sql_update w g (sql_update w f rs) = sql_update w (\<lambda>r. g (f r)) rs"
  by (induction rs) auto

lemma worker_step_turn:
  assumes inv: "job_inv st" and step: "worker_step W P now w st = Some st'"
  obtains j j' where "j \<in> set (background_jobs st)" "due now ''webhooks'' j"
    "\<And>x. x \<in> set (background_jobs st) \<Longrightarrow> due now ''webhooks'' x \<Longrightarrow> j_run_at j \<le> j_run_at x"
    "turn now j j'" "background_jobs st' = sql_update (\<lambda>x. j_id x = j_id j) (\<lambda>_. j') (background_jobs st)"
proof -
  obtain j where j: "next_due now ''webhooks'' (background_jobs st) = Some j"
    using step worker_step_None [of W P now w st] by (cases "next_due now ''webhooks'' (background_jobs st)") auto
  note facts = next_due_Some [OF j]
  have nc: "no_clash job_clash (background_jobs st)" using inv by (simp add: job_inv_def)
  let ?w = "\<lambda>x. j_id x = j_id j"
  define st1 where "st1 = st\<lparr>background_jobs := sql_update ?w (start_job now w) (background_jobs st)\<rparr>"
  have st': "st' = (if j_job_type j = ''webhook.deliver'' then run_delivery_job W P now (start_job now w j) st1 else st1)"
    using step by (auto simp: worker_step_def poll_next_job_def j st1_def)
  have only: "sql_update ?w f (background_jobs st) = sql_update ?w (\<lambda>_. f j) (background_jobs st)" for f
    unfolding sql_update_def using jobs.pk_unique [OF nc _ facts(1)] by (intro map_cong) auto
  have twice: "sql_update ?w f (background_jobs st1) = sql_update ?w (\<lambda>_. f (start_job now w j)) (background_jobs st)" for f
    by (simp add: st1_def sql_update_twice only [of "\<lambda>r. f (start_job now w r)"])
  show ?thesis
  proof (cases "j_job_type j = ''webhook.deliver''")
    case False
    then show ?thesis
      by (intro that [OF facts, of "start_job now w j"]) (auto simp: st' st1_def only [of "start_job now w"] intro: turn.intros)
  next
    case True
    show ?thesis
    proof (rule run_delivery_job_cases [of W P now "start_job now w j" st1])
      assume "background_jobs (run_delivery_job W P now (start_job now w j) st1)
          = background_jobs (complete_job now (j_id (start_job now w j)) st1)"
      with True st' twice show ?thesis
        by (intro that [OF facts turn.delivered]) (auto simp: complete_job_def)
    next
      fix a msg
      assume "background_jobs (run_delivery_job W P now (start_job now w j) st1)
          = background_jobs (fail_job now (j_id (start_job now w j)) a (j_max_attempts (start_job now w j)) msg st1)"
        "a = j_attempts (start_job now w j) \<or> a = j_max_attempts (start_job now w j)"
      with True st' twice show ?thesis
        by (intro that [OF facts turn.failed [of j a now msg w]]) (auto simp: fail_job_def)
    qed
  qed
qed

lemma turn_ok: "turn now j j' \<Longrightarrow> job_ok j \<Longrightarrow> j_status j = ''queued'' \<Longrightarrow> job_ok j'"
  by (erule turnE) (auto intro!: job_ok_complete job_ok_fail job_ok_start)

lemma job_inv_worker:
  assumes inv: "job_inv st" and step: "worker_step W P now w st = Some st'"
  shows "job_inv st'"
proof (rule worker_step_turn [OF inv step])
  fix j j'
  assume j: "j \<in> set (background_jobs st)" "due now ''webhooks'' j" "turn now j j'"
    and st': "background_jobs st' = sql_update (\<lambda>x. j_id x = j_id j) (\<lambda>_. j') (background_jobs st)"
  have nc: "no_clash job_clash (background_jobs st)" using inv by (simp add: job_inv_def)
  have "job_ok j'" using j inv by (auto simp: job_inv_def due_def intro: turn_ok)
  moreover have "no_clash job_clash (background_jobs st')"
    unfolding st' by (rule no_clash_update [OF nc]) (auto simp: job_clash_def turn_id [OF j(3)] split: if_splits)
  ultimately show ?thesis
    using inv by (auto simp: job_inv_def st' jobs.set_update_pk [OF nc j(1)])
qed

section \<open>Everything that happens to the queue\<close>

text \<open>
  A worker that dies after claiming a job leaves what the poll committed (\<open>WorkerDies\<close>).
\<close>

datatype queue_action =
    Enqueue time uuid string json "string option" "time option" "int option"
  | Dispatch call string json "uuid option" "uuid option"
  | Work time string
  | WorkerDies time string
  | Reap time int
  | Subscribe call uuid create_webhook_request
  | Unsubscribe uuid uuid

fun queue_step :: "web \<Rightarrow> ext \<Rightarrow> queue_action \<Rightarrow> store \<Rightarrow> store" where
  "queue_step W P (Enqueue now i t p q r m) st = snd (enqueue now i t p q r m st)"
| "queue_step W P (Dispatch k e p a g) st = snd (dispatch_event P k e p a g st)"
| "queue_step W P (Work now w) st = (case worker_step W P now w st of None \<Rightarrow> st | Some st' \<Rightarrow> st')"
| "queue_step W P (WorkerDies now w) st = snd (poll_next_job now ''webhooks'' w st)"
| "queue_step W P (Reap now n) st = snd (reap_old_jobs now n st)"
| "queue_step W P (Subscribe k u req) st = snd (create_webhook k u req st)"
| "queue_step W P (Unsubscribe i u) st = snd (delete_webhook i u st)"

definition held_stay :: "store \<Rightarrow> store \<Rightarrow> bool" where
  "held_stay st st' \<longleftrightarrow>
     (\<forall>j\<in>set (background_jobs st). j_status j = ''running'' \<longrightarrow> j \<in> set (background_jobs st'))"

lemma webhook_jobs [simp]:
  "background_jobs (snd (create_webhook k u req st)) = background_jobs st"
  "background_jobs (snd (delete_webhook i u st)) = background_jobs st"
  by (simp_all add: create_webhook_def delete_webhook_def Let_def split: option.split)

lemma held_cong: "background_jobs st' = background_jobs st \<Longrightarrow> held_stay st st'"
  by (simp add: held_stay_def)

lemma held_trans: "held_stay s t \<Longrightarrow> held_stay t u \<Longrightarrow> held_stay s u"
  by (auto simp: held_stay_def)

lemma held_enqueue: "held_stay st (snd (enqueue now i t p q r m st))"
  by (auto simp: held_stay_def enqueue_def sql_insert_Some split: option.split)

lemma dispatch_all_step:
  "job_inv st \<Longrightarrow> job_inv (snd (dispatch_all P k e p i ws st)) \<and> held_stay st (snd (dispatch_all P k e p i ws st))"
proof (induction ws arbitrary: i st)
  case Nil
  then show ?case by (simp add: held_cong)
next
  case (Cons w ws)
  show ?case
  proof (cases "sql_insert delivery_clash (new_delivery_row (c_now k) (c_uuid k (2 * i)) (w_id w) e p) (webhook_deliveries st)")
    case None
    with Cons.prems show ?thesis by (simp add: held_cong)
  next
    case (Some ds)
    let ?st = "st\<lparr>webhook_deliveries := ds\<rparr>"
    let ?enq = "enqueue (c_now k) (c_uuid k (2 * i + 1)) ''webhook.deliver''
        (delivery_job_payload P (c_uuid k (2 * i)) w e p) (Some ''webhooks'') None (Some 5) ?st"
    have inv: "job_inv (snd ?enq)" using Cons.prems by (intro job_inv_enqueue) (simp add: job_inv_def)
    have held: "held_stay st (snd ?enq)"
      using held_enqueue [of ?st] held_trans [OF held_cong [of ?st st]] by simp
    obtain r st1 where enq: "?enq = (r, st1)" by fastforce
    with inv held Cons.IH [of st1 "Suc i"] show ?thesis
      by (cases r) (auto simp: Some Let_def intro: held_trans)
  qed
qed

lemma dispatch_event_snd:
  "snd (dispatch_event P k e p a g st) = snd (dispatch_all P k e p 0 (filter (subscribed e a g) (webhooks st)) st)"
  by (simp add: dispatch_event_def Let_def split: sum.split prod.split)

lemma held_update:
  assumes "job_inv st" "j \<in> set (background_jobs st)" "j_status j = ''queued''"
    and "background_jobs st' = sql_update (\<lambda>x. j_id x = j_id j) f (background_jobs st)"
  shows "held_stay st st'"
proof -
  have "no_clash job_clash (background_jobs st)" using assms(1) by (simp add: job_inv_def)
  from jobs.set_update_pk [OF this assms(2)] assms(3) show ?thesis
    unfolding held_stay_def assms(4) by auto
qed

lemma held_poll: "job_inv st \<Longrightarrow> held_stay st (snd (poll_next_job now q w st))"
proof (cases "next_due now q (background_jobs st)")
  case (Some j)
  assume "job_inv st"
  then show ?thesis
    using next_due_Some(1,2) [OF Some]
    by (intro held_update [of st j]) (auto simp: poll_next_job_def Some due_def)
qed (simp add: poll_next_job_def held_cong)

lemma held_worker:
  assumes "job_inv st" "worker_step W P now w st = Some st'"
  shows "held_stay st st'"
  by (rule worker_step_turn [OF assms], rule held_update [OF assms(1)]) (auto simp: due_def)

lemma held_reap: "held_stay st (snd (reap_old_jobs now n st))"
  by (auto simp: held_stay_def reap_old_jobs_def Let_def reapable_def)

lemma queue_step_ok: "job_inv st \<Longrightarrow> job_inv (queue_step W P a st) \<and> held_stay st (queue_step W P a st)"
  by (cases a)
    (auto simp: job_inv_enqueue held_enqueue dispatch_event_snd dispatch_all_step job_inv_poll held_poll
      job_inv_reap held_reap held_cong job_inv_cong [OF webhook_jobs(1)] job_inv_cong [OF webhook_jobs(2)]
      split: option.split intro: job_inv_worker held_worker)

interpretation queue: monotone_system job_inv "queue_step W P" held_stay for W P
  by unfold_locales (auto simp: queue_step_ok held_cong intro: held_trans)

section \<open>What the worker implements\<close>

text \<open>
  The contract of a job, without rows, clocks or locks: it waits with some attempts left, is
  delivered, is dead, or is held by a worker.
\<close>

datatype job_phase = Waiting nat | Delivered | Dead | Held

inductive phase_step :: "job_phase \<Rightarrow> job_phase \<Rightarrow> bool" where
  deliver: "phase_step (Waiting (Suc n)) Delivered"
| retry: "phase_step (Waiting (Suc (Suc n))) (Waiting (Suc n))"
| give_up: "phase_step (Waiting (Suc n)) Dead"
| hold: "phase_step (Waiting (Suc n)) Held"

inductive_simps phase_step_Waiting: "phase_step (Waiting m) p"
inductive_simps phase_step_end: "phase_step Delivered p" "phase_step Dead p" "phase_step Held p"

definition phase_of :: "job_row \<Rightarrow> job_phase" where
  "phase_of j = (if j_status j = ''queued'' then Waiting (nat (max 1 (j_max_attempts j) - j_attempts j))
     else if j_status j = ''completed'' then Delivered
     else if j_status j = ''running'' then Held
     else Dead)"

lemma phase_steps_bounded: "(phase_step ^^ k) (Waiting n) p \<Longrightarrow> k \<le> n"
proof (induction k arbitrary: n)
  case (Suc k)
  from Suc.prems obtain q where q: "phase_step (Waiting n) q" "(phase_step ^^ k) q p"
    by (metis relpowp_Suc_D2)
  have stuck: "k = 0" if "q = Delivered \<or> q = Dead \<or> q = Held"
    using q(2) that
    by (cases k) (auto simp: phase_step_end simp del: relpowp.simps dest!: relpowp_Suc_D2)
  from q(1) show ?case
    using stuck Suc.IH q(2) by (cases rule: phase_step.cases) auto
qed simp

lemma turn_phase:
  assumes "turn now j j'" "job_ok j" "j_status j = ''queued''"
  shows "phase_step (phase_of j) (phase_of j')"
proof -
  have left: "1 \<le> max 1 (j_max_attempts j) - j_attempts j" using assms(2,3) by (auto simp: job_ok_def)
  then obtain n where n: "nat (max 1 (j_max_attempts j) - j_attempts j) = Suc n"
    by (metis Suc_pred' nat_le_0 not_le zero_less_one_class.zero_le_one neq0_conv zero_less_nat_eq
        order.strict_trans2 zero_less_one)
  then have ph: "phase_of j = Waiting (Suc n)" using assms(3) by (simp add: phase_of_def)
  from assms(1) show ?thesis
  proof (cases rule: turn.cases)
    case delivered
    then have "phase_of j' = Delivered" by (simp add: phase_of_def finish_job_def)
    then show ?thesis by (simp add: ph phase_step.intros)
  next
    case (failed a msg w)
    have fields: "j_max_attempts j' = j_max_attempts j" "j_attempts j' = j_attempts j + 1"
      using failed by (simp_all add: fail_row_def finish_job_def)
    show ?thesis
    proof (cases "a \<ge> j_max_attempts j")
      case True
      with failed have "j_status j' = ''failed''" by (simp add: fail_row_def finish_job_def)
      then have "phase_of j' = Dead" by (simp add: phase_of_def)
      then show ?thesis by (simp add: ph phase_step.intros)
    next
      case False
      with failed have q: "j_status j' = ''queued''" "a = j_attempts j + 1" by (auto simp: fail_row_def finish_job_def)
      with False have "nat (max 1 (j_max_attempts j) - j_attempts j) = Suc (nat (max 1 (j_max_attempts j) - (j_attempts j + 1)))"
        "0 < nat (max 1 (j_max_attempts j) - (j_attempts j + 1))" by linarith+
      with n q(1) fields show ?thesis
        unfolding ph by (auto simp: phase_of_def gr0_conv_Suc intro: phase_step.retry)
    qed
  next
    case (left_running w)
    then have "phase_of j' = Held" by (simp add: phase_of_def start_job_def)
    then show ?thesis by (simp add: ph phase_step.intros)
  qed
qed

section \<open>Properties\<close>

lemma drain_run:
  assumes "job_inv st"
  shows "job_inv (drain W P now w st) \<and> worker_step W P now w (drain W P now w st) = None \<and>
    map j_id (background_jobs (drain W P now w st)) = map j_id (background_jobs st)"
  using assms
proof (induction W P now w st rule: drain.induct)
  case (1 W P now w st)
  show ?case
  proof (cases "worker_step W P now w st")
    case None
    with 1 show ?thesis by (simp add: drain.simps [of W P now w st])
  next
    case (Some st')
    have inv: "job_inv st'" using 1(2) Some by (rule job_inv_worker)
    have ids: "map j_id (background_jobs st') = map j_id (background_jobs st)"
    proof (rule worker_step_turn [OF 1(2) Some])
      fix j j' assume "turn now j j'"
        and "background_jobs st' = sql_update (\<lambda>x. j_id x = j_id j) (\<lambda>_. j') (background_jobs st)"
      then show ?thesis by (auto intro!: map_sql_update simp: turn_id)
    qed
    have "drain W P now w st = drain W P now w st'" by (simp add: drain.simps [of W P now w st] Some)
    with 1(1) [OF Some inv] ids show ?thesis by simp
  qed
qed

text \<open>
  C15. The worker loop always comes to rest: whatever the endpoints answer, a run of the loop
  at one moment ends (the loop is a total function), no job of the webhook queue is due
  then, no job is lost or invented, and the run takes at most one turn per job that was due.
\<close>

theorem worker_comes_to_rest:
  assumes "job_inv st"
  shows "(\<forall>j\<in>set (background_jobs (drain W P now w st)). \<not> due now ''webhooks'' j) \<and>
         map j_id (background_jobs (drain W P now w st)) = map j_id (background_jobs st) \<and>
         job_inv (drain W P now w st) \<and>
         (\<forall>run. (\<forall>i<length run. worker_step W P now w ((st # run) ! i) = Some (run ! i)) \<longrightarrow>
            length run \<le> due_count now ''webhooks'' st)"
proof -
  have "length run \<le> due_count now ''webhooks'' s"
    if "\<forall>i<length run. worker_step W P now w ((s # run) ! i) = Some (run ! i)" for run s
    using that
  proof (induction run arbitrary: s)
    case (Cons s' run)
    from Cons.prems [rule_format, of 0] have "worker_step W P now w s = Some s'" by simp
    then have "due_count now ''webhooks'' s' < due_count now ''webhooks'' s" by (rule worker_step_decreases)
    moreover have "length run \<le> due_count now ''webhooks'' s'"
    proof (rule Cons.IH, intro allI impI)
      fix i assume "i < length run"
      then show "worker_step W P now w ((s' # run) ! i) = Some (run ! i)"
        using Cons.prems [rule_format, of "Suc i"] by simp
    qed
    ultimately show ?case by simp
  qed simp
  with drain_run [OF assms] show ?thesis
    by (simp add: worker_step_None next_due_None)
qed

text \<open>
  C16. The worker implements the contract of a job: each turn takes one waiting job, leaves
  every other row as it is, and moves that job by one step of \<open>phase_step\<close>; and by that
  contract no job is attempted more than \<open>max(1, max_attempts)\<close> times.
\<close>

theorem worker_refines_job_phases:
  assumes "job_inv st" "worker_step W P now w st = Some st'"
  shows "\<exists>j j'. j \<in> set (background_jobs st) \<and> due now ''webhooks'' j \<and> j_id j' = j_id j \<and>
           phase_step (phase_of j) (phase_of j') \<and>
           set (background_jobs st') = insert j' (set (background_jobs st) - {j}) \<and>
           (\<forall>k p. (phase_step ^^ k) (phase_of j) p \<longrightarrow> k \<le> nat (max 1 (j_max_attempts j)))"
proof (rule worker_step_turn [OF assms])
  fix j j'
  assume j: "j \<in> set (background_jobs st)" "due now ''webhooks'' j" "turn now j j'"
    and st': "background_jobs st' = sql_update (\<lambda>x. j_id x = j_id j) (\<lambda>_. j') (background_jobs st)"
  have nc: "no_clash job_clash (background_jobs st)" and ok: "job_ok j" "j_status j = ''queued''"
    using assms(1) j by (auto simp: job_inv_def due_def)
  have "phase_of j = Waiting (nat (max 1 (j_max_attempts j) - j_attempts j))"
    using ok(2) by (simp add: phase_of_def)
  moreover have "nat (max 1 (j_max_attempts j) - j_attempts j) \<le> nat (max 1 (j_max_attempts j))"
    using ok(1) by (intro nat_mono) (simp add: job_ok_def)
  ultimately have "k \<le> nat (max 1 (j_max_attempts j))" if "(phase_step ^^ k) (phase_of j) p" for k p
    using phase_steps_bounded that by (metis le_trans)
  then have bound: "\<forall>k p. (phase_step ^^ k) (phase_of j) p \<longrightarrow> k \<le> nat (max 1 (j_max_attempts j))"
    by blast
  show ?thesis
    unfolding st'
    by (intro exI [of _ j] exI [of _ j'] conjI j(1,2) turn_id [OF j(3)] turn_phase [OF j(3) ok]
        jobs.set_update_pk [OF nc j(1)] bound)
qed

text \<open>
  C17. Delivery is at most once per attempt, not exactly once: a job whose worker dies after
  claiming it, and a job of a type the worker does not know, stay claimed for ever - no
  later poll, retry, cleanup or dispatch, in any order, ever changes the row again.
\<close>

theorem claimed_job_can_be_stranded:
  assumes inv: "job_inv st" and next_job: "next_due now ''webhooks'' (background_jobs st) = Some j"
  shows "start_job now w j \<in> set (background_jobs (fold (queue_step W P) as
           (queue_step W P (WorkerDies now w) st))) \<and>
         (j_job_type j \<noteq> ''webhook.deliver'' \<longrightarrow>
            start_job now w j \<in> set (background_jobs (fold (queue_step W P) as
              (queue_step W P (Work now w) st))))"
proof -
  let ?died = "snd (poll_next_job now ''webhooks'' w st)"
  have nc: "no_clash job_clash (background_jobs st)" using inv by (simp add: job_inv_def)
  have "start_job now w j \<in> set (background_jobs ?died)"
    using jobs.set_update_pk [OF nc next_due_Some(1) [OF next_job]]
    by (simp add: poll_next_job_def next_job)
  moreover have "held_stay ?died (fold (queue_step W P) as ?died)"
    by (rule queue.R_run) (rule job_inv_poll [OF inv])
  moreover have "j_status (start_job now w j) = ''running''" by (simp add: start_job_def)
  ultimately have stays: "start_job now w j \<in> set (background_jobs (fold (queue_step W P) as ?died))"
    by (auto simp: held_stay_def)
  moreover have "queue_step W P (Work now w) st = ?died" if "j_job_type j \<noteq> ''webhook.deliver''"
    using that by (simp add: worker_step_def poll_next_job_def next_job)
  ultimately show ?thesis by simp
qed

lemma dispatch_all_rows:
  "dispatch_all P k e p i ws st = (Inr (), st') \<Longrightarrow>
     webhook_deliveries st' = webhook_deliveries st @
       map (\<lambda>(n, w). new_delivery_row (c_now k) (c_uuid k (2 * n)) (w_id w) e p) (enumerate i ws) \<and>
     background_jobs st' = background_jobs st @
       map (\<lambda>(n, w). new_job_row (c_now k) (c_uuid k (2 * n + 1)) ''webhook.deliver''
              (delivery_job_payload P (c_uuid k (2 * n)) w e p) (Some ''webhooks'') None (Some 5)) (enumerate i ws)"
  by (induction ws arbitrary: i st)
    (auto simp: Let_def enqueue_def sql_insert_Some split: option.splits prod.splits sum.splits)

lemma delivery_args_payload:
  "uuid_ok P \<Longrightarrow> delivery_args P (delivery_job_payload P d w e p) = Some (d, w_target_url w, w_secret w, e)"
  "json_index (delivery_job_payload P d w e p) ''payload'' = p"
  by (simp_all add: delivery_args_def delivery_job_payload_def uuid_ok_def)

text \<open>
  C18. An event reaches exactly its subscribers: a dispatch that succeeds returns the number
  of matching active webhooks, and for each of them, in order, logs one pending delivery and
  queues one job with five attempts whose payload the worker reads back as exactly that
  delivery, address, secret, event and body.
\<close>

theorem dispatch_reaches_subscribers:
  assumes "uuid_ok P" and "dispatch_event P k e p a g st = (Inr n, st')"
  defines "ws \<equiv> filter (subscribed e a g) (webhooks st)"
  shows "n = length ws \<and>
         (\<exists>ds js. webhook_deliveries st' = webhook_deliveries st @ ds \<and>
            background_jobs st' = background_jobs st @ js \<and> length ds = n \<and> length js = n \<and>
            (\<forall>i<n. d_webhook_id (ds ! i) = w_id (ws ! i) \<and> d_status (ds ! i) = ''pending'' \<and>
               due (c_now k) ''webhooks'' (js ! i) \<and> phase_of (js ! i) = Waiting 5 \<and>
               j_job_type (js ! i) = ''webhook.deliver'' \<and>
               delivery_args P (j_payload (js ! i))
                 = Some (d_id (ds ! i), w_target_url (ws ! i), w_secret (ws ! i), e) \<and>
               json_index (j_payload (js ! i)) ''payload'' = p))"
proof -
  from assms(2) have all: "dispatch_all P k e p 0 ws st = (Inr (), st')" and n: "n = length ws"
    by (auto simp: dispatch_event_def ws_def Let_def split: prod.splits sum.splits)
  note rows = dispatch_all_rows [OF all]
  show ?thesis
    by (intro conjI n exI, rule conjunct1 [OF rows], rule conjunct2 [OF rows])
      (auto simp: n nth_enumerate_eq new_delivery_row_def new_job_row_def delivery_args_payload(1) [OF assms(1)]
        delivery_args_payload(2) due_def phase_of_def)
qed

text \<open>
  A receiver can check what it is sent: the signature header splits at its comma into
  the time and the version-1 digest, the digest decodes to the HMAC of \<open>time.body\<close> under the
  subscription's secret, and two headers agree only when time and digest do.
\<close>

theorem signature_header_round_trip:
  assumes "hmac_ok P"
  shows "(\<exists>hex. split_once (CHR '','') (compute_signature P secret t body) = Some (''t='' @ int_str t, ''v1='' @ hex) \<and>
            hex_decode hex = Some (hmac_sha256 P (bytes_of secret) (bytes_of (int_str t @ ''.'' @ body)))) \<and>
         (compute_signature P secret t body = compute_signature P secret' t' body' \<longrightarrow>
            t = t' \<and> hmac_sha256 P (bytes_of secret) (bytes_of (int_str t @ ''.'' @ body))
                     = hmac_sha256 P (bytes_of secret') (bytes_of (int_str t' @ ''.'' @ body')))"
proof -
  let ?mac = "\<lambda>s t b. hmac_sha256 P (bytes_of s) (bytes_of (int_str t @ ''.'' @ b))"
  have no_comma: "CHR '','' \<notin> set (''t='' @ int_str x)" for x
  proof -
    have "digit d \<noteq> CHR '',''" if "d < 10" for d
      using that by (simp add: digit_def char_of_eq_iff take_bit_eq_mod)
    then have "CHR '','' \<notin> set (nat_str n)" for n using nat_str_digits by metis
    then show ?thesis by (simp add: int_str_def)
  qed
  have sp: "split_once (CHR '','') (compute_signature P s x b)
      = Some (''t='' @ int_str x, ''v1='' @ concat (map hex_byte (?mac s x b)))" for s x b
    using split_once_append [OF no_comma, of x "''v1='' @ concat (map hex_byte (?mac s x b))"]
    by (simp add: compute_signature_def Let_def)
  have dec: "hex_decode (concat (map hex_byte (?mac s x b))) = Some (?mac s x b)" for s x b
    using assms by (intro hex_decode_bytes) (simp add: hmac_ok_def)
  have "t = t' \<and> ?mac secret t body = ?mac secret' t' body'"
    if "compute_signature P secret t body = compute_signature P secret' t' body'"
  proof -
    have "Some (''t='' @ int_str t, ''v1='' @ concat (map hex_byte (?mac secret t body)))
        = Some (''t='' @ int_str t', ''v1='' @ concat (map hex_byte (?mac secret' t' body')))"
      by (simp only: sp [symmetric] that)
    then have t: "int_str t = int_str t'"
      and hex: "concat (map hex_byte (?mac secret t body)) = concat (map hex_byte (?mac secret' t' body'))"
      unfolding option.inject prod.inject same_append_eq by blast+
    have "Some (?mac secret t body) = Some (?mac secret' t' body')"
      by (simp only: dec [symmetric] hex)
    then show ?thesis using int_str_inj [OF t] by simp
  qed
  with sp dec show ?thesis by blast
qed

section \<open>Concrete deliveries\<close>

definition hook_store :: store where
  "hook_store = tenant_store\<lparr>webhooks :=
     [\<lparr>w_id = 40, w_app_id = Some 10, w_owner_id = 1, w_org_id = None, w_target_url = ''https://a'', w_secret = ''s'',
       w_events = [''*''], w_is_active = True, w_created_at = 1, w_updated_at = 1\<rparr>]\<rparr>"

definition ok_web :: web where
  "ok_web = \<lparr>http_post = (\<lambda>u h b. Inr (200, [])), json_text = (\<lambda>j. Inr []), db_text = (\<lambda>e. [])\<rparr>"

theorem worker_comes_to_rest_witness:
  "map j_id (background_jobs (drain ok_web toy_ext 100 ''w'' job_store)) = [1, 2, 3]"
proof -
  have "map j_id (background_jobs job_store) = [1, 2, 3]"
    by (simp add: job_store_def sample_job_def new_job_row_def)
  with worker_comes_to_rest [OF job_inv_sample, of ok_web toy_ext 100 "''w''"] show ?thesis by simp
qed

lemma sample_next: "next_due 100 ''webhooks'' (background_jobs job_store) = Some (sample_job 2 50)"
  by (simp add: next_due_def job_store_def due_def sample_job_def new_job_row_def)

theorem worker_refines_job_phases_witness:
  "\<exists>st' j j'. worker_step ok_web toy_ext 100 ''w'' job_store = Some st' \<and> phase_step (phase_of j) (phase_of j')"
proof -
  obtain st' where s: "worker_step ok_web toy_ext 100 ''w'' job_store = Some st'"
    using sample_next worker_step_None [of ok_web toy_ext 100 "''w''" job_store]
    by (cases "worker_step ok_web toy_ext 100 ''w'' job_store") auto
  from worker_refines_job_phases [OF job_inv_sample s] s show ?thesis by blast
qed

theorem claimed_job_can_be_stranded_witness:
  "start_job 100 ''w'' (sample_job 2 50) \<in> set (background_jobs (fold (queue_step ok_web toy_ext)
     [Work 200 ''v'', Reap 90000000000000 0, Work 999 ''v''] (queue_step ok_web toy_ext (WorkerDies 100 ''w'') job_store)))"
  using claimed_job_can_be_stranded [OF job_inv_sample sample_next] by blast

theorem dispatch_reaches_subscribers_witness:
  "\<exists>n st'. dispatch_event toy_ext tenant_call ''e'' JNull (Some 10) None hook_store = (Inr n, st') \<and> n = 1"
proof -
  have ws: "filter (subscribed ''e'' (Some 10) None) (webhooks hook_store) = webhooks hook_store"
    by (simp add: hook_store_def subscribed_def)
  have "\<exists>st'. dispatch_event toy_ext tenant_call ''e'' JNull (Some 10) None hook_store = (Inr 1, st')"
    unfolding dispatch_event_def Let_def ws
    by (simp add: Let_def hook_store_def tenant_store_def empty_store_def sql_insert_def enqueue_def)
  then obtain st' where d: "dispatch_event toy_ext tenant_call ''e'' JNull (Some 10) None hook_store = (Inr 1, st')" ..
  from dispatch_reaches_subscribers [OF toy_uuid_ok d] have "1 = length (filter (subscribed ''e'' (Some 10) None) (webhooks hook_store))"
    by blast
  with d show ?thesis by blast
qed

theorem signature_header_round_trip_witness:
  "\<exists>hex. split_once (CHR '','') (compute_signature toy_ext ''whsec'' 17 ''{}'') = Some (''t='' @ int_str 17, ''v1='' @ hex)"
  using signature_header_round_trip [OF toy_ext_laws(2)] by blast

end
