(* ===== verification/ApiKeys.thy ===== *)
theory ApiKeys
  imports Orgs Auth
begin

text \<open>
  API keys for machines (\<open>src/services/api_key.rs\<close> with the request and response of
  \<open>src/models/api_key.rs\<close>): a key is shown once, only its hash is stored, and whoever
  presents it acts as the user it belongs to.  Adding an out-of-range number of days to a
  chrono date panics; an operation that panics is \<open>None\<close>.
\<close>

section \<open>Requests\<close>

record create_api_key_request =
  ck_name :: string
  ck_org_id :: "uuid option"
  ck_scopes :: "string list option"
  ck_expires_in_days :: "int option"

record create_api_key_response =
  cr_id :: uuid
  cr_name :: string
  cr_key :: string
  cr_key_start :: string
  cr_scopes :: "string list"
  cr_expires_at :: "time option"
  cr_created_at :: time

definition validate_create_api_key :: "create_api_key_request \<Rightarrow> (string \<times> string) list" where
  "validate_create_api_key r =
     check_field ''name'' ''Name must be between 2 and 100 characters'' (length_between 2 100 (ck_name r))"

section \<open>Operations\<close>

text \<open>
  \<open>Utc::now() + Duration::days(days)\<close>: \<open>None\<close> where chrono panics, \<open>Some None\<close> where no
  expiry is asked for.
\<close>

definition key_expiry :: "ext \<Rightarrow> time \<Rightarrow> int option \<Rightarrow> time option option" where
  "key_expiry P now expires_in_days =
     (case expires_in_days of
        None \<Rightarrow> Some None
      | Some n \<Rightarrow> (let t = now + days n in
                  if chrono_min P \<le> t \<and> t \<le> chrono_max P then Some (Some t) else None))"

text \<open>The first moment of PostgreSQL's \<open>timestamptz\<close> (4714-11-24 BC); it refuses earlier ones.\<close>

definition pg_min_timestamp :: time where
  "pg_min_timestamp = - 210866803200000000"

definition plaintext_key :: "string \<Rightarrow> string" where
  "plaintext_key random_part = ''ak_live_'' @ random_part"

definition new_api_key_row ::
  "ext \<Rightarrow> call \<Rightarrow> uuid \<Rightarrow> create_api_key_request \<Rightarrow> scope_set \<Rightarrow> time option \<Rightarrow> api_key_row" where
  "new_api_key_row P k user_id req scopes expires_at =
     (let random_part = random_token (c_rand k 0) 48 in
      \<lparr>k_id = c_uuid k 0, k_user_id = user_id, k_org_id = ck_org_id req, k_name = ck_name req,
       k_key_start = ''ak_live_'' @ take 6 random_part @ ''...'',
       k_key_hash = sha256_hex P (plaintext_key random_part),
       k_scopes = Some (JArr (map JStr (scope_to_strings scopes))),
       k_expires_at = expires_at, k_last_used_at = None, k_created_at = c_now k, k_updated_at = c_now k\<rparr>)"

definition create_key ::
  "ext \<Rightarrow> call \<Rightarrow> uuid \<Rightarrow> create_api_key_request \<Rightarrow> request_context \<Rightarrow> store
     \<Rightarrow> (create_api_key_response result \<times> store) option" where
  "create_key P k user_id req ctx st =
     (case scope_parse_request (ck_scopes req) of
        Inl e \<Rightarrow> Some (Inl e, st)
      | Inr scopes \<Rightarrow>
        (case key_expiry P (c_now k) (ck_expires_in_days req) of
           None \<Rightarrow> None
         | Some expires_at \<Rightarrow>
           (let r = new_api_key_row P k user_id req scopes expires_at in
            if (case expires_at of Some t \<Rightarrow> t < pg_min_timestamp | None \<Rightarrow> False)
            then Some (Inl (DatabaseError (Database OtherDbError)), st)
            else (case sql_insert api_key_clash r (api_keys st) of
              None \<Rightarrow> Some (Inl unique_violation, st)
            | Some ks \<Rightarrow>
                if \<not> user_exists user_id st
                   \<or> (case ck_org_id req of Some g \<Rightarrow> \<not> sql_exists (\<lambda>o'. og_id o' = g) (organizations st) | None \<Rightarrow> False)
                then Some (Inl fk_violation, st)
                else Some
                  (Inr \<lparr>cr_id = k_id r, cr_name = k_name r,
                        cr_key = plaintext_key (random_token (c_rand k 0) 48), cr_key_start = k_key_start r,
                        cr_scopes = scope_to_strings scopes, cr_expires_at = expires_at,
                        cr_created_at = k_created_at r\<rparr>,
                   record_best_effort k (c_uuid k 1) (Some user_id) ''api_key.create'' ''api_keys''
                     (Some (uuid_str P (k_id r))) ctx
                     (Some (JObj [(''name'', JStr (k_name r)), (''key_start'', JStr (k_key_start r)),
                        (''org_id'', case ck_org_id req of Some g \<Rightarrow> JStr (uuid_str P g) | None \<Rightarrow> JNull)]))
                     (st\<lparr>api_keys := ks\<rparr>))))))"

definition list_keys :: "uuid \<Rightarrow> page_params \<Rightarrow> store \<Rightarrow> (api_key_row list \<times> 64 word) result" where
  "list_keys user_id params st =
     sql_page (\<lambda>k. k_user_id k = user_id) k_created_at params (api_keys st)"

definition delete_key ::
  "ext \<Rightarrow> call \<Rightarrow> uuid \<Rightarrow> uuid \<Rightarrow> request_context \<Rightarrow> store \<Rightarrow> unit result \<times> store" where
  "delete_key P k key_id user_id ctx st =
     (let w = (\<lambda>r. k_id r = key_id \<and> k_user_id r = user_id) in
      if sql_count w (api_keys st) = 0
      then (Inl (NotFound (''API Key '' @ quoted (uuid_str P key_id) @ '' not found'')), st)
      else (Inr (),
            record_best_effort k (c_uuid k 0) (Some user_id) ''api_key.delete'' ''api_keys''
              (Some (uuid_str P key_id)) ctx None (st\<lparr>api_keys := sql_delete w (api_keys st)\<rparr>)))"

text \<open>The checks of \<open>resolve_key\<close>, in their order.\<close>

definition resolve_key_row :: "ext \<Rightarrow> time \<Rightarrow> string \<Rightarrow> store \<Rightarrow> (user \<times> api_key_row) result" where
  "resolve_key_row P now raw_key st =
     (case find (\<lambda>r. k_key_hash r = sha256_hex P raw_key) (api_keys st) of
        None \<Rightarrow> Inl (Unauthorized ''Invalid API key'')
      | Some r \<Rightarrow>
          if (case k_expires_at r of Some t \<Rightarrow> t < now | None \<Rightarrow> False)
          then Inl (Unauthorized ''API key has expired'')
          else (case live_user_by_id (k_user_id r) st of
                  None \<Rightarrow> Inl (Unauthorized ''User associated with this API key not found or deleted'')
                | Some u \<Rightarrow>
                    if u_banned u then Inl (Forbidden ''User account is banned'')
                    else Inr (user_of_row u, r)))"

definition needs_touch :: "time \<Rightarrow> api_key_row \<Rightarrow> bool" where
  "needs_touch now r = (case k_last_used_at r of None \<Rightarrow> True | Some l \<Rightarrow> now - l > minutes 1)"

text \<open>The spawned update of \<open>last_used_at\<close> is part of the call.\<close>

definition resolve_key :: "ext \<Rightarrow> call \<Rightarrow> string \<Rightarrow> store \<Rightarrow> (user \<times> api_key_row) result \<times> store" where
  "resolve_key P k raw_key st =
     (let now = c_now k in
      case resolve_key_row P now raw_key st of
        Inl e \<Rightarrow> (Inl e, st)
      | Inr (u, r) \<Rightarrow>
          (Inr (u, r),
           if needs_touch now r
           then st\<lparr>api_keys := sql_update
                  (\<lambda>x. k_id x = k_id r \<and> (case k_last_used_at x of None \<Rightarrow> True | Some l \<Rightarrow> l < now - minutes 1))
                  (\<lambda>x. x\<lparr>k_last_used_at := Some now\<rparr>) (api_keys st)\<rparr>
           else st))"

lemma resolve_key_row_Inr:
  "resolve_key_row P now raw st = Inr (usr, r) \<longleftrightarrow>
     find (\<lambda>r. k_key_hash r = sha256_hex P raw) (api_keys st) = Some r \<and>
     (\<forall>t. k_expires_at r = Some t \<longrightarrow> now \<le> t) \<and>
     (\<exists>row. live_user_by_id (k_user_id r) st = Some row \<and> \<not> u_banned row \<and> usr = user_of_row row)"
  by (auto simp: resolve_key_row_def split: option.split)

lemma fst_resolve_key: "fst (resolve_key P k raw st) = resolve_key_row P (c_now k) raw st"
  by (simp add: resolve_key_def Let_def split: sum.split prod.split)

section \<open>The invariant\<close>

definition key_inv :: "store \<Rightarrow> bool" where
  "key_inv st \<longleftrightarrow> no_clash api_key_clash (api_keys st) \<and>
     k_user_id ` set (api_keys st) \<subseteq> u_id ` set (users st) \<and>
     (\<forall>r\<in>set (api_keys st). \<forall>g. k_org_id r = Some g \<longrightarrow> g \<in> og_id ` set (organizations st))"

lemma key_inv_audit [simp]: "key_inv (record_best_effort k i u a r ri c m st) = key_inv st"
  by (simp add: key_inv_def)

lemma key_inv_empty [simp]: "key_inv empty_store"
  by (simp add: key_inv_def empty_store_def)

lemma key_inv_frame:
  "key_inv st \<Longrightarrow> api_keys st' = api_keys st \<Longrightarrow> u_id ` set (users st) \<subseteq> u_id ` set (users st') \<Longrightarrow>
   set (organizations st) \<subseteq> set (organizations st') \<Longrightarrow> key_inv st'"
  unfolding key_inv_def by (simp, meson image_mono subset_iff)

lemma create_key_cases:
  assumes "create_key P k u req ctx st = Some (r, st')"
  obtains e where "r = Inl e" "st' = st"
  | scopes expires_at row ks resp where "r = Inr resp" "scope_parse_request (ck_scopes req) = Inr scopes"
      "key_expiry P (c_now k) (ck_expires_in_days req) = Some expires_at"
      "row = new_api_key_row P k u req scopes expires_at"
      "sql_insert api_key_clash row (api_keys st) = Some ks" "user_exists u st"
      "\<forall>g. ck_org_id req = Some g \<longrightarrow> g \<in> og_id ` set (organizations st)"
      "cr_key resp = plaintext_key (random_token (c_rand k 0) 48)" "cr_id resp = k_id row"
      "cr_scopes resp = scope_to_strings scopes" "cr_key_start resp = k_key_start row"
      "cr_expires_at resp = expires_at"
      "api_keys st' = ks" "users st' = users st" "organizations st' = organizations st" "same_orgs st st'"
proof (cases "scope_parse_request (ck_scopes req)")
  case (Inl e)
  with assms show ?thesis by (intro that(1) [of e]) (simp_all add: create_key_def)
next
  case scopes: (Inr scopes)
  with assms obtain expires_at where expires: "key_expiry P (c_now k) (ck_expires_in_days req) = Some expires_at"
    by (cases "key_expiry P (c_now k) (ck_expires_in_days req)") (simp_all add: create_key_def)
  let ?row = "new_api_key_row P k u req scopes expires_at"
  show ?thesis
  proof (cases "\<exists>e. r = Inl e")
    case True
    with assms scopes expires have "st' = st"
      by (auto simp: create_key_def Let_def split: if_splits option.splits)
    with True that(1) show ?thesis by blast
  next
    case False
    then obtain resp where resp: "r = Inr resp" by (cases r) auto
    with assms scopes expires obtain ks where ks: "sql_insert api_key_clash ?row (api_keys st) = Some ks"
      by (cases "sql_insert api_key_clash ?row (api_keys st)")
        (simp_all add: create_key_def Let_def split: if_splits)
    have org: "\<forall>g. ck_org_id req = Some g \<longrightarrow> g \<in> og_id ` set (organizations st)"
      using assms scopes expires ks resp
      by (auto simp: create_key_def Let_def sql_exists_iff split: if_splits)
    show ?thesis
      by (rule that(2) [OF resp scopes expires refl ks _ org])
        (use assms scopes expires ks resp in \<open>auto simp: create_key_def Let_def same_orgs_def split: if_splits\<close>)
  qed
qed

lemma key_inv_create:
  assumes inv: "key_inv st" and step: "create_key P k u req ctx st = Some (r, st')"
  shows "key_inv st'"
  using step
proof (cases rule: create_key_cases)
  case 1
  with inv show ?thesis by simp
next
  case (2 scopes expires_at row ks resp)
  with inv have "no_clash api_key_clash ks" by (auto simp: key_inv_def intro: api_keys.insert_keeps)
  moreover have "ks = api_keys st @ [row]" using 2 by (simp add: sql_insert_Some)
  moreover have "k_user_id row = u" "k_org_id row = ck_org_id req"
    using 2 by (simp_all add: new_api_key_row_def Let_def)
  ultimately show ?thesis
    using inv 2 unfolding key_inv_def user_exists_iff
    by (cases "ck_org_id req") auto
qed

lemma key_inv_delete: "key_inv st \<Longrightarrow> key_inv (snd (delete_key P k i u ctx st))"
  by (auto simp: delete_key_def Let_def key_inv_def no_clash_delete)

lemma key_touch:
  "r \<in> set (sql_update w (\<lambda>x. x\<lparr>k_last_used_at := t\<rparr>) rs) \<Longrightarrow> k_org_id r = Some g \<Longrightarrow>
     \<exists>r'\<in>set rs. k_org_id r' = Some g"
  "k_user_id ` set (sql_update w (\<lambda>x. x\<lparr>k_last_used_at := t\<rparr>) rs) = k_user_id ` set rs"
  "no_clash api_key_clash rs \<Longrightarrow> no_clash api_key_clash (sql_update w (\<lambda>x. x\<lparr>k_last_used_at := t\<rparr>) rs)"
  by (auto simp: image_sql_update api_key_clash_def sql_update_mem split: if_splits intro!: no_clash_update_frame)

lemma key_inv_resolve: "key_inv st \<Longrightarrow> key_inv (snd (resolve_key P k raw st))"
  by (auto simp: resolve_key_def Let_def key_inv_def key_touch(2,3) dest!: key_touch(1) split: sum.splits)

datatype key_action =
    CreateKey call uuid create_api_key_request request_context
  | DeleteKey call uuid uuid request_context
  | ResolveKey call string

text \<open>A panic leaves the store as it is: it happens before any statement.\<close>

fun key_step :: "ext \<Rightarrow> key_action \<Rightarrow> store \<Rightarrow> store" where
  "key_step P (CreateKey k u req ctx) st =
     (case create_key P k u req ctx st of None \<Rightarrow> st | Some (r, st') \<Rightarrow> st')"
| "key_step P (DeleteKey k i u ctx) st = snd (delete_key P k i u ctx st)"
| "key_step P (ResolveKey k raw) st = snd (resolve_key P k raw st)"

lemma key_step_inv: "key_inv st \<Longrightarrow> key_inv (key_step P a st)"
  by (cases a) (auto simp: key_inv_delete key_inv_resolve key_inv_create split: option.split)

interpretation keys: step_system key_inv "key_step P" for P
  by unfold_locales (rule key_step_inv)

section \<open>Properties\<close>

lemma new_row_fields [simp]:
  "k_user_id (new_api_key_row P k u req sc t) = u"
  "k_key_hash (new_api_key_row P k u req sc t) = sha256_hex P (plaintext_key (random_token (c_rand k 0) 48))"
  "k_expires_at (new_api_key_row P k u req sc t) = t"
  "k_scopes (new_api_key_row P k u req sc t) = Some (JArr (map JStr (scope_to_strings sc)))"
  "k_last_used_at (new_api_key_row P k u req sc t) = None"
  by (simp_all add: new_api_key_row_def Let_def)

lemma find_hash:
  assumes "no_clash api_key_clash rs" "r \<in> set rs" "k_key_hash r = h"
  shows "find (\<lambda>r. k_key_hash r = h) rs = Some r"
  using api_keys.find_uk [OF assms(1,2) TrueI] assms(3) by simp


text \<open>
  What resolving a key decides and writes: it succeeds exactly for a stored, unexpired
  key of a live and unsuspended user; and it writes at most the key's \<open>last_used_at\<close>, and
  that no more than once a minute.
\<close>

theorem resolve_key_decides:
  assumes inv: "key_inv st"
  shows "(fst (resolve_key P k raw st) = Inr (usr, r) \<longleftrightarrow>
            r \<in> set (api_keys st) \<and> k_key_hash r = sha256_hex P raw \<and>
            (\<forall>t. k_expires_at r = Some t \<longrightarrow> c_now k \<le> t) \<and>
            (\<exists>row. live_user_by_id (k_user_id r) st = Some row \<and> \<not> u_banned row \<and> usr = user_of_row row)) \<and>
         snd (resolve_key P k raw st) =
           (case fst (resolve_key P k raw st) of
              Inr (_, r) \<Rightarrow>
                (if \<forall>l. k_last_used_at r = Some l \<longrightarrow> l + minutes 1 < c_now k
                 then st\<lparr>api_keys := sql_update (\<lambda>x. k_id x = k_id r) (\<lambda>x. x\<lparr>k_last_used_at := Some (c_now k)\<rparr>) (api_keys st)\<rparr>
                 else st)
            | Inl _ \<Rightarrow> st)"
proof -
  have nc: "no_clash api_key_clash (api_keys st)" using inv by (simp add: key_inv_def)
  have found: "find (\<lambda>r. k_key_hash r = h) (api_keys st) = Some r \<longleftrightarrow> r \<in> set (api_keys st) \<and> k_key_hash r = h" for h
    by (blast dest: find_Some_mem intro: find_hash [OF nc])
  note resolve_key_row_Inr [of P "c_now k" raw st usr r]
  then have 1: "fst (resolve_key P k raw st) = Inr (usr, r) \<longleftrightarrow>
      r \<in> set (api_keys st) \<and> k_key_hash r = sha256_hex P raw \<and>
      (\<forall>t. k_expires_at r = Some t \<longrightarrow> c_now k \<le> t) \<and>
      (\<exists>row. live_user_by_id (k_user_id r) st = Some row \<and> \<not> u_banned row \<and> usr = user_of_row row)"
    unfolding fst_resolve_key found by (simp only: conj_assoc)
  have touch: "sql_update (\<lambda>x. k_id x = k_id q \<and> (case k_last_used_at x of None \<Rightarrow> True | Some l \<Rightarrow> l < c_now k - minutes 1))
        f (api_keys st) = sql_update (\<lambda>x. k_id x = k_id q) f (api_keys st)"
    if "q \<in> set (api_keys st)" "\<forall>l. k_last_used_at q = Some l \<longrightarrow> l + minutes 1 < c_now k" for q f
  proof (rule sql_update_where_cong)
    fix x assume "x \<in> set (api_keys st)"
    then have "k_id x = k_id q \<Longrightarrow> x = q" by (rule api_keys.pk_unique [OF nc _ that(1)])
    moreover have "case k_last_used_at q of None \<Rightarrow> True | Some l \<Rightarrow> l < c_now k - minutes 1"
      using that(2) by (auto split: option.split)
    ultimately show "(k_id x = k_id q \<and> (case k_last_used_at x of None \<Rightarrow> True | Some l \<Rightarrow> l < c_now k - minutes 1))
        = (k_id x = k_id q)" by blast
  qed
  have mem: "q \<in> set (api_keys st)" if "resolve_key_row P (c_now k) raw st = Inr (v, q)" for v q
    using that by (auto simp: resolve_key_row_def dest!: find_Some_mem split: option.splits if_splits)
  have 2: "needs_touch (c_now k) q \<longleftrightarrow> (\<forall>l. k_last_used_at q = Some l \<longrightarrow> l + minutes 1 < c_now k)" for q
    by (auto simp: needs_touch_def split: option.split)
  show ?thesis
  proof (intro conjI 1)
    show "snd (resolve_key P k raw st) = (case fst (resolve_key P k raw st) of
        Inr (_, r) \<Rightarrow> (if \<forall>l. k_last_used_at r = Some l \<longrightarrow> l + minutes 1 < c_now k
           then st\<lparr>api_keys := sql_update (\<lambda>x. k_id x = k_id r) (\<lambda>x. x\<lparr>k_last_used_at := Some (c_now k)\<rparr>) (api_keys st)\<rparr>
           else st) | Inl _ \<Rightarrow> st)"
      unfolding fst_resolve_key resolve_key_def Let_def 2
      by (auto simp: touch [OF mem] split: sum.split prod.split)
  qed
qed

text \<open>
  Creating a key panics exactly when its scopes are acceptable and the requested number
  of days moves the current time out of the range of chrono's dates (nothing bounds
  \<open>expires_in_days\<close>); every other failure is an error value, and whenever no key is
  returned the stored keys are unchanged.
\<close>

theorem create_key_panics_iff:
  "(create_key P k u req ctx st = None \<longleftrightarrow>
      is_ok (scope_parse_request (ck_scopes req)) \<and>
      (\<exists>n. ck_expires_in_days req = Some n \<and>
           (c_now k + days n < chrono_min P \<or> chrono_max P < c_now k + days n))) \<and>
   (\<forall>e st'. create_key P k u req ctx st = Some (Inl e, st') \<longrightarrow> st' = st)"
proof -
  have "st' = st" if "create_key P k u req ctx st = Some (Inl e, st')" for e st'
    using that by (cases rule: create_key_cases) simp_all
  moreover have "create_key P k u req ctx st = None \<longleftrightarrow>
      is_ok (scope_parse_request (ck_scopes req)) \<and> key_expiry P (c_now k) (ck_expires_in_days req) = None"
    unfolding create_key_def Let_def
    by (cases "scope_parse_request (ck_scopes req)"; cases "key_expiry P (c_now k) (ck_expires_in_days req)")
      (simp_all split: option.split)
  ultimately show ?thesis
    by (auto simp: key_expiry_def Let_def not_le split: option.splits if_splits)
qed

section \<open>A concrete key\<close>

definition sample_key_request :: create_api_key_request where
  "sample_key_request = \<lparr>ck_name = ''ci'', ck_org_id = Some 20, ck_scopes = None, ck_expires_in_days = Some 30\<rparr>"

definition sample_key_row :: api_key_row where
  "sample_key_row = new_api_key_row toy_ext tenant_call 1 sample_key_request wildcard_set (Some (100 + days 30))"

definition key_store :: store where
  "key_store = tenant_store\<lparr>api_keys := [sample_key_row]\<rparr>"

lemma sample_key_created:
  "\<exists>resp st'. create_key toy_ext tenant_call 1 sample_key_request tenant_ctx tenant_store = Some (Inr resp, st') \<and>
     cr_expires_at resp = Some (100 + days 30)"
proof -
  have "scope_parse_request (ck_scopes sample_key_request) = Inr wildcard_set"
    "key_expiry toy_ext (c_now tenant_call) (ck_expires_in_days sample_key_request) = Some (Some (100 + days 30))"
    by (simp_all add: sample_key_request_def scope_parse_request_def key_expiry_def Let_def tenant_call_def
        toy_ext_def days_def)
  moreover have "\<not> 100 + days 30 < pg_min_timestamp" by (simp add: days_def pg_min_timestamp_def)
  moreover have "api_keys tenant_store = []" "user_exists 1 tenant_store"
    "sql_exists (\<lambda>o'. og_id o' = 20) (organizations tenant_store)" "ck_org_id sample_key_request = Some 20"
    by (simp_all add: tenant_defs user_exists_def sql_exists_def sample_key_request_def)
  ultimately show ?thesis
    by (simp add: create_key_def Let_def sql_insert_def)
qed

lemma key_inv_tenant: "key_inv tenant_store" "key_inv key_store"
  by (auto simp: key_inv_def key_store_def tenant_defs sample_key_row_def new_api_key_row_def Let_def
      no_clash_def sample_key_request_def)

lemma tenant_live: "live_user_by_id 1 tenant_store = Some (tenant_user 1)"
  by (simp add: live_user_by_id_def tenant_defs)


theorem resolve_key_decides_witness:
  "fst (resolve_key toy_ext tenant_call (plaintext_key (random_token (c_rand tenant_call 0) 48)) key_store)
     = Inr (user_of_row (tenant_user 1), sample_key_row)"
proof -
  have "sample_key_row \<in> set (api_keys key_store)" by (simp add: key_store_def)
  moreover have "k_key_hash sample_key_row = sha256_hex toy_ext (plaintext_key (random_token (c_rand tenant_call 0) 48))"
    "k_expires_at sample_key_row = Some (100 + days 30)" "k_user_id sample_key_row = 1"
    by (simp_all add: sample_key_row_def)
  moreover have "live_user_by_id 1 key_store = Some (tenant_user 1)"
    using tenant_live by (simp add: key_store_def live_user_by_id_def)
  moreover have "c_now tenant_call \<le> 100 + days 30" "\<not> u_banned (tenant_user 1)"
    by (simp_all add: days_def tenant_defs)
  ultimately show ?thesis
    using resolve_key_decides [OF key_inv_tenant(2), of toy_ext tenant_call
        "plaintext_key (random_token (c_rand tenant_call 0) 48)" "user_of_row (tenant_user 1)" sample_key_row]
    by simp
qed

theorem create_key_panics_iff_witness:
  "create_key toy_ext tenant_call 1 (sample_key_request\<lparr>ck_expires_in_days := Some 100000000\<rparr>) tenant_ctx tenant_store = None"
  using create_key_panics_iff [of toy_ext tenant_call 1 "sample_key_request\<lparr>ck_expires_in_days := Some 100000000\<rparr>" tenant_ctx tenant_store]
  by (simp add: sample_key_request_def scope_parse_request_def days_def tenant_call_def toy_ext_def)

end
