(* ===== verification/Extractors.thy ===== *)
theory Extractors
  imports ApiKeys
begin

text \<open>
  How a request becomes a caller: its headers, the credential it presents
  (\<open>src/middleware/auth.rs\<close>), the remote key set for single sign-on
  (\<open>src/crypto/jwks.rs\<close>), the application it names (\<open>src/middleware/app_context.rs\<close>) and the
  address the rate limiter counts it under (\<open>src/middleware/rate_limit.rs\<close>).  The HTTP
  client, the RSA and JWT functions of single sign-on and the address parser are parameters.
\<close>

section \<open>Requests\<close>

record request =
  rq_method :: string
  rq_path :: string
  rq_headers :: "(string \<times> string) list"  \<comment> \<open>lower-case names, in order\<close>
  rq_peer :: "string option"  \<comment> \<open>the address of \<open>ConnectInfo\<close>, printed\<close>
  rq_body :: "nat list"

text \<open>\<open>headers().get(name).and_then(|v| v.to_str().ok())\<close>: visible ASCII, blanks and tabs only.\<close>

definition header_text_ok :: "string \<Rightarrow> bool" where
  "header_text_ok v = list_all (\<lambda>c. let n = of_char c :: nat in (32 \<le> n \<and> n < 127) \<or> n = 9) v"

definition header_str :: "string \<Rightarrow> request \<Rightarrow> string option" where
  "header_str name rq =
     (case map_of (rq_headers rq) name of
        None \<Rightarrow> None
      | Some v \<Rightarrow> if header_text_ok v then Some v else None)"

section \<open>Credentials\<close>

datatype credential =
    Session uuid
  | ApiKey uuid scope_set
  | SsoRemote "string option"

definition scope_missing :: "api_scope \<Rightarrow> app_error" where
  "scope_missing s = Forbidden (''This API key does not carry the '' @ quoted (scope_str s) @ '' scope'')"

fun cred_require_scope :: "credential \<Rightarrow> api_scope \<Rightarrow> unit result" where
  "cred_require_scope (Session _) s = Inr ()"
| "cred_require_scope (SsoRemote _) s = Inr ()"
| "cred_require_scope (ApiKey _ scopes) s = (if scope_contains scopes s then Inr () else Inl (scope_missing s))"

record auth_user =
  au_id :: uuid
  au_email :: string
  au_role :: string
  au_email_verified :: bool
  au_credential :: credential

definition is_admin :: "auth_user \<Rightarrow> bool" where
  "is_admin au \<longleftrightarrow> au_role au = ''admin''"

definition cred_session_id :: "auth_user \<Rightarrow> uuid option" where
  "cred_session_id au = (case au_credential au of Session sid \<Rightarrow> Some sid | ApiKey _ _ \<Rightarrow> None | SsoRemote _ \<Rightarrow> None)"

definition require_scope :: "auth_user \<Rightarrow> api_scope \<Rightarrow> unit result" where
  "require_scope au s = cred_require_scope (au_credential au) s"

record admin_user =
  ad_id :: uuid
  ad_email :: string
  ad_credential :: credential

record session_caller =
  sc_id :: uuid
  sc_session_id :: uuid
  sc_email :: string
  sc_role :: string

definition admin_require_scope :: "admin_user \<Rightarrow> api_scope \<Rightarrow> unit result" where
  "admin_require_scope a s = cred_require_scope (ad_credential a) s"

section \<open>Single sign-on\<close>

record jwks_key =
  jk_kid :: "string option"
  jk_n :: "string option"
  jk_e :: "string option"

record remote_claims =
  rm_sub :: string
  rm_email :: "string option"
  rm_role :: "string option"
  rm_email_verified :: "bool option"
  rm_iss :: "string option"

text \<open>A decoding key is the pair of its RSA components; what the JWT crate is told to check.\<close>

type_synonym decoding_key = "string \<times> string"

record jwt_validation =
  jv_alg :: string
  jv_issuer :: "string option"
  jv_audience :: "string option"
  jv_validate_aud :: bool

text \<open>
  Outside: the header of a token (algorithm and key id), whether RSA components are a key,
  validated decoding at a moment (or its error text), and fetching the key set (an error text,
  or the status and the parsed keys or a parse error).
\<close>

record sso =
  jw_header :: "string \<Rightarrow> (string \<times> string option) option"
  jw_rsa :: "string \<Rightarrow> string \<Rightarrow> bool"
  jw_decode :: "time \<Rightarrow> string \<Rightarrow> decoding_key \<Rightarrow> jwt_validation \<Rightarrow> string + remote_claims"
  jw_fetch :: "time \<Rightarrow> string \<Rightarrow> string + (nat \<times> (string + jwks_key list))"

type_synonym key_map = "string \<rightharpoonup> decoding_key"

record jwks_client =
  jc_url :: string
  jc_issuer :: "string option"
  jc_audience :: "string option"
  jc_cache :: "(key_map \<times> time) option"
  jc_ttl :: int

definition jwks_new :: "string \<Rightarrow> string option \<Rightarrow> string option \<Rightarrow> jwks_client" where
  "jwks_new url issuer audience =
     \<lparr>jc_url = url, jc_issuer = issuer, jc_audience = audience, jc_cache = None, jc_ttl = seconds (60 * 60)\<rparr>"

text \<open>The loop over the fetched keys: those with a key id and usable RSA components; a later one wins.\<close>

fun load_keys :: "(string \<Rightarrow> string \<Rightarrow> bool) \<Rightarrow> jwks_key list \<Rightarrow> key_map \<Rightarrow> key_map" where
  "load_keys rsa [] m = m"
| "load_keys rsa (k # ks) m =
     load_keys rsa ks
       (case (jk_kid k, jk_n k, jk_e k) of
          (Some kid, Some n, Some e) \<Rightarrow> if rsa n e then m(kid \<mapsto> (n, e)) else m
        | _ \<Rightarrow> m)"

definition cached_keys :: "time \<Rightarrow> jwks_client \<Rightarrow> key_map option" where
  "cached_keys now c =
     (case jc_cache c of
        Some (keys, fetched_at) \<Rightarrow> if now - fetched_at < jc_ttl c then Some keys else None
      | None \<Rightarrow> None)"

definition get_keys :: "sso \<Rightarrow> time \<Rightarrow> jwks_client \<Rightarrow> key_map result \<times> jwks_client" where
  "get_keys S now c =
     (case cached_keys now c of
        Some keys \<Rightarrow> (Inr keys, c)
      | None \<Rightarrow>
        (case jw_fetch S now (jc_url c) of
           Inl e \<Rightarrow> (Inl (Internal (''Failed to fetch remote JWKS: '' @ e)), c)
         | Inr (status, body) \<Rightarrow>
             if \<not> (200 \<le> status \<and> status < 300)
             then (Inl (Internal (''Remote JWKS returned HTTP status: '' @ nat_str status)), c)
             else (case body of
                     Inl e \<Rightarrow> (Inl (Internal (''Failed to parse remote JWKS response: '' @ e)), c)
                   | Inr ks \<Rightarrow>
                       (let m = load_keys (jw_rsa S) ks Map.empty in
                        (Inr m, c\<lparr>jc_cache := Some (m, now)\<rparr>)))))"

definition validation_for :: "string \<Rightarrow> jwks_client \<Rightarrow> jwt_validation" where
  "validation_for alg c =
     \<lparr>jv_alg = alg, jv_issuer = jc_issuer c, jv_audience = jc_audience c, jv_validate_aud = (jc_audience c \<noteq> None)\<rparr>"

definition verify_token :: "sso \<Rightarrow> time \<Rightarrow> string \<Rightarrow> jwks_client \<Rightarrow> remote_claims result \<times> jwks_client" where
  "verify_token S now token c =
     (case jw_header S token of
        None \<Rightarrow> (Inl (Unauthorized ''Invalid JWT header format''), c)
      | Some (alg, None) \<Rightarrow> (Inl (Unauthorized (''JWT header missing '' @ quoted ''kid'' @ '' key identifier'')), c)
      | Some (alg, Some kid) \<Rightarrow>
        (case get_keys S now c of
           (Inl e, c') \<Rightarrow> (Inl e, c')
         | (Inr keys, c') \<Rightarrow>
           (case keys kid of
              None \<Rightarrow> (Inl (Unauthorized (''Unknown key identifier '' @ quoted (''kid='' @ kid))), c')
            | Some key \<Rightarrow>
              (case jw_decode S now token key (validation_for alg c') of
                 Inl e \<Rightarrow> (Inl (Unauthorized (''Remote token validation failed: '' @ e)), c')
               | Inr claims \<Rightarrow> (Inr claims, c')))))"

section \<open>Authentication\<close>

definition bearer_token :: "request \<Rightarrow> string result" where
  "bearer_token rq =
     and_then (ok_or (Unauthorized ''Missing Authorization header'') (header_str ''authorization'' rq))
       (\<lambda>h. ok_or (Unauthorized ''Invalid Authorization header scheme'') (strip_prefix ''Bearer '' h))"

text \<open>The identity the idempotency layer keys on; only the token's signature is checked.\<close>

definition bearer_identity :: "ext \<Rightarrow> app_config \<Rightarrow> time \<Rightarrow> request \<Rightarrow> (uuid \<times> uuid) option" where
  "bearer_identity P cfg now rq =
     (case Option.bind (header_str ''authorization'' rq) (strip_prefix ''Bearer '') of
        None \<Rightarrow> None
      | Some token \<Rightarrow>
        (case res_ok (verify_access_token P now token (expose (jwt_secret cfg))) of
           None \<Rightarrow> None
         | Some c \<Rightarrow>
             (case (uuid_parse P (cl_sub c), uuid_parse P (cl_sid c)) of
                (Some u, Some s) \<Rightarrow> Some (u, s)
              | _ \<Rightarrow> None)))"

definition sso_user :: "ext \<Rightarrow> call \<Rightarrow> remote_claims \<Rightarrow> auth_user" where
  "sso_user P k c =
     (let user_id = unwrap_or (uuid_parse P (rm_sub c)) (c_uuid k 0) in
      \<lparr>au_id = user_id, au_email = unwrap_or (rm_email c) (uuid_str P user_id @ ''@sso.local''),
       au_role = unwrap_or (rm_role c) ''member'', au_email_verified = unwrap_or (rm_email_verified c) True,
       au_credential = SsoRemote (rm_iss c)\<rparr>)"

text \<open>The branch for a token this service signed itself.\<close>

definition session_auth :: "ext \<Rightarrow> time \<Rightarrow> claims \<Rightarrow> store \<Rightarrow> auth_user result" where
  "session_auth P now c st =
     and_then (ok_or (Unauthorized ''Malformed user ID in token'') (uuid_parse P (cl_sub c))) (\<lambda>user_id.
     and_then (ok_or (Unauthorized ''Malformed session ID in token'') (uuid_parse P (cl_sid c))) (\<lambda>session_id.
     and_then (resolve_session now user_id session_id st) (\<lambda>u.
       Inr \<lparr>au_id = u_id u, au_email = u_email u, au_role = u_role u, au_email_verified = u_email_verified u,
            au_credential = Session session_id\<rparr>)))"

definition key_user :: "user \<Rightarrow> api_key_row \<Rightarrow> auth_user" where
  "key_user u r = \<lparr>au_id = u_id u, au_email = u_email u, au_role = u_role u,
     au_email_verified = u_email_verified u,
     au_credential = ApiKey (k_id r) (scope_from_stored (k_scopes r))\<rparr>"

text \<open>
  The whole of \<open>authenticate\<close>: the store changes when a key's \<open>last_used_at\<close> is touched, the
  key-set client when it fetches.
\<close>

definition authenticate ::
  "ext \<Rightarrow> sso \<Rightarrow> app_config \<Rightarrow> call \<Rightarrow> request \<Rightarrow> jwks_client option \<Rightarrow> store
     \<Rightarrow> auth_user result \<times> jwks_client option \<times> store" where
  "authenticate P S cfg k rq jc st =
     (case header_str ''x-api-key'' rq of
        Some api_key \<Rightarrow>
          (case resolve_key P k api_key st of
             (Inl e, st') \<Rightarrow> (Inl e, jc, st')
           | (Inr (u, r), st') \<Rightarrow> (Inr (key_user u r), jc, st'))
      | None \<Rightarrow>
        (case bearer_token rq of
           Inl e \<Rightarrow> (Inl e, jc, st)
         | Inr token \<Rightarrow>
           (case verify_access_token P (c_now k) token (expose (jwt_secret cfg)) of
              Inr c \<Rightarrow> (session_auth P (c_now k) c st, jc, st)
            | Inl local_err \<Rightarrow>
              (case jc of
                 None \<Rightarrow> (Inl local_err, jc, st)
               | Some client \<Rightarrow>
                 (case verify_token S (c_now k) token client of
                    (Inl e, client') \<Rightarrow> (Inl e, Some client', st)
                  | (Inr c, client') \<Rightarrow> (Inr (sso_user P k c), Some client', st))))))"

text \<open>The extractors, on what \<open>authenticate\<close> answers.\<close>

definition optional_auth :: "auth_user result \<Rightarrow> auth_user option" where
  "optional_auth r = res_ok r"

definition admin_auth :: "auth_user result \<Rightarrow> admin_user result" where
  "admin_auth r =
     and_then r (\<lambda>au.
       if \<not> is_admin au then Inl (Forbidden ''Access forbidden: admin privileges required'')
       else and_then (require_scope au ScopeAdmin) (\<lambda>_.
         Inr \<lparr>ad_id = au_id au, ad_email = au_email au, ad_credential = au_credential au\<rparr>))"

definition session_caller_auth :: "auth_user result \<Rightarrow> session_caller result" where
  "session_caller_auth r =
     and_then r (\<lambda>au.
     and_then (ok_or (Forbidden ''This operation requires an interactive session; API keys cannot perform it'')
                 (cred_session_id au)) (\<lambda>sid.
       Inr \<lparr>sc_id = au_id au, sc_session_id = sid, sc_email = au_email au, sc_role = au_role au\<rparr>))"

section \<open>The address of a request\<close>

definition first_forwarded :: "request \<Rightarrow> string option" where
  "first_forwarded rq = map_option (\<lambda>v. str_trim (hd (split_on (CHR '','') v))) (header_str ''x-forwarded-for'' rq)"

definition request_context_of :: "app_config \<Rightarrow> request \<Rightarrow> request_context" where
  "request_context_of cfg rq =
     \<lparr>rc_ip_address =
        or_else (if trust_proxy_headers cfg
                 then or_else (first_forwarded rq) (header_str ''x-real-ip'' rq)
                 else None)
                (rq_peer rq),
      rc_user_agent = map_option (\<lambda>v. of_chars (take 512 (chars v))) (header_str ''user-agent'' rq)\<rparr>"

text \<open>The rate limiter's key; \<open>ip_parse\<close> is the standard library's address parser.  \<open>None\<close> is an error.\<close>

definition rate_limit_key :: "(string \<Rightarrow> string option) \<Rightarrow> bool \<Rightarrow> request \<Rightarrow> string option" where
  "rate_limit_key ip_parse trust rq =
     (let forwarded = or_else (Option.bind (first_forwarded rq) ip_parse)
                              (Option.bind (header_str ''x-real-ip'' rq) (\<lambda>v. ip_parse (str_trim v))) in
      if trust \<and> forwarded \<noteq> None then forwarded else rq_peer rq)"

section \<open>The application a request names\<close>

record app_context =
  ac_app_id :: uuid
  ac_name :: string
  ac_slug :: string
  ac_owner_id :: uuid
  ac_is_owner :: bool

text \<open>\<open>EXISTS\<close> over the join of memberships and organizations.\<close>

definition app_member :: "uuid \<Rightarrow> uuid \<Rightarrow> store \<Rightarrow> bool" where
  "app_member app_id user_id st =
     list_ex (\<lambda>m. m_user_id m = user_id \<and>
       list_ex (\<lambda>g. og_id g = m_org_id m \<and> og_app_id g = app_id) (organizations st)) (org_members st)"

definition app_context_of :: "ext \<Rightarrow> request \<Rightarrow> auth_user result \<Rightarrow> store \<Rightarrow> app_context result" where
  "app_context_of P rq r st =
     and_then r (\<lambda>au.
     and_then (ok_or (BadRequest (''Missing required '' @ quoted ''X-Application-ID'' @ '' header''))
                 (header_str ''x-application-id'' rq)) (\<lambda>raw.
     and_then (ok_or (BadRequest (''Malformed '' @ quoted ''X-Application-ID'' @ '' UUID'')) (uuid_parse P raw)) (\<lambda>app_id.
     and_then (ok_or (NotFound ''Application not found'') (find (\<lambda>a. ap_id a = app_id) (apps st))) (\<lambda>app.
       let is_owner = (ap_owner_id app = au_id au \<or> is_admin au) in
       if \<not> is_owner \<and> \<not> app_member app_id (au_id au) st
       then Inl (Forbidden ''You do not have access to this application'')
       else Inr \<lparr>ac_app_id = ap_id app, ac_name = ap_name app, ac_slug = ap_slug app,
                 ac_owner_id = ap_owner_id app, ac_is_owner = is_owner\<rparr>))))"

section \<open>Identity sources\<close>

lemma user_of_row_fields [simp]:
  "u_id (user_of_row r) = u_id r" "u_role (user_of_row r) = u_role r" "u_email (user_of_row r) = u_email r"
  "u_email_verified (user_of_row r) = u_email_verified r" "u_banned (user_of_row r) = u_banned r"
  by (simp_all add: user.truncate_def)

text \<open>
  The contract of a local credential check: whom it accepts is backed by a live, unsuspended
  row of \<open>users\<close>, whose fields it returns.
\<close>

locale identity_source =
  fixes resolve :: "'c \<Rightarrow> store \<Rightarrow> user result"
  assumes backed: "resolve c st = Inr u \<Longrightarrow>
    \<exists>row\<in>set (users st). u_deleted_at row = None \<and> \<not> u_banned row \<and> u = user_of_row row"
begin

lemma refuses_banned:
  assumes "\<And>row. row \<in> set (users st) \<Longrightarrow> u_id row = i \<Longrightarrow> u_deleted_at row \<noteq> None \<or> u_banned row"
  shows "resolve c st \<noteq> Inr u \<or> u_id u \<noteq> i"
proof (rule ccontr)
  assume "\<not> (resolve c st \<noteq> Inr u \<or> u_id u \<noteq> i)"
  with backed [of c st u] obtain row
    where "row \<in> set (users st)" "u_deleted_at row = None" "\<not> u_banned row" "u_id row = i" by auto
  with assms show False by blast
qed

end

lemma live_row_by_id:
  "live_user_by_id i st = Some row \<Longrightarrow> row \<in> set (users st) \<and> u_id row = i \<and> u_deleted_at row = None"
  by (auto simp: live_user_by_id_def dest!: find_Some_mem)

interpretation by_session: identity_source "\<lambda>(now, uid, sid) st. resolve_session now uid sid st"
  by unfold_locales
    (auto simp: resolve_session_def session_user_def dest!: live_row_by_id split: option.splits if_splits, blast)

interpretation by_key: identity_source "\<lambda>(P, now, raw) st. map_sum id fst (resolve_key_row P now raw st)"
proof unfold_locales
  fix c :: "ext \<times> time \<times> string" and st u
  obtain P now raw where c: "c = (P, now, raw)" by (cases c)
  assume "(case c of (P, now, raw) \<Rightarrow> \<lambda>st. map_sum id fst (resolve_key_row P now raw st)) st = Inr u"
  then obtain r where "resolve_key_row P now raw st = Inr (u, r)"
    by (cases "resolve_key_row P now raw st") (auto simp: c)
  then show "\<exists>row\<in>set (users st). u_deleted_at row = None \<and> \<not> u_banned row \<and> u = user_of_row row"
    by (auto simp: resolve_key_row_Inr dest: live_row_by_id)
qed

text \<open>What the three branches of \<open>authenticate\<close> accept.\<close>

lemma authenticate_key:
  assumes "header_str ''x-api-key'' rq = Some raw"
  shows "fst (authenticate P S cfg k rq jc st) = map_sum id (\<lambda>(u, r). key_user u r) (resolve_key_row P (c_now k) raw st)"
  using fst_resolve_key [of P k raw st]
  by (cases "resolve_key P k raw st") (auto simp: authenticate_def assms split: sum.split prod.split)

lemma authenticate_cases:
  assumes "fst (authenticate P S cfg k rq jc st) = Inr au"
  obtains (key) raw u r where "header_str ''x-api-key'' rq = Some raw"
      "resolve_key_row P (c_now k) raw st = Inr (u, r)" "au = key_user u r"
  | (session) token c where "header_str ''x-api-key'' rq = None" "bearer_token rq = Inr token"
      "verify_access_token P (c_now k) token (expose (jwt_secret cfg)) = Inr c"
      "session_auth P (c_now k) c st = Inr au"
  | (sso) token client c where "header_str ''x-api-key'' rq = None" "bearer_token rq = Inr token"
      "\<not> is_ok (verify_access_token P (c_now k) token (expose (jwt_secret cfg)))" "jc = Some client"
      "fst (verify_token S (c_now k) token client) = Inr c" "au = sso_user P k c"
proof (cases "header_str ''x-api-key'' rq")
  case (Some raw)
  with assms key show ?thesis
    by (cases "resolve_key_row P (c_now k) raw st") (auto simp: authenticate_key [OF Some])
next
  case None
  with assms obtain token where token: "bearer_token rq = Inr token"
    by (cases "bearer_token rq") (auto simp: authenticate_def)
  show ?thesis
  proof (cases "verify_access_token P (c_now k) token (expose (jwt_secret cfg))")
    case (Inr c)
    with None token assms session show ?thesis by (auto simp: authenticate_def)
  next
    case (Inl e)
    with None token assms obtain client where client: "jc = Some client"
      by (cases jc) (auto simp: authenticate_def)
    obtain r client' where v: "verify_token S (c_now k) token client = (r, client')" by fastforce
    with None token Inl client assms obtain c where "r = Inr c" "au = sso_user P k c"
      by (cases r) (auto simp: authenticate_def)
    with None token Inl client v sso show ?thesis by auto
  qed
qed

lemma key_user_fields [simp]:
  "au_credential (key_user u r) = ApiKey (k_id r) (scope_from_stored (k_scopes r))"
  "au_id (key_user u r) = u_id u" "au_role (key_user u r) = u_role u" "au_email (key_user u r) = u_email u"
  "au_email_verified (key_user u r) = u_email_verified u"
  by (simp_all add: key_user_def)

lemma sso_user_fields [simp]: "au_credential (sso_user P k c) = SsoRemote (rm_iss c)"
  by (simp add: sso_user_def Let_def)

lemma session_auth_Inr:
  "session_auth P now c st = Inr au \<longleftrightarrow>
     (\<exists>uid sid u. uuid_parse P (cl_sub c) = Some uid \<and> uuid_parse P (cl_sid c) = Some sid \<and>
        resolve_session now uid sid st = Inr u \<and>
        au = \<lparr>au_id = u_id u, au_email = u_email u, au_role = u_role u,
              au_email_verified = u_email_verified u, au_credential = Session sid\<rparr>)"
  unfolding session_auth_def and_then_Inr ok_or_Inr by blast

section \<open>Properties\<close>

text \<open>
  C19. For a session or an API key the database decides, not the token: the caller is a live,
  unsuspended user whose id, e-mail, verification and role are those of the user's row at
  this moment; the scopes of a key are those stored with it.
\<close>

theorem local_credentials_follow_the_database:
  assumes "fst (authenticate P S cfg k rq jc st) = Inr au" and "\<forall>iss. au_credential au \<noteq> SsoRemote iss"
  shows "\<exists>row\<in>set (users st). u_deleted_at row = None \<and> \<not> u_banned row \<and>
           au_id au = u_id row \<and> au_role au = u_role row \<and> au_email au = u_email row \<and>
           au_email_verified au = u_email_verified row \<and>
           (\<forall>i S. au_credential au = ApiKey i S \<longrightarrow>
              (\<exists>r\<in>set (api_keys st). k_id r = i \<and> k_user_id r = u_id row \<and> S = scope_from_stored (k_scopes r))) \<and>
           (\<forall>sid. au_credential au = Session sid \<longrightarrow>
              (\<exists>s\<in>set (sessions st). s_id s = sid \<and> s_user_id s = u_id row \<and> s_revoked_at s = None))"
  using assms(1)
proof (cases rule: authenticate_cases)
  case (key raw u r)
  from by_key.backed [of "(P, c_now k, raw)" st u] key(2)
  obtain row where row: "row \<in> set (users st)" "u_deleted_at row = None" "\<not> u_banned row" "u = user_of_row row"
    by auto
  moreover have "r \<in> set (api_keys st)" "k_user_id r = u_id u"
    using key(2) by (auto simp: resolve_key_row_Inr dest: find_Some_mem live_row_by_id)
  ultimately show ?thesis using key(3) by auto
next
  case (session token c)
  then obtain uid sid u where s: "resolve_session (c_now k) uid sid st = Inr u"
    and au: "au = \<lparr>au_id = u_id u, au_email = u_email u, au_role = u_role u,
              au_email_verified = u_email_verified u, au_credential = Session sid\<rparr>"
    by (auto simp: session_auth_Inr)
  from by_session.backed [of "(c_now k, uid, sid)" st u] s
  obtain row where row: "row \<in> set (users st)" "u_deleted_at row = None" "\<not> u_banned row" "u = user_of_row row"
    by auto
  moreover have "\<exists>s\<in>set (sessions st). s_id s = sid \<and> s_user_id s = u_id u \<and> s_revoked_at s = None"
    using s by (auto simp: resolve_session_def session_user_def
        dest!: find_Some_mem live_row_by_id split: option.splits if_splits) blast
  ultimately show ?thesis unfolding au by auto
qed (use assms(2) in simp)


text \<open>
  Single sign-on trusts the token, not the database: a caller the remote issuer vouches
  for gets the role the token claims, whatever the local tables say - a suspended or deleted
  local account with that id included.
\<close>

theorem sso_identity_ignores_the_database:
  assumes "fst (authenticate P S cfg k rq jc st) = Inr au" and "au_credential au = SsoRemote iss"
  shows "fst (authenticate P S cfg k rq jc st') = Inr au \<and>
         (\<exists>token client c. bearer_token rq = Inr token \<and> jc = Some client \<and>
            fst (verify_token S (c_now k) token client) = Inr c \<and> au_role au = unwrap_or (rm_role c) ''member'')"
  using assms(1)
proof (cases rule: authenticate_cases)
  case (session token c)
  with assms(2) show ?thesis by (auto simp: session_auth_Inr)
next
  case (sso token client c)
  then obtain e where "verify_access_token P (c_now k) token (expose (jwt_secret cfg)) = Inl e"
    by (cases "verify_access_token P (c_now k) token (expose (jwt_secret cfg))") auto
  with sso show ?thesis
    by (cases "verify_token S (c_now k) token client") (auto simp: authenticate_def sso_user_def Let_def)
qed (use assms(2) in simp)

text \<open>
  Forwarded headers count only behind a trusted proxy: without \<open>TRUST_PROXY_HEADERS\<close> the
  recorded address and the rate limiter's bucket are the peer's, whatever the headers say.
\<close>

theorem forwarded_headers_need_trust:
  assumes "\<not> trust_proxy_headers cfg"
  shows "rc_ip_address (request_context_of cfg rq) = rq_peer rq \<and>
         rate_limit_key ip_parse (trust_proxy_headers cfg) rq = rq_peer rq \<and>
         request_context_of cfg (rq\<lparr>rq_headers := (name, v) # rq_headers rq\<rparr>)
           = (request_context_of cfg rq)\<lparr>rc_user_agent := rc_user_agent (request_context_of cfg (rq\<lparr>rq_headers := (name, v) # rq_headers rq\<rparr>))\<rparr>"
  using assms by (simp add: request_context_of_def rate_limit_key_def Let_def)

text \<open>
  Who may act within an application: exactly its owner, an administrator, and the members
  of an organization under it; the context says owner exactly for the first two.
\<close>

theorem app_context_access:
  assumes "org_inv st"
  shows "app_context_of P rq (Inr au) st = Inr c \<longleftrightarrow>
         (\<exists>raw app. header_str ''x-application-id'' rq = Some raw \<and> uuid_parse P raw = Some (ap_id app) \<and>
            app \<in> set (apps st) \<and>
            c = \<lparr>ac_app_id = ap_id app, ac_name = ap_name app, ac_slug = ap_slug app, ac_owner_id = ap_owner_id app,
                 ac_is_owner = (ap_owner_id app = au_id au \<or> au_role au = ''admin'')\<rparr> \<and>
            (ap_owner_id app = au_id au \<or> au_role au = ''admin'' \<or>
             (\<exists>g\<in>set (organizations st). og_app_id g = ap_id app \<and>
                (\<exists>m\<in>set (org_members st). m_org_id m = og_id g \<and> m_user_id m = au_id au))))"
proof -
  have nc: "no_clash app_clash (apps st)" using assms by (simp add: org_inv_def)
  have found: "find (\<lambda>a. ap_id a = i) (apps st) = Some app \<longleftrightarrow> app \<in> set (apps st) \<and> ap_id app = i" for i app
    by (blast dest: find_Some_mem intro: apps.find_pk [OF nc])
  have member: "app_member i u st \<longleftrightarrow> (\<exists>g\<in>set (organizations st). og_app_id g = i \<and>
      (\<exists>m\<in>set (org_members st). m_org_id m = og_id g \<and> m_user_id m = u))" for i u
    unfolding app_member_def list_ex_iff by metis
  have "app_context_of P rq (Inr au) st = Inr c \<longleftrightarrow>
     (\<exists>raw i app. header_str ''x-application-id'' rq = Some raw \<and> uuid_parse P raw = Some i \<and>
        find (\<lambda>a. ap_id a = i) (apps st) = Some app \<and>
        (ap_owner_id app = au_id au \<or> is_admin au \<or> app_member i (au_id au) st) \<and>
        c = \<lparr>ac_app_id = ap_id app, ac_name = ap_name app, ac_slug = ap_slug app, ac_owner_id = ap_owner_id app,
             ac_is_owner = (ap_owner_id app = au_id au \<or> is_admin au)\<rparr>)"
    unfolding app_context_of_def and_then_Inr ok_or_Inr Let_def by auto
  then show ?thesis unfolding found member is_admin_def by blast
qed

section \<open>Concrete requests\<close>

definition sample_request :: "(string \<times> string) list \<Rightarrow> request" where
  "sample_request hs = \<lparr>rq_method = ''GET'', rq_path = ''/'', rq_headers = hs, rq_peer = Some ''10.0.0.9'', rq_body = []\<rparr>"

definition sample_raw_key :: string where
  "sample_raw_key = plaintext_key (random_token (c_rand tenant_call 0) 48)"

definition sample_sso :: sso where
  "sample_sso = \<lparr>jw_header = (\<lambda>t. Some (''RS256'', Some ''k'')), jw_rsa = (\<lambda>n e. True),
     jw_decode = (\<lambda>now t key v. Inr \<lparr>rm_sub = ''1'', rm_email = None, rm_role = Some ''admin'',
        rm_email_verified = None, rm_iss = Some ''idp''\<rparr>),
     jw_fetch = (\<lambda>now u. Inr (200, Inr [\<lparr>jk_kid = Some ''k'', jk_n = Some ''n'', jk_e = Some ''e''\<rparr>]))\<rparr>"

definition sample_config :: app_config where
  "sample_config = for_testing toy_ext ''db''"

lemma sample_raw_key: "sample_raw_key = ''ak_live_'' @ replicate 48 (CHR ''r'')"
  by (simp add: sample_raw_key_def plaintext_key_def random_token_def tenant_call_def map_replicate_const)

lemma sample_key_header: "header_str ''x-api-key'' (sample_request [(''x-api-key'', sample_raw_key)]) = Some sample_raw_key"
  by (simp add: header_str_def sample_request_def sample_raw_key header_text_ok_def list_all_iff Let_def)

lemma sample_key_resolves:
  "resolve_key_row toy_ext (c_now tenant_call) sample_raw_key key_store = Inr (user_of_row (tenant_user 1), sample_key_row)"
proof -
  have "live_user_by_id 1 key_store = Some (tenant_user 1)" "\<not> u_banned (tenant_user 1)"
    "c_now tenant_call \<le> 100 + days 30"
    using tenant_live by (simp_all add: key_store_def live_user_by_id_def tenant_user_def days_def tenant_call_def)
  then show ?thesis
    unfolding resolve_key_row_Inr
    by (simp add: key_store_def sample_key_row_def sample_raw_key_def)
qed

lemma sample_key_auth:
  "fst (authenticate toy_ext sample_sso sample_config tenant_call (sample_request [(''x-api-key'', sample_raw_key)]) None key_store)
     = Inr (key_user (user_of_row (tenant_user 1)) sample_key_row)"
  unfolding authenticate_key [OF sample_key_header] sample_key_resolves by simp

theorem local_credentials_follow_the_database_witness:
  "\<exists>row\<in>set (users key_store). u_id row = 1 \<and> u_deleted_at row = None"
  using local_credentials_follow_the_database [OF sample_key_auth]
  by (auto simp: tenant_user_def)


lemma sample_bearer:
  "header_str ''x-api-key'' (sample_request [(''authorization'', ''Bearer x'')]) = None"
  "bearer_token (sample_request [(''authorization'', ''Bearer x'')]) = Inr ''x''"
  by (simp_all add: header_str_def bearer_token_def sample_request_def header_text_ok_def)

lemma sample_not_local: "verify_access_token toy_ext now ''x'' s = Inl (Unauthorized ''Invalid or expired authentication token'')"
  by (simp add: verify_access_token_def toy_ext_def toy_jwt_decode_def)

theorem sso_identity_ignores_the_database_witness:
  "\<exists>au. fst (authenticate toy_ext sample_sso sample_config tenant_call (sample_request [(''authorization'', ''Bearer x'')])
       (Some (jwks_new ''u'' None None)) empty_store) = Inr au \<and> au_role au = ''admin''"
proof -
  let ?rq = "sample_request [(''authorization'', ''Bearer x'')]" and ?jc = "Some (jwks_new ''u'' None None)"
  let ?c = "\<lparr>rm_sub = ''1'', rm_email = None, rm_role = Some ''admin'', rm_email_verified = None, rm_iss = Some ''idp''\<rparr>"
  have v: "fst (verify_token sample_sso now t (jwks_new u None None)) = Inr ?c" for now t u
    by (simp add: verify_token_def sample_sso_def jwks_new_def get_keys_def cached_keys_def Let_def)
  obtain cl where "verify_token sample_sso (c_now tenant_call) ''x'' (jwks_new ''u'' None None) = (Inr ?c, cl)"
    using v by (metis prod.collapse)
  then have a: "fst (authenticate toy_ext sample_sso sample_config tenant_call ?rq ?jc key_store) = Inr (sso_user toy_ext tenant_call ?c)"
    by (simp add: authenticate_def sample_bearer sample_not_local)
  have "au_credential (sso_user toy_ext tenant_call ?c) = SsoRemote (Some ''idp'')" by simp
  from sso_identity_ignores_the_database [OF a this, of empty_store]
  show ?thesis by (auto simp: sso_user_def Let_def)
qed

theorem forwarded_headers_need_trust_witness:
  "rc_ip_address (request_context_of (sample_config\<lparr>trust_proxy_headers := False\<rparr>)
     (sample_request [(''x-forwarded-for'', ''1.2.3.4'')])) = Some ''10.0.0.9''"
  using forwarded_headers_need_trust [of "sample_config\<lparr>trust_proxy_headers := False\<rparr>"
      "sample_request [(''x-forwarded-for'', ''1.2.3.4'')]"]
  by (simp add: sample_request_def)

theorem app_context_access_witness:
  "\<exists>c. app_context_of toy_ext (sample_request [(''x-application-id'', nat_str 10)])
     (Inr (key_user (user_of_row (tenant_user 1)) sample_key_row)) tenant_store = Inr c \<and> ac_is_owner c"
proof -
  have "list_all (\<lambda>c. let n = of_char c :: nat in (32 \<le> n \<and> n < 127) \<or> n = 9) (nat_str 10)"
    by code_simp
  then have "header_str ''x-application-id'' (sample_request [(''x-application-id'', nat_str 10)]) = Some (nat_str 10)"
    by (simp add: header_str_def sample_request_def header_text_ok_def)
  moreover have "uuid_parse toy_ext (nat_str 10) = Some (ap_id (tenant_app 10 5))" "tenant_app 10 5 \<in> set (apps tenant_store)"
    "ap_owner_id (tenant_app 10 5) = au_id (key_user (user_of_row (tenant_user 1)) sample_key_row)"
    by (simp_all add: toy_ext_def tenant_defs)
  ultimately have "app_context_of toy_ext (sample_request [(''x-application-id'', nat_str 10)])
      (Inr (key_user (user_of_row (tenant_user 1)) sample_key_row)) tenant_store
    = Inr \<lparr>ac_app_id = ap_id (tenant_app 10 5), ac_name = ap_name (tenant_app 10 5), ac_slug = ap_slug (tenant_app 10 5),
            ac_owner_id = ap_owner_id (tenant_app 10 5),
            ac_is_owner = (ap_owner_id (tenant_app 10 5) = au_id (key_user (user_of_row (tenant_user 1)) sample_key_row) \<or>
              au_role (key_user (user_of_row (tenant_user 1)) sample_key_row) = ''admin'')\<rparr>"
    unfolding app_context_access [OF tenant_inv]
    by (intro exI [of _ "nat_str 10"] exI [of _ "tenant_app 10 5"] conjI refl disjI1)
  then show ?thesis by (auto simp: tenant_app_def tenant_user_def)
qed

end
