(* ===== verification/Storage_Backend.thy ===== *)
theory Storage_Backend
  imports Config
begin

text \<open>
  Where object bytes live (\<open>src/services/storage_backend\<close>): the trait as a record of
  operations, the local-disk implementation over a file system, the S3 implementation over
  the S3 service, and their contract, the locale \<open>object_store\<close>, of which both are
  interpretations.  The file system is a map from paths to bytes; whether an operation on it
  fails, and with what text, is a parameter \<open>io\<close>.  The S3 service is a parameter of type
  \<open>s3_service\<close>: any operations that satisfy the documented consistency of \<open>s3_ok\<close>.
\<close>

section \<open>Keys\<close>

definition key_char :: "char \<Rightarrow> bool" where
  "key_char c = (let n = of_char c :: nat in
     (48 \<le> n \<and> n \<le> 57) \<or> (65 \<le> n \<and> n \<le> 90) \<or> (97 \<le> n \<and> n \<le> 122) \<or> c \<in> set ''-._'')"

definition validate_storage_key :: "string \<Rightarrow> unit result" where
  "validate_storage_key key =
     (if key \<noteq> [] \<and> length key \<le> 128 \<and> list_all key_char key \<and> \<not> str_contains ''..'' key
         \<and> \<not> starts_with ''.'' key
      then Inr () else Inl (BadRequest ''Invalid storage key''))"

text \<open>\<open>Path::join\<close> of a relative name that has no separator.\<close>

definition path_join :: "string \<Rightarrow> string \<Rightarrow> string" where
  "path_join root name = (if root = [] \<or> last root = CHR ''/'' then root @ name else root @ ''/'' @ name)"

definition local_path_for :: "string \<Rightarrow> string \<Rightarrow> string result" where
  "local_path_for root key = and_then (validate_storage_key key) (\<lambda>_. Inr (path_join root key))"

section \<open>The trait\<close>

record object_meta =
  om_len :: nat
  om_content_type :: "string option"

text \<open>The world a backend acts on: the local files and the remote service's state.\<close>

type_synonym files_map = "string \<rightharpoonup> nat list"

record 'b world =
  w_fs :: files_map
  w_remote :: 'b

text \<open>\<open>open\<close> gives the bytes of the stream and the length the backend reports for it.\<close>

record 'b backend =
  be_check_ready :: "'b world \<Rightarrow> unit result"
  be_put_file :: "string \<Rightarrow> string \<Rightarrow> string \<Rightarrow> 'b world \<Rightarrow> unit result \<times> 'b world"
  be_open :: "string \<Rightarrow> 'b world \<Rightarrow> (nat list \<times> nat) result"
  be_head :: "string \<Rightarrow> 'b world \<Rightarrow> object_meta result"
  be_put_bytes :: "string \<Rightarrow> nat list \<Rightarrow> string \<Rightarrow> 'b world \<Rightarrow> unit result \<times> 'b world"
  be_delete :: "string \<Rightarrow> 'b world \<Rightarrow> unit result \<times> 'b world"
  be_presign_get :: "string \<Rightarrow> int \<Rightarrow> 'b world \<Rightarrow> string option result"
  be_presign_put :: "string \<Rightarrow> string \<Rightarrow> int \<Rightarrow> 'b world \<Rightarrow> string option result"

section \<open>Local disk\<close>

text \<open>\<open>io op path = Some text\<close>: the operation fails with this text; \<open>None\<close>: it works.\<close>

type_synonym io = "string \<Rightarrow> string \<Rightarrow> string option"

definition write_file :: "string \<Rightarrow> nat list \<Rightarrow> 'b world \<Rightarrow> 'b world" where
  "write_file path data w = w\<lparr>w_fs := (w_fs w)(path \<mapsto> data)\<rparr>"

definition remove_file :: "io \<Rightarrow> string \<Rightarrow> 'b world \<Rightarrow> 'b world" where
  "remove_file i path w = (if i ''remove_file'' path = None then w\<lparr>w_fs := (w_fs w)(path := None)\<rparr> else w)"

definition local_check_ready :: "io \<Rightarrow> string \<Rightarrow> 'b world \<Rightarrow> unit result" where
  "local_check_ready i root w =
     (case i ''create_dir_all'' root of
        Some e \<Rightarrow> Inl (ServiceUnavailable (''Upload directory '' @ root @ '' is not writable: '' @ e))
      | None \<Rightarrow> Inr ())"

definition local_put_file ::
  "io \<Rightarrow> string \<Rightarrow> string \<Rightarrow> string \<Rightarrow> string \<Rightarrow> 'b world \<Rightarrow> unit result \<times> 'b world" where
  "local_put_file i root key local_path content_type w =
     (case local_path_for root key of
        Inl e \<Rightarrow> (Inl e, w)
      | Inr dest \<Rightarrow>
        (case i ''create_dir_all'' root of
           Some e \<Rightarrow> (Inl (Internal (''Failed to create upload dir: '' @ e)), w)
         | None \<Rightarrow>
           (case w_fs w local_path of
              None \<Rightarrow> (Inl (Internal ''Failed to store file: No such file or directory (os error 2)''), w)
            | Some data \<Rightarrow>
                if i ''rename'' local_path = None
                then (Inr (), w\<lparr>w_fs := (w_fs w)(local_path := None, dest \<mapsto> data)\<rparr>)
                else (case i ''copy'' local_path of
                        Some e \<Rightarrow> (Inl (Internal (''Failed to store file: '' @ e)), w)
                      | None \<Rightarrow> (Inr (), remove_file i local_path (write_file dest data w))))))"

definition local_open :: "io \<Rightarrow> string \<Rightarrow> string \<Rightarrow> 'b world \<Rightarrow> (nat list \<times> nat) result" where
  "local_open i root key w =
     and_then (local_path_for root key) (\<lambda>path.
       case w_fs w path of
         None \<Rightarrow> Inl (NotFound ''File not found'')
       | Some data \<Rightarrow>
           if i ''open'' path \<noteq> None then Inl (NotFound ''File not found'')
           else Inr (data, if i ''metadata'' path = None then length data else 0))"

definition local_head :: "io \<Rightarrow> string \<Rightarrow> string \<Rightarrow> 'b world \<Rightarrow> object_meta result" where
  "local_head i root key w =
     and_then (local_path_for root key) (\<lambda>path.
       case w_fs w path of
         None \<Rightarrow> Inl (NotFound ''File not found'')
       | Some data \<Rightarrow>
           if i ''metadata'' path \<noteq> None then Inl (NotFound ''File not found'')
           else Inr \<lparr>om_len = length data, om_content_type = None\<rparr>)"

definition local_put_bytes ::
  "io \<Rightarrow> string \<Rightarrow> string \<Rightarrow> nat list \<Rightarrow> string \<Rightarrow> 'b world \<Rightarrow> unit result \<times> 'b world" where
  "local_put_bytes i root key data content_type w =
     (case local_path_for root key of
        Inl e \<Rightarrow> (Inl e, w)
      | Inr dest \<Rightarrow>
        (case i ''create_dir_all'' root of
           Some e \<Rightarrow> (Inl (Internal (''Failed to create upload dir: '' @ e)), w)
         | None \<Rightarrow>
           (case i ''write'' dest of
              Some e \<Rightarrow> (Inl (Internal (''Failed to store file: '' @ e)), w)
            | None \<Rightarrow> (Inr (), write_file dest data w))))"

definition local_delete :: "io \<Rightarrow> string \<Rightarrow> string \<Rightarrow> 'b world \<Rightarrow> unit result \<times> 'b world" where
  "local_delete i root key w =
     (case local_path_for root key of
        Inl e \<Rightarrow> (Inl e, w)
      | Inr path \<Rightarrow>
          if w_fs w path = None then (Inr (), w)
          else (case i ''remove_file'' path of
                  Some e \<Rightarrow> (Inl (Internal (''Failed to delete stored object: '' @ e)), w)
                | None \<Rightarrow> (Inr (), remove_file i path w)))"

text \<open>The default methods of the trait: no native presigning.\<close>

definition local_backend :: "io \<Rightarrow> string \<Rightarrow> 'b backend" where
  "local_backend i root =
     \<lparr>be_check_ready = local_check_ready i root, be_put_file = local_put_file i root,
      be_open = local_open i root, be_head = local_head i root, be_put_bytes = local_put_bytes i root,
      be_delete = local_delete i root, be_presign_get = (\<lambda>key ttl w. Inr None),
      be_presign_put = (\<lambda>key content_type ttl w. Inr None)\<rparr>"

section \<open>S3\<close>

text \<open>
  The service: putting, getting (bytes and reported length), the metadata of an object,
  deleting, presigning for a number of seconds, and what is wrong with the bucket if anything.
\<close>

record 'b s3_api =
  s3_put :: "string \<Rightarrow> nat list \<Rightarrow> string \<Rightarrow> 'b \<Rightarrow> bool \<times> 'b"
  s3_get :: "string \<Rightarrow> 'b \<Rightarrow> (nat list \<times> int option) option"
  s3_head :: "string \<Rightarrow> 'b \<Rightarrow> (int option \<times> string option) option"
  s3_delete :: "string \<Rightarrow> 'b \<Rightarrow> bool \<times> 'b"
  s3_presign_get :: "string \<Rightarrow> nat \<Rightarrow> 'b \<Rightarrow> string option"
  s3_presign_put :: "string \<Rightarrow> string \<Rightarrow> nat \<Rightarrow> 'b \<Rightarrow> string option"
  s3_bucket_problem :: "'b \<Rightarrow> string option"

definition len_ok :: "int option \<Rightarrow> nat list \<Rightarrow> bool" where
  "len_ok n data \<longleftrightarrow> n = None \<or> n = Some (int (length data))"

text \<open>
  Strong read-after-write consistency: what an acknowledged put stored is what a get returns,
  an acknowledged delete leaves nothing to get, other keys are unaffected, and a reported
  length, when there is one, is the length of the object.
\<close>

definition s3_ok :: "'b s3_api \<Rightarrow> bool" where
  "s3_ok A \<longleftrightarrow>
     (\<forall>k data ct s s' d n. s3_put A k data ct s = (True, s') \<and> s3_get A k s' = Some (d, n) \<longrightarrow> d = data) \<and>
     (\<forall>k data ct s r s' k'. s3_put A k data ct s = (r, s') \<and> k' \<noteq> k \<longrightarrow>
        s3_get A k' s' = s3_get A k' s \<and> s3_head A k' s' = s3_head A k' s) \<and>
     (\<forall>k s s'. s3_delete A k s = (True, s') \<longrightarrow> s3_get A k s' = None) \<and>
     (\<forall>k s r s' k'. s3_delete A k s = (r, s') \<and> k' \<noteq> k \<longrightarrow>
        s3_get A k' s' = s3_get A k' s \<and> s3_head A k' s' = s3_head A k' s) \<and>
     (\<forall>k s d n. s3_get A k s = Some (d, n) \<longrightarrow> len_ok n d) \<and>
     (\<forall>k s d n l t. s3_get A k s = Some (d, n) \<and> s3_head A k s = Some (l, t) \<longrightarrow> len_ok l d)"

typedef 'b s3_service = "{A :: 'b s3_api. s3_ok A}"
proof
  show "\<lparr>s3_put = (\<lambda>k data ct s. (False, s)), s3_get = (\<lambda>k s. None), s3_head = (\<lambda>k s. None),
     s3_delete = (\<lambda>k s. (True, s)), s3_presign_get = (\<lambda>k n s. None), s3_presign_put = (\<lambda>k ct n s. None),
     s3_bucket_problem = (\<lambda>s. None)\<rparr> \<in> {A :: 'b s3_api. s3_ok A}"
    by (simp add: s3_ok_def)
qed

lemma s3_laws:
  "s3_put (Rep_s3_service S) k data ct s = (True, s') \<Longrightarrow> s3_get (Rep_s3_service S) k s' = Some (d, n) \<Longrightarrow> d = data"
  "s3_put (Rep_s3_service S) k data ct s = (r, s') \<Longrightarrow> k' \<noteq> k \<Longrightarrow> s3_get (Rep_s3_service S) k' s' = s3_get (Rep_s3_service S) k' s"
  "s3_delete (Rep_s3_service S) k s = (True, s') \<Longrightarrow> s3_get (Rep_s3_service S) k s' = None"
  "s3_delete (Rep_s3_service S) k s = (r, s') \<Longrightarrow> k' \<noteq> k \<Longrightarrow> s3_get (Rep_s3_service S) k' s' = s3_get (Rep_s3_service S) k' s"
  "s3_get (Rep_s3_service S) k s = Some (d, n) \<Longrightarrow> len_ok n d"
  "s3_get (Rep_s3_service S) k s = Some (d, n) \<Longrightarrow> s3_head (Rep_s3_service S) k s = Some (l, t) \<Longrightarrow> len_ok l d"
  using Rep_s3_service [of S] unfolding mem_Collect_eq s3_ok_def by meson+

text \<open>The configured prefix, with the slashes around it trimmed.\<close>

definition s3_prefix_of :: "s3_config \<Rightarrow> string" where
  "s3_prefix_of c = trim_by ((=) (CHR ''/'')) (s3_prefix c)"

definition object_key :: "string \<Rightarrow> string \<Rightarrow> string result" where
  "object_key prefix key = and_then (validate_storage_key key) (\<lambda>_.
     Inr (if prefix = [] then key else prefix @ ''/'' @ key))"

text \<open>\<open>ttl_seconds.clamp(1, 604_800)\<close>: S3 allows a week at most.\<close>

definition presign_seconds :: "int \<Rightarrow> nat" where
  "presign_seconds ttl = nat (min (max ttl 1) 604800)"

fun content_len :: "int option \<Rightarrow> nat" where
  "content_len None = 0"
| "content_len (Some n) = nat (max n 0)"

definition s3_check_ready :: "'b s3_service \<Rightarrow> string \<Rightarrow> 'b world \<Rightarrow> unit result" where
  "s3_check_ready S bucket w =
     (case s3_bucket_problem (Rep_s3_service S) (w_remote w) of
        Some e \<Rightarrow> Inl (ServiceUnavailable (''S3 bucket '' @ CHR 0x27 # bucket @ CHR 0x27 # '' is not reachable: '' @ e))
      | None \<Rightarrow> Inr ())"

definition s3_put_bytes ::
  "'b s3_service \<Rightarrow> string \<Rightarrow> string \<Rightarrow> nat list \<Rightarrow> string \<Rightarrow> 'b world \<Rightarrow> unit result \<times> 'b world" where
  "s3_put_bytes S prefix key data content_type w =
     (case object_key prefix key of
        Inl e \<Rightarrow> (Inl e, w)
      | Inr k \<Rightarrow>
        (case s3_put (Rep_s3_service S) k data content_type (w_remote w) of
           (True, r) \<Rightarrow> (Inr (), w\<lparr>w_remote := r\<rparr>)
         | (False, r) \<Rightarrow> (Inl (Internal ''Failed to store object''), w\<lparr>w_remote := r\<rparr>)))"

definition s3_put_file ::
  "io \<Rightarrow> 'b s3_service \<Rightarrow> string \<Rightarrow> string \<Rightarrow> string \<Rightarrow> string \<Rightarrow> 'b world \<Rightarrow> unit result \<times> 'b world" where
  "s3_put_file i S prefix key local_path content_type w =
     (case object_key prefix key of
        Inl e \<Rightarrow> (Inl e, w)
      | Inr k \<Rightarrow>
        (case (w_fs w local_path, i ''open'' local_path) of
           (Some data, None) \<Rightarrow> s3_put_bytes S prefix key data content_type w
         | (None, _) \<Rightarrow> (Inl (Internal ''Failed to read upload for transfer: No such file or directory (os error 2)''), w)
         | (_, Some e) \<Rightarrow> (Inl (Internal (''Failed to read upload for transfer: '' @ e)), w)))"

definition s3_open :: "'b s3_service \<Rightarrow> string \<Rightarrow> string \<Rightarrow> 'b world \<Rightarrow> (nat list \<times> nat) result" where
  "s3_open S prefix key w =
     and_then (object_key prefix key) (\<lambda>k.
       case s3_get (Rep_s3_service S) k (w_remote w) of
         None \<Rightarrow> Inl (NotFound ''File not found'')
       | Some (data, n) \<Rightarrow> Inr (data, content_len n))"

definition s3_head_object :: "'b s3_service \<Rightarrow> string \<Rightarrow> string \<Rightarrow> 'b world \<Rightarrow> object_meta result" where
  "s3_head_object S prefix key w =
     and_then (object_key prefix key) (\<lambda>k.
       case s3_head (Rep_s3_service S) k (w_remote w) of
         None \<Rightarrow> Inl (NotFound ''File not found'')
       | Some (n, t) \<Rightarrow> Inr \<lparr>om_len = content_len n, om_content_type = t\<rparr>)"

definition s3_delete_object :: "'b s3_service \<Rightarrow> string \<Rightarrow> string \<Rightarrow> 'b world \<Rightarrow> unit result \<times> 'b world" where
  "s3_delete_object S prefix key w =
     (case object_key prefix key of
        Inl e \<Rightarrow> (Inl e, w)
      | Inr k \<Rightarrow>
        (case s3_delete (Rep_s3_service S) k (w_remote w) of
           (True, r) \<Rightarrow> (Inr (), w\<lparr>w_remote := r\<rparr>)
         | (False, r) \<Rightarrow> (Inl (Internal ''Failed to delete object''), w\<lparr>w_remote := r\<rparr>)))"

definition s3_presign_download :: "'b s3_service \<Rightarrow> string \<Rightarrow> string \<Rightarrow> int \<Rightarrow> 'b world \<Rightarrow> string option result" where
  "s3_presign_download S prefix key ttl w =
     and_then (object_key prefix key) (\<lambda>k.
       case s3_presign_get (Rep_s3_service S) k (presign_seconds ttl) (w_remote w) of
         None \<Rightarrow> Inl (Internal ''Failed to presign download URL'')
       | Some uri \<Rightarrow> Inr (Some uri))"

definition s3_presign_upload :: "'b s3_service \<Rightarrow> string \<Rightarrow> string \<Rightarrow> string \<Rightarrow> int \<Rightarrow> 'b world \<Rightarrow> string option result" where
  "s3_presign_upload S prefix key content_type ttl w =
     and_then (object_key prefix key) (\<lambda>k.
       case s3_presign_put (Rep_s3_service S) k content_type (presign_seconds ttl) (w_remote w) of
         None \<Rightarrow> Inl (Internal ''Failed to presign upload URL'')
       | Some uri \<Rightarrow> Inr (Some uri))"

definition s3_backend :: "io \<Rightarrow> 'b s3_service \<Rightarrow> s3_config \<Rightarrow> 'b backend" where
  "s3_backend i S c = (let prefix = s3_prefix_of c in
     \<lparr>be_check_ready = s3_check_ready S (s3_bucket c), be_put_file = s3_put_file i S prefix,
      be_open = s3_open S prefix, be_head = s3_head_object S prefix, be_put_bytes = s3_put_bytes S prefix,
      be_delete = s3_delete_object S prefix, be_presign_get = s3_presign_download S prefix,
      be_presign_put = s3_presign_upload S prefix\<rparr>)"

text \<open>\<open>AppState::new\<close> (\<open>src/state/mod.rs\<close>): the backend the configuration selects.\<close>

definition select_backend :: "io \<Rightarrow> 'b s3_service \<Rightarrow> app_config \<Rightarrow> 'b backend" where
  "select_backend i S cfg =
     (case (storage_backend cfg, cfg_s3 cfg) of
        (S3Backend, Some s3) \<Rightarrow> s3_backend i S s3
      | (S3Backend, None) \<Rightarrow> local_backend i (upload_dir cfg)
      | (LocalBackend, _) \<Rightarrow> local_backend i (upload_dir cfg))"

section \<open>Facts\<close>

lemma path_join_inj: "path_join root a = path_join root b \<longleftrightarrow> a = b"
  by (simp add: path_join_def)

lemma local_path_for_Inr: "local_path_for root k = Inr p \<longleftrightarrow> validate_storage_key k = Inr () \<and> p = path_join root k"
  unfolding local_path_for_def and_then_Inr by auto

lemma object_key_Inr:
  "object_key prefix k = Inr x \<longleftrightarrow>
     validate_storage_key k = Inr () \<and> x = (if prefix = [] then k else prefix @ ''/'' @ k)"
  unfolding object_key_def and_then_Inr by auto

lemma object_key_inj: "object_key prefix k = Inr x \<Longrightarrow> object_key prefix k' = Inr x \<Longrightarrow> k = k'"
  by (simp add: object_key_Inr split: if_splits)

lemma local_open_Inr:
  "local_open i root k w = Inr (d, n) \<longleftrightarrow>
     validate_storage_key k = Inr () \<and> w_fs w (path_join root k) = Some d \<and> i ''open'' (path_join root k) = None \<and>
     n = (if i ''metadata'' (path_join root k) = None then length d else 0)"
  unfolding local_open_def and_then_Inr local_path_for_Inr by (auto split: option.splits if_splits)

text \<open>What reading key \<open>k\<close> depends on.\<close>

lemma local_open_cong:
  "w_fs w' (path_join root k) = w_fs w (path_join root k) \<Longrightarrow> local_open i root k w' = local_open i root k w"
  by (cases "validate_storage_key k") (simp_all add: local_open_def local_path_for_def)

lemma s3_open_Inr:
  "s3_open S prefix k w = Inr (d, n) \<longleftrightarrow>
     (\<exists>x l. object_key prefix k = Inr x \<and> s3_get (Rep_s3_service S) x (w_remote w) = Some (d, l) \<and> n = content_len l)"
  by (cases "object_key prefix k") (auto simp: s3_open_def split: option.splits)

lemma s3_open_cong:
  assumes "\<And>x. object_key prefix k = Inr x \<Longrightarrow>
    s3_get (Rep_s3_service S) x (w_remote w') = s3_get (Rep_s3_service S) x (w_remote w)"
  shows "s3_open S prefix k w' = s3_open S prefix k w"
  using assms by (cases "object_key prefix k") (auto simp: s3_open_def)

lemma content_len_ok: "len_ok l d \<Longrightarrow> content_len l = 0 \<or> content_len l = length d"
  by (auto simp: len_ok_def)

lemma s3_put_bytes_cases:
  assumes "s3_put_bytes S prefix k data ct w = (r, w')"
  obtains e where "object_key prefix k = Inl e" "r = Inl e" "w' = w"
  | x ok rem where "object_key prefix k = Inr x" "s3_put (Rep_s3_service S) x data ct (w_remote w) = (ok, rem)"
      "w' = w\<lparr>w_remote := rem\<rparr>" "is_ok r = ok"
proof (cases "object_key prefix k")
  case (Inr x)
  obtain ok rem where "s3_put (Rep_s3_service S) x data ct (w_remote w) = (ok, rem)" by fastforce
  with Inr assms that(2) show ?thesis by (cases ok) (auto simp: s3_put_bytes_def)
qed (use assms that(1) in \<open>auto simp: s3_put_bytes_def\<close>)

section \<open>The contract of a backend\<close>

text \<open>Writes through a backend, for sequences of them.\<close>

datatype object_op = Put string "nat list" string | Delete string

fun op_key :: "object_op \<Rightarrow> string" where
  "op_key (Put k data ct) = k"
| "op_key (Delete k) = k"

fun do_op :: "'b backend \<Rightarrow> object_op \<Rightarrow> 'b world \<Rightarrow> 'b world" where
  "do_op B (Put k data ct) w = snd (be_put_bytes B k data ct w)"
| "do_op B (Delete k) w = snd (be_delete B k w)"

locale object_store =
  fixes B :: "'b backend"
  assumes key_checked: "be_open B k w = Inr x \<Longrightarrow> validate_storage_key k = Inr ()"
    and put_open: "be_put_bytes B k data ct w = (Inr (), w') \<Longrightarrow> be_open B k w' = Inr (d, n) \<Longrightarrow> d = data"
    and put_file_open: "be_put_file B k path ct w = (Inr (), w') \<Longrightarrow> be_open B k w' = Inr (d, n) \<Longrightarrow> w_fs w path = Some d"
    and put_other: "be_put_bytes B k data ct w = (r, w') \<Longrightarrow> k' \<noteq> k \<Longrightarrow> be_open B k' w' = be_open B k' w"
    and delete_open: "be_delete B k w = (Inr (), w') \<Longrightarrow> be_open B k w' \<noteq> Inr x"
    and delete_other: "be_delete B k w = (r, w') \<Longrightarrow> k' \<noteq> k \<Longrightarrow> be_open B k' w' = be_open B k' w"
    and open_len: "be_open B k w = Inr (d, n) \<Longrightarrow> n = 0 \<or> n = length d"
    and head_len: "be_open B k w = Inr (d, n) \<Longrightarrow> be_head B k w = Inr m \<Longrightarrow> om_len m = 0 \<or> om_len m = length d"
begin

lemma op_other: "op_key x \<noteq> k \<Longrightarrow> be_open B k (do_op B x w) = be_open B k w"
proof (cases x)
  case (Put k' data ct)
  assume "op_key x \<noteq> k"
  with Put have "k \<noteq> k'" by simp
  with put_other [OF surjective_pairing] Put show ?thesis by simp
next
  case (Delete k')
  assume "op_key x \<noteq> k"
  with Delete have "k \<noteq> k'" by simp
  with delete_other [OF surjective_pairing] Delete show ?thesis by simp
qed

lemma ops_other: "\<forall>x\<in>set xs. op_key x \<noteq> k \<Longrightarrow> be_open B k (fold (do_op B) xs w) = be_open B k w"
  by (induction xs arbitrary: w) (simp_all add: op_other)

lemma read_back:
  assumes "be_put_bytes B k data ct w = (Inr (), w')" "\<forall>x\<in>set xs. op_key x \<noteq> k"
    and "be_open B k (fold (do_op B) xs w') = Inr (d, n)"
  shows "d = data \<and> (n = 0 \<or> n = length data)"
proof -
  have o: "be_open B k w' = Inr (d, n)" using assms(3) ops_other [OF assms(2)] by simp
  with put_open [OF assms(1) o] open_len [OF o] show ?thesis by simp
qed

lemma gone:
  assumes "be_delete B k w = (Inr (), w')" "\<forall>x\<in>set xs. op_key x \<noteq> k"
  shows "\<not> is_ok (be_open B k (fold (do_op B) xs w'))"
  using delete_open [OF assms(1)] ops_other [OF assms(2)] by (auto simp: is_ok_iff)

end

lemma s3_put_file_Inr:
  "s3_put_file i S prefix k path ct w = (Inr (), w') \<Longrightarrow>
     \<exists>data. w_fs w path = Some data \<and> s3_put_bytes S prefix k data ct w = (Inr (), w')"
  by (auto simp: s3_put_file_def split: sum.splits option.splits)

interpretation local_disk: object_store "local_backend i root" for i root
proof unfold_locales
  fix k :: string and w :: "'b world" and x :: "nat list \<times> nat"
  show "be_open (local_backend i root) k w = Inr x \<Longrightarrow> validate_storage_key k = Inr ()"
    by (cases x) (simp add: local_backend_def local_open_Inr)
next
  fix k data ct d n and w w' :: "'b world"
  assume "be_put_bytes (local_backend i root) k data ct w = (Inr (), w')" "be_open (local_backend i root) k w' = Inr (d, n)"
  then show "d = data"
    by (cases "validate_storage_key k"; cases "i ''create_dir_all'' root"; cases "i ''write'' (path_join root k)")
      (auto simp: local_backend_def local_open_Inr local_put_bytes_def local_path_for_def write_file_def)
next
  fix k path ct d n and w w' :: "'b world"
  assume "be_put_file (local_backend i root) k path ct w = (Inr (), w')" "be_open (local_backend i root) k w' = Inr (d, n)"
  then show "w_fs w path = Some d"
    by (cases "validate_storage_key k"; cases "i ''create_dir_all'' root"; cases "w_fs w path"; cases "i ''copy'' path")
      (auto simp: local_backend_def local_open_Inr local_put_file_def local_path_for_def write_file_def remove_file_def
        split: if_splits)
next
  fix k data ct r k' and w w' :: "'b world"
  assume "be_put_bytes (local_backend i root) k data ct w = (r, w')" "k' \<noteq> k"
  then have "w_fs w' (path_join root k') = w_fs w (path_join root k')"
    by (cases "validate_storage_key k"; cases "i ''create_dir_all'' root"; cases "i ''write'' (path_join root k)")
      (auto simp: local_backend_def local_put_bytes_def local_path_for_def write_file_def path_join_inj)
  then show "be_open (local_backend i root) k' w' = be_open (local_backend i root) k' w"
    unfolding local_backend_def backend.simps by (rule local_open_cong)
next
  fix k and w w' :: "'b world" and x
  assume "be_delete (local_backend i root) k w = (Inr (), w')"
  then show "be_open (local_backend i root) k w' \<noteq> Inr x"
    by (cases x; cases "validate_storage_key k"; cases "i ''remove_file'' (path_join root k)")
      (auto simp: local_backend_def local_open_Inr local_delete_def local_path_for_def remove_file_def split: if_splits)
next
  fix k r k' and w w' :: "'b world"
  assume "be_delete (local_backend i root) k w = (r, w')" "k' \<noteq> k"
  then have "w_fs w' (path_join root k') = w_fs w (path_join root k')"
    by (cases "validate_storage_key k"; cases "i ''remove_file'' (path_join root k)")
      (auto simp: local_backend_def local_delete_def local_path_for_def remove_file_def path_join_inj split: if_splits)
  then show "be_open (local_backend i root) k' w' = be_open (local_backend i root) k' w"
    unfolding local_backend_def backend.simps by (rule local_open_cong)
next
  fix k d n and w :: "'b world"
  assume "be_open (local_backend i root) k w = Inr (d, n)"
  then show "n = 0 \<or> n = length d" by (simp add: local_backend_def local_open_Inr)
next
  fix k d n m and w :: "'b world"
  assume "be_open (local_backend i root) k w = Inr (d, n)" "be_head (local_backend i root) k w = Inr m"
  then show "om_len m = 0 \<or> om_len m = length d"
    unfolding local_backend_def backend.simps local_head_def and_then_Inr local_path_for_Inr
    by (auto simp: local_open_Inr split: option.splits if_splits)
qed

interpretation s3: object_store "s3_backend i S c" for i S c
proof unfold_locales
  let ?p = "s3_prefix_of c" and ?A = "Rep_s3_service S"
  have fields: "be_open (s3_backend i S c) = s3_open S ?p" "be_put_bytes (s3_backend i S c) = s3_put_bytes S ?p"
    "be_put_file (s3_backend i S c) = s3_put_file i S ?p" "be_delete (s3_backend i S c) = s3_delete_object S ?p"
    "be_head (s3_backend i S c) = s3_head_object S ?p"
    by (simp_all add: s3_backend_def Let_def)
  have put: "d = data" if "s3_put_bytes S ?p k data ct w = (Inr (), w')" "s3_open S ?p k w' = Inr (d, n)" for k data ct w w' d n
    using that(1)
  proof (cases rule: s3_put_bytes_cases)
    case (2 x ok rem)
    with that(2) s3_laws(1) show ?thesis by (auto simp: s3_open_Inr)
  qed simp
  { fix k w x assume "be_open (s3_backend i S c) k w = Inr x"
    then show "validate_storage_key k = Inr ()" by (cases x) (auto simp: fields s3_open_Inr object_key_Inr) }
  { fix k data ct w w' d n
    assume "be_put_bytes (s3_backend i S c) k data ct w = (Inr (), w')" "be_open (s3_backend i S c) k w' = Inr (d, n)"
    then show "d = data" unfolding fields by (rule put) }
  { fix k path ct w w' d n
    assume a: "be_put_file (s3_backend i S c) k path ct w = (Inr (), w')" "be_open (s3_backend i S c) k w' = Inr (d, n)"
    from s3_put_file_Inr [OF a(1) [unfolded fields]]
    obtain data where data: "w_fs w path = Some data" "s3_put_bytes S ?p k data ct w = (Inr (), w')" by blast
    from put [OF data(2) a(2) [unfolded fields]] data(1) show "w_fs w path = Some d" by simp }
  { fix k data ct w r w' k'
    assume "be_put_bytes (s3_backend i S c) k data ct w = (r, w')" and ne: "k' \<noteq> k"
    then show "be_open (s3_backend i S c) k' w' = be_open (s3_backend i S c) k' w"
      unfolding fields
    proof (cases rule: s3_put_bytes_cases)
      case (2 x ok rem)
      have "s3_get ?A y rem = s3_get ?A y (w_remote w)" if "object_key ?p k' = Inr y" for y
      proof (rule s3_laws(2) [OF 2(2)])
        show "y \<noteq> x" using object_key_inj [OF that, of k] 2(1) ne by auto
      qed
      with 2(3) show "s3_open S ?p k' w' = s3_open S ?p k' w" by (intro s3_open_cong) simp
    qed simp }
  { fix k w w' x
    assume "be_delete (s3_backend i S c) k w = (Inr (), w')"
    then show "be_open (s3_backend i S c) k w' \<noteq> Inr x"
      by (cases x) (auto simp: fields s3_delete_object_def s3_open_Inr dest: s3_laws(3) split: sum.splits prod.splits bool.splits) }
  { fix k w r w' k'
    assume d: "be_delete (s3_backend i S c) k w = (r, w')" and ne: "k' \<noteq> k"
    show "be_open (s3_backend i S c) k' w' = be_open (s3_backend i S c) k' w"
      unfolding fields
    proof (rule s3_open_cong)
      fix y assume y: "object_key ?p k' = Inr y"
      show "s3_get ?A y (w_remote w') = s3_get ?A y (w_remote w)"
      proof (cases "object_key ?p k")
        case (Inl e)
        with d show ?thesis by (simp add: fields s3_delete_object_def)
      next
        case (Inr x)
        then have "y \<noteq> x" using object_key_inj [OF y, of k] ne by auto
        obtain ok rem where del: "s3_delete ?A x (w_remote w) = (ok, rem)" by fastforce
        with d Inr have "w_remote w' = rem" by (cases ok) (auto simp: fields s3_delete_object_def)
        with s3_laws(4) [OF del \<open>y \<noteq> x\<close>] show ?thesis by simp
      qed
    qed }
  { fix k w d n assume "be_open (s3_backend i S c) k w = Inr (d, n)"
    then show "n = 0 \<or> n = length d" by (auto simp: fields s3_open_Inr dest!: s3_laws(5) content_len_ok) }
  { fix k w d n m
    assume "be_open (s3_backend i S c) k w = Inr (d, n)" "be_head (s3_backend i S c) k w = Inr m"
    then show "om_len m = 0 \<or> om_len m = length d"
      unfolding fields s3_head_object_def and_then_Inr s3_open_Inr
      by (auto split: option.splits dest!: s3_laws(6) content_len_ok) }
qed

section \<open>Properties\<close>

lemma selected_backend:
  obtains root where "select_backend i S cfg = local_backend i root" | c where "select_backend i S cfg = s3_backend i S c"
  unfolding select_backend_def
  by (cases "storage_backend cfg"; cases "cfg_s3 cfg") (auto intro: that)

lemma selected_object_store: "object_store (select_backend i S cfg)"
  by (rule selected_backend [of i S cfg])
    (simp_all add: local_disk.object_store_axioms s3.object_store_axioms)

text \<open>
  No storage key escapes its place: an accepted key has no separator, no \<open>..\<close> and no
  leading dot, so on disk it names a direct child of the upload directory and in S3 an object
  under the configured prefix, two keys never share a place, and whichever backend is
  configured refuses every other key before touching anything.
\<close>

theorem storage_keys_stay_in_place:
  "(validate_storage_key key = Inr () \<longrightarrow>
      CHR ''/'' \<notin> set key \<and> CHR 0x5C \<notin> set key \<and> \<not> str_contains ''..'' key \<and> key \<noteq> [] \<and> hd key \<noteq> CHR ''.'' \<and>
      length key \<le> 128 \<and>
      local_path_for root key = Inr (path_join root key) \<and>
      (object_key prefix key = Inr (if prefix = [] then key else prefix @ ''/'' @ key))) \<and>
   (local_path_for root key = local_path_for root key' \<and> is_ok (local_path_for root key) \<longrightarrow> key = key') \<and>
   (object_key prefix key = object_key prefix key' \<and> is_ok (object_key prefix key) \<longrightarrow> key = key') \<and>
   (validate_storage_key key \<noteq> Inr () \<longrightarrow>
      be_put_bytes (select_backend i S cfg) key data ct w = (Inl (BadRequest ''Invalid storage key''), w) \<and>
      be_put_file (select_backend i S cfg) key path ct w = (Inl (BadRequest ''Invalid storage key''), w) \<and>
      be_delete (select_backend i S cfg) key w = (Inl (BadRequest ''Invalid storage key''), w) \<and>
      be_open (select_backend i S cfg) key w = Inl (BadRequest ''Invalid storage key'') \<and>
      be_head (select_backend i S cfg) key w = Inl (BadRequest ''Invalid storage key''))"
proof (intro conjI impI)
  assume v: "validate_storage_key key = Inr ()"
  then have k: "list_all key_char key" "\<not> str_contains ''..'' key" "key \<noteq> []" "\<not> starts_with ''.'' key" "length key \<le> 128"
    by (auto simp: validate_storage_key_def split: if_splits)
  have "\<not> key_char (CHR ''/'')" "\<not> key_char (CHR 0x5C)" by (simp_all add: key_char_def)
  with k(1) show "CHR ''/'' \<notin> set key" "CHR 0x5C \<notin> set key" by (auto simp: list_all_iff)
  show "\<not> str_contains ''..'' key" "key \<noteq> []" "length key \<le> 128" using k by simp_all
  show "hd key \<noteq> CHR ''.''" using k(3,4) by (cases key) (simp_all add: starts_with_def)
  show "local_path_for root key = Inr (path_join root key)" using v by (simp add: local_path_for_Inr)
  show "object_key prefix key = Inr (if prefix = [] then key else prefix @ ''/'' @ key)"
    using v by (simp add: object_key_Inr)
next
  assume a: "local_path_for root key = local_path_for root key' \<and> is_ok (local_path_for root key)"
  then obtain p where p: "local_path_for root key = Inr p" unfolding is_ok_iff by blast
  with a have "local_path_for root key' = Inr p" by simp
  with p show "key = key'" using path_join_inj [of root key key'] unfolding local_path_for_Inr by simp
next
  assume a: "object_key prefix key = object_key prefix key' \<and> is_ok (object_key prefix key)"
  then obtain p where p: "object_key prefix key = Inr p" unfolding is_ok_iff by blast
  with a have "object_key prefix key' = Inr p" by simp
  with p show "key = key'" by (rule object_key_inj)
next
  assume "validate_storage_key key \<noteq> Inr ()"
  then have v: "validate_storage_key key = Inl (BadRequest ''Invalid storage key'')"
    by (auto simp: validate_storage_key_def split: if_splits)
  show "be_put_bytes (select_backend i S cfg) key data ct w = (Inl (BadRequest ''Invalid storage key''), w)"
    "be_put_file (select_backend i S cfg) key path ct w = (Inl (BadRequest ''Invalid storage key''), w)"
    "be_delete (select_backend i S cfg) key w = (Inl (BadRequest ''Invalid storage key''), w)"
    "be_open (select_backend i S cfg) key w = Inl (BadRequest ''Invalid storage key'')"
    "be_head (select_backend i S cfg) key w = Inl (BadRequest ''Invalid storage key'')"
    by (rule selected_backend [of i S cfg], simp_all add: local_backend_def s3_backend_def Let_def v
        local_put_bytes_def local_put_file_def local_delete_def local_open_def local_head_def local_path_for_def
        s3_put_bytes_def s3_put_file_def s3_delete_object_def s3_open_def s3_head_object_def object_key_def)+
qed

theorem storage_keys_stay_in_place_witness:
  "\<forall>S w. be_open (select_backend (\<lambda>_ _. None) S (for_testing toy_ext ''db'')) ''../etc/passwd'' w
     = Inl (BadRequest ''Invalid storage key'')"
proof (intro allI)
  fix S and w :: "'a world"
  have "validate_storage_key ''../etc/passwd'' \<noteq> Inr ()"
    by (simp add: validate_storage_key_def starts_with_def)
  with storage_keys_stay_in_place [of "''../etc/passwd''" _ _ _ "\<lambda>_ _. None" S "for_testing toy_ext ''db''"]
  show "be_open (select_backend (\<lambda>_ _. None) S (for_testing toy_ext ''db'')) ''../etc/passwd'' w
     = Inl (BadRequest ''Invalid storage key'')" by blast
qed

text \<open>
  C21. Local disk and S3 keep the same promise: bytes that were stored under a key are exactly
  the bytes read under it, after any writes and deletions under other keys, until the key is
  deleted; and after that nothing is read under it.
\<close>

theorem stored_bytes_come_back:
  assumes "be_put_bytes (select_backend i S cfg) k data ct w = (Inr (), w')"
    and "\<forall>x\<in>set xs. op_key x \<noteq> k"
  defines "w2 \<equiv> fold (do_op (select_backend i S cfg)) xs w'"
  shows "(\<forall>d n. be_open (select_backend i S cfg) k w2 = Inr (d, n) \<longrightarrow> d = data \<and> (n = 0 \<or> n = length data)) \<and>
         (\<forall>w3 ys. be_delete (select_backend i S cfg) k w2 = (Inr (), w3) \<and> (\<forall>x\<in>set ys. op_key x \<noteq> k) \<longrightarrow>
            \<not> is_ok (be_open (select_backend i S cfg) k (fold (do_op (select_backend i S cfg)) ys w3)))"
proof (intro conjI allI impI)
  show "d = data" if "be_open (select_backend i S cfg) k w2 = Inr (d, n)" for d n
    using object_store.read_back [OF selected_object_store assms(1,2)] that unfolding w2_def by blast
  show "n = 0 \<or> n = length data" if "be_open (select_backend i S cfg) k w2 = Inr (d, n)" for d n
    using object_store.read_back [OF selected_object_store assms(1,2)] that unfolding w2_def by blast
  show "\<not> is_ok (be_open (select_backend i S cfg) k (fold (do_op (select_backend i S cfg)) ys w3))"
    if "be_delete (select_backend i S cfg) k w2 = (Inr (), w3) \<and> (\<forall>x\<in>set ys. op_key x \<noteq> k)" for w3 ys
    by (rule object_store.gone [OF selected_object_store conjunct1 [OF that] conjunct2 [OF that]])
qed

theorem stored_bytes_come_back_witness:
  "\<forall>S r. \<exists>w'. be_put_bytes (select_backend (\<lambda>_ _. None) S (for_testing toy_ext ''db'')) ''k.png'' [1,2] ''image/png''
      (\<lparr>w_fs = Map.empty, w_remote = r\<rparr> :: nat world) = (Inr (), w') \<and>
    be_open (select_backend (\<lambda>_ _. None) S (for_testing toy_ext ''db'')) ''k.png'' w' = Inr ([1,2], 2) \<and>
    \<not> is_ok (be_open (select_backend (\<lambda>_ _. None) S (for_testing toy_ext ''db'')) ''k.png''
        (snd (be_delete (select_backend (\<lambda>_ _. None) S (for_testing toy_ext ''db'')) ''k.png'' w')))"
proof (intro allI)
  fix S :: "nat s3_service" and r :: nat
  let ?B = "select_backend (\<lambda>_ _. None) S (for_testing toy_ext ''db'')" and ?w = "\<lparr>w_fs = Map.empty, w_remote = r\<rparr> :: nat world"
  obtain root where B: "?B = local_backend (\<lambda>_ _. None) root"
    by (simp add: select_backend_def for_testing_def Let_def)
  have key: "validate_storage_key ''k.png'' = Inr ()"
    by (simp add: validate_storage_key_def key_char_def starts_with_def)
  let ?w' = "write_file (path_join root ''k.png'') [1,2] ?w"
  have put: "be_put_bytes ?B ''k.png'' [1,2] ''image/png'' ?w = (Inr (), ?w')"
    unfolding B by (simp add: local_backend_def local_put_bytes_def local_path_for_def key)
  have opn: "be_open ?B ''k.png'' ?w' = Inr ([1,2], 2)"
    unfolding B by (simp add: local_backend_def local_open_Inr key write_file_def)
  obtain w3 where del: "be_delete ?B ''k.png'' ?w' = (Inr (), w3)"
    unfolding B by (simp add: local_backend_def local_delete_def local_path_for_def key write_file_def)
  have "be_delete ?B ''k.png'' (fold (do_op ?B) [] ?w') = (Inr (), w3) \<and> (\<forall>x\<in>set []. op_key x \<noteq> ''k.png'')
      \<longrightarrow> \<not> is_ok (be_open ?B ''k.png'' (fold (do_op ?B) [] w3))"
    using stored_bytes_come_back [OF put, of "[]"] by blast
  then have "\<not> is_ok (be_open ?B ''k.png'' w3)" using del by simp
  with put opn del show "\<exists>w'. be_put_bytes ?B ''k.png'' [1,2] ''image/png'' ?w = (Inr (), w') \<and>
    be_open ?B ''k.png'' w' = Inr ([1,2], 2) \<and> \<not> is_ok (be_open ?B ''k.png'' (snd (be_delete ?B ''k.png'' w')))"
    by (intro exI [of _ ?w'] conjI) simp_all
qed

end
