(* ===== verification/Storage.thy ===== *)
theory Storage
  imports Extractors Storage_Backend
begin

text \<open>
  Files (\<open>src/services/storage.rs\<close>, \<open>src/models/upload.rs\<close>, and the reaper of abandoned
  uploads in \<open>src/main.rs\<close>): content typing, streamed uploads, ownership and organization
  access, signed URLs, and the reservation of a key that a direct upload fills and a
  completion makes readable.  The object backend is a parameter \<open>B\<close>; the database and the
  backend's world are passed side by side.
\<close>

section \<open>Content typing\<close>

definition magic :: "(nat list \<times> string) list" where
  "magic =
     [([0xFF, 0xD8, 0xFF], ''image/jpeg''),
      ([0x89, 0x50, 0x4E, 0x47, 0x0D, 0x0A, 0x1A, 0x0A], ''image/png''),
      (bytes_of ''GIF87a'', ''image/gif''),
      (bytes_of ''GIF89a'', ''image/gif''),
      (bytes_of ''%PDF-'', ''application/pdf'')]"

text \<open>\<open>Path::file_name\<close> and \<open>Path::extension\<close>.\<close>

definition path_file_name :: "string \<Rightarrow> string option" where
  "path_file_name s =
     (case rev (filter (\<lambda>c. c \<noteq> [] \<and> c \<noteq> ''.'') (split_on (CHR ''/'') s)) of
        [] \<Rightarrow> None
      | f # _ \<Rightarrow> if f = ''..'' then None else Some f)"

definition path_extension :: "string \<Rightarrow> string option" where
  "path_extension s =
     Option.bind (path_file_name s) (\<lambda>f.
       case dropWhile (\<lambda>c. c \<noteq> CHR ''.'') (rev f) of
         [] \<Rightarrow> None
       | [_] \<Rightarrow> None
       | _ \<Rightarrow> Some (rev (takeWhile (\<lambda>c. c \<noteq> CHR ''.'') (rev f))))"

definition is_text :: "nat list \<Rightarrow> bool" where
  "is_text bytes \<longleftrightarrow> bytes = [] \<or>
     (case utf8_decode (take 512 bytes) of
        None \<Rightarrow> False
      | Some cs \<Rightarrow> \<not> list_ex (\<lambda>c. is_control c \<and> c \<noteq> 10 \<and> c \<noteq> 13 \<and> c \<noteq> 9) cs)"

definition sniff_mime :: "nat list \<Rightarrow> string \<Rightarrow> string" where
  "sniff_mime bytes filename =
     (case find (\<lambda>(m, _). take (length m) bytes = m) magic of
        Some (_, mime) \<Rightarrow> mime
      | None \<Rightarrow>
          if 12 \<le> length bytes \<and> take 4 bytes = bytes_of ''RIFF'' \<and> take 4 (drop 8 bytes) = bytes_of ''WEBP''
          then ''image/webp''
          else if is_text bytes
          then (let e = to_ascii_lowercase (unwrap_or (path_extension filename) []) in
                if e = ''json'' then ''application/json''
                else if e \<in> set [''txt'', ''md'', ''csv'', ''log''] then ''text/plain''
                else ''application/octet-stream'')
          else ''application/octet-stream'')"

definition ensure_mime_allowed :: "app_config \<Rightarrow> string \<Rightarrow> unit result" where
  "ensure_mime_allowed cfg mime =
     (if list_ex (\<lambda>m. m = mime) (allowed_upload_mime cfg) then Inr ()
      else Inl (BadRequest (''Files of type '' @ quoted mime @ '' are not accepted'')))"

definition extension_for :: "string \<Rightarrow> string" where
  "extension_for mime =
     (if mime = ''image/jpeg'' then ''jpg''
      else if mime = ''image/png'' then ''png''
      else if mime = ''image/gif'' then ''gif''
      else if mime = ''image/webp'' then ''webp''
      else if mime = ''application/pdf'' then ''pdf''
      else if mime = ''application/json'' then ''json''
      else if mime = ''text/plain'' then ''txt''
      else ''bin'')"

definition sanitize_filename :: "string \<Rightarrow> string" where
  "sanitize_filename name =
     (let cleaned = of_chars (take 255 (filter (\<lambda>c. \<not> is_control c \<and> c \<noteq> 0x2F \<and> c \<noteq> 0x5C) (chars name)));
          trimmed = str_trim cleaned in
      if trimmed = [] then ''unnamed_file'' else trimmed)"

definition normalize_visibility :: "string \<Rightarrow> string result" where
  "normalize_visibility value =
     (let v = to_ascii_lowercase (str_trim value) in
      if v = [] \<or> v = ''private'' then Inr ''private''
      else if v = ''public'' then Inr ''public''
      else Inl (BadRequest (''Unknown visibility '' @ quoted v @ '' (expected '' @ quoted ''private''
                 @ '' or '' @ quoted ''public'' @ '')'')))"

section \<open>Uploading\<close>

text \<open>
  The multipart field: its file name, and its chunks as they arrive, each bytes or the text of
  a read error.
\<close>

record field =
  fd_file_name :: "string option"
  fd_chunks :: "(string + nat list) list"

definition append_file :: "string \<Rightarrow> nat list \<Rightarrow> 'b world \<Rightarrow> 'b world" where
  "append_file path data w = w\<lparr>w_fs := (w_fs w)(path \<mapsto> unwrap_or (w_fs w path) [] @ data)\<rparr>"

text \<open>
  The loop over the chunks: the bytes counted, the first sixteen of them, what the hasher has
  seen.  The \<open>j\<close>-th write asks \<open>io\<close> under the name \<open>write_all j\<close>, so any of them can fail.
\<close>

fun receive ::
  "io \<Rightarrow> string \<Rightarrow> nat \<Rightarrow> nat \<Rightarrow> (string + nat list) list \<Rightarrow> nat \<Rightarrow> nat list \<Rightarrow> nat list
     \<Rightarrow> 'b world \<Rightarrow> (nat \<times> nat list \<times> nat list) result \<times> 'b world" where
  "receive i path max_bytes j [] received head hashed w =
     (case i ''flush'' path of
        Some e \<Rightarrow> (Inl (Internal (''Failed to flush upload: '' @ e)), w)
      | None \<Rightarrow> (Inr (received, head, hashed), w))"
| "receive i path max_bytes j (Inl e # cs) received head hashed w =
     (Inl (BadRequest (''Failed to read upload: '' @ e)), w)"
| "receive i path max_bytes j (Inr chunk # cs) received head hashed w =
     (let received' = received + length chunk in
      if max_bytes < received'
      then (Inl (PayloadTooLarge (''File exceeds the '' @ nat_str max_bytes @ '' byte limit'')), w)
      else (case i (''write_all '' @ nat_str j) path of
              Some e \<Rightarrow> (Inl (Internal (''Failed to write chunk: '' @ e)), w)
            | None \<Rightarrow>
                receive i path max_bytes (Suc j) cs received'
                  (if length head < 16 then head @ take (16 - length head) chunk else head)
                  (hashed @ chunk) (append_file path chunk w)))"

definition org_exists :: "uuid \<Rightarrow> store \<Rightarrow> bool" where
  "org_exists g st = sql_exists (\<lambda>x. og_id x = g) (organizations st)"

text \<open>The \<open>INSERT\<close> into \<open>files\<close>: the unique storage key, the two references.\<close>

definition insert_file :: "file_row \<Rightarrow> store \<Rightarrow> app_error + store" where
  "insert_file r st =
     (case sql_insert file_clash r (files st) of
        None \<Rightarrow> Inl unique_violation
      | Some fs \<Rightarrow>
          if fk_ok (\<lambda>u. user_exists u st) (f_owner_id r) \<and> fk_ok (\<lambda>g. org_exists g st) (f_org_id r)
          then Inr (st\<lparr>files := fs\<rparr>) else Inl fk_violation)"

text \<open>From a received body to the stored row: typing, the backend, the row.\<close>

definition store_upload ::
  "ext \<Rightarrow> app_config \<Rightarrow> call \<Rightarrow> io \<Rightarrow> 'b backend \<Rightarrow> uuid \<Rightarrow> uuid option \<Rightarrow> string \<Rightarrow> string \<Rightarrow> string
     \<Rightarrow> nat \<times> nat list \<times> nat list \<Rightarrow> store \<Rightarrow> 'b world \<Rightarrow> file_row result \<times> store \<times> 'b world" where
  "store_upload P cfg k i B owner_id org_id original_name visibility temp_path received st w =
     (case received of (nbytes, head, hashed) \<Rightarrow>
      if nbytes = 0 then (Inl (BadRequest ''Uploaded file is empty''), st, remove_file i temp_path w)
      else
      let mime = sniff_mime head original_name in
      case ensure_mime_allowed cfg mime of
        Inl e \<Rightarrow> (Inl e, st, remove_file i temp_path w)
      | Inr _ \<Rightarrow>
        (let key = uuid_str P (c_uuid k 0) @ ''.'' @ extension_for mime in
         case be_put_file B key temp_path mime w of
           (Inl e, w') \<Rightarrow> (Inl e, st, remove_file i temp_path w')
         | (Inr _, w') \<Rightarrow>
           (let w'' = remove_file i temp_path w' in
            case normalize_visibility visibility of
              Inl e \<Rightarrow> (Inl e, st, w'')
            | Inr vis \<Rightarrow>
              (let r = \<lparr>f_id = c_uuid k 0, f_owner_id = Some owner_id, f_org_id = org_id, f_bucket = ''default'',
                        f_storage_key = key, f_original_name = original_name, f_mime_type = mime,
                        f_size_bytes = as_i64 (word_of_nat nbytes),
                        f_checksum_sha256 = Some (concat (map hex_byte (sha256 P hashed))),
                        f_visibility = vis, f_status = ''ready'', f_upload_expires_at = None,
                        f_created_at = c_now k, f_deleted_at = None\<rparr> in
               case insert_file r st of
                 Inr st' \<Rightarrow> (Inr r, st', w'')
               | Inl e \<Rightarrow> (Inl e, st, snd (be_delete B key w''))))))"

definition save_upload_field ::
  "ext \<Rightarrow> app_config \<Rightarrow> call \<Rightarrow> io \<Rightarrow> 'b backend \<Rightarrow> uuid \<Rightarrow> uuid option \<Rightarrow> field \<Rightarrow> string
     \<Rightarrow> store \<Rightarrow> 'b world \<Rightarrow> file_row result \<times> store \<times> 'b world" where
  "save_upload_field P cfg k i B owner_id org_id fd visibility st w =
     (case (case org_id of None \<Rightarrow> Inr RoleMember | Some g \<Rightarrow> require_membership g owner_id st) of
        Inl e \<Rightarrow> (Inl e, st, w)
      | Inr _ \<Rightarrow>
        (let original_name = sanitize_filename (unwrap_or (fd_file_name fd) ''unnamed_file'');
             temp_path = path_join (upload_dir cfg) (uuid_str P (c_uuid k 0) @ ''.part'') in
         case i ''create_dir_all'' (upload_dir cfg) of
           Some e \<Rightarrow> (Inl (Internal (''Failed to create upload dir: '' @ e)), st, w)
         | None \<Rightarrow>
           (case i ''create'' temp_path of
              Some e \<Rightarrow> (Inl (Internal (''Failed to create file: '' @ e)), st, w)
            | None \<Rightarrow>
              (case receive i temp_path (max_upload_bytes cfg) 0 (fd_chunks fd) 0 [] [] (write_file temp_path [] w) of
                 (Inl e, w') \<Rightarrow> (Inl e, st, remove_file i temp_path w')
               | (Inr received, w') \<Rightarrow>
                   store_upload P cfg k i B owner_id org_id original_name visibility temp_path received st w'))))"

section \<open>Access\<close>

definition file_not_found :: app_error where
  "file_not_found = NotFound ''File not found''"

text \<open>What \<open>deleted_at IS NULL AND status = 'ready'\<close> selects.\<close>

definition readable :: "file_row \<Rightarrow> bool" where
  "readable f \<longleftrightarrow> f_deleted_at f = None \<and> f_status f = ''ready''"

definition list_org_files ::
  "uuid \<Rightarrow> uuid \<Rightarrow> page_params \<Rightarrow> store \<Rightarrow> (file_row list \<times> 64 word) result" where
  "list_org_files org_id viewer_id params st =
     and_then (require_membership org_id viewer_id st)
       (\<lambda>_. sql_page (\<lambda>f. f_org_id f = Some org_id \<and> readable f) f_created_at params (files st))"

definition load_record :: "uuid \<Rightarrow> store \<Rightarrow> file_row result" where
  "load_record i st = ok_or file_not_found (find (\<lambda>f. f_id f = i \<and> readable f) (files st))"

definition authorize_read :: "file_row \<Rightarrow> (uuid \<times> string) option \<Rightarrow> store \<Rightarrow> unit result" where
  "authorize_read f viewer st =
     (if f_visibility f = ''public'' then Inr ()
      else (case viewer of
              None \<Rightarrow> Inl file_not_found
            | Some (viewer_id, role) \<Rightarrow>
                if Some viewer_id = f_owner_id f \<or> role = ''admin'' then Inr ()
                else (case f_org_id f of
                        Some g \<Rightarrow> if get_user_org_role g viewer_id st \<noteq> None then Inr () else Inl file_not_found
                      | None \<Rightarrow> Inl file_not_found)))"

definition authorize_write :: "file_row \<Rightarrow> uuid \<Rightarrow> string \<Rightarrow> store \<Rightarrow> unit result" where
  "authorize_write f actor_id role st =
     (if Some actor_id = f_owner_id f \<or> role = ''admin'' then Inr ()
      else (case f_org_id f of
              Some g \<Rightarrow>
                (case get_user_org_role g actor_id st of
                   Some r \<Rightarrow> if RoleAdmin \<le> r then Inr () else Inl file_not_found
                 | None \<Rightarrow> Inl file_not_found)
            | None \<Rightarrow> Inl file_not_found))"

definition open_file :: "'b backend \<Rightarrow> file_row \<Rightarrow> 'b world \<Rightarrow> (nat list \<times> nat) result" where
  "open_file B f w =
     and_then (be_open B (f_storage_key f) w) (\<lambda>(data, n).
       Inr (data, if n = 0 then nat (max (f_size_bytes f) 0) else n))"

text \<open>A failure to remove the object is logged and dropped.\<close>

definition delete_file ::
  "time \<Rightarrow> 'b backend \<Rightarrow> file_row \<Rightarrow> store \<Rightarrow> 'b world \<Rightarrow> string result \<times> store \<times> 'b world" where
  "delete_file now B f st w =
     (Inr (''File '' @ quoted (f_original_name f) @ '' deleted successfully''),
      st\<lparr>files := sql_update (\<lambda>r. f_id r = f_id f \<and> f_deleted_at r = None)
                    (\<lambda>r. r\<lparr>f_deleted_at := Some now\<rparr>) (files st)\<rparr>,
      snd (be_delete B (f_storage_key f) w))"

section \<open>Signed URLs\<close>

definition signing_payload :: "string \<Rightarrow> string \<Rightarrow> int \<Rightarrow> string" where
  "signing_payload meth key expires_at = meth @ CHR 0x0A # key @ CHR 0x0A # int_str expires_at"

definition verify_url_signature ::
  "ext \<Rightarrow> app_config \<Rightarrow> time \<Rightarrow> string \<Rightarrow> string \<Rightarrow> int \<Rightarrow> string \<Rightarrow> bool" where
  "verify_url_signature P cfg now meth key expires signature =
     (let expires_at = seconds expires in
      if \<not> (chrono_min P \<le> expires_at \<and> expires_at \<le> chrono_max P) then False
      else if expires_at \<le> now then False
      else verify_signature P (url_signing_key cfg) (signing_payload meth key expires) signature)"

record presigned_upload_request =
  pr_filename :: string
  pr_content_type :: string
  pr_size_bytes :: "nat option"
  pr_visibility :: "string option"
  pr_org_id :: "uuid option"

record presigned_upload_response =
  pu_file_id :: uuid
  pu_storage_key :: string
  pu_upload_url :: string
  pu_file_url :: string
  pu_complete_url :: string
  pu_method :: string
  pu_expires_at :: time
  pu_expires_in_seconds :: int
  pu_max_bytes :: nat

record signed_url_response =
  su_url :: string
  su_expires_at :: time
  su_expires_in_seconds :: int

text \<open>\<open>url?expires=\<dots>&signature=\<dots>\<close>.\<close>

definition with_signature :: "ext \<Rightarrow> app_config \<Rightarrow> string \<Rightarrow> string \<Rightarrow> string \<Rightarrow> time \<Rightarrow> string" where
  "with_signature P cfg url meth key expires_at =
     url @ ''expires='' @ int_str (timestamp expires_at) @ ''&signature=''
       @ sign P (url_signing_key cfg) (signing_payload meth key (timestamp expires_at))"

definition base_url :: "app_config \<Rightarrow> string" where
  "base_url cfg = trim_end_matches (CHR ''/'') (public_base_url cfg)"

definition generate_presigned_upload ::
  "ext \<Rightarrow> app_config \<Rightarrow> call \<Rightarrow> 'b backend \<Rightarrow> uuid \<Rightarrow> uuid option \<Rightarrow> presigned_upload_request
     \<Rightarrow> store \<Rightarrow> 'b world \<Rightarrow> presigned_upload_response result \<times> store" where
  "generate_presigned_upload P cfg k B owner_id org_id req st w =
     (let content_type = to_ascii_lowercase (str_trim (pr_content_type req)) in
      case ensure_mime_allowed cfg content_type of
        Inl e \<Rightarrow> (Inl e, st)
      | Inr _ \<Rightarrow>
      if (case pr_size_bytes req of Some n \<Rightarrow> max_upload_bytes cfg < n | None \<Rightarrow> False)
      then (Inl (PayloadTooLarge (''Declared size exceeds the '' @ nat_str (max_upload_bytes cfg) @ '' byte limit'')), st)
      else
      case (case org_id of None \<Rightarrow> Inr RoleMember | Some g \<Rightarrow> require_membership g owner_id st) of
        Inl e \<Rightarrow> (Inl e, st)
      | Inr _ \<Rightarrow>
      case normalize_visibility (unwrap_or (pr_visibility req) ''private'') of
        Inl e \<Rightarrow> (Inl e, st)
      | Inr vis \<Rightarrow>
      let i = c_uuid k 0; key = uuid_str P i @ ''.'' @ extension_for content_type;
          ttl = signed_url_ttl_seconds cfg; expires_at = c_now k + seconds ttl;
          r = \<lparr>f_id = i, f_owner_id = Some owner_id, f_org_id = org_id, f_bucket = ''default'',
               f_storage_key = key, f_original_name = sanitize_filename (pr_filename req),
               f_mime_type = content_type, f_size_bytes = 0, f_checksum_sha256 = None,
               f_visibility = vis, f_status = ''pending'', f_upload_expires_at = None,
               f_created_at = c_now k, f_deleted_at = None\<rparr> in
      case insert_file r st of
        Inl e \<Rightarrow> (Inl e, st)
      | Inr st' \<Rightarrow>
      case be_presign_put B key content_type ttl w of
        Inl e \<Rightarrow> (Inl e, st')
      | Inr native \<Rightarrow>
          (Inr \<lparr>pu_file_id = i, pu_storage_key = key,
                pu_upload_url =
                  (case native of
                     Some url \<Rightarrow> url
                   | None \<Rightarrow> with_signature P cfg
                       (base_url cfg @ ''/api/v1/files/upload-signed?key='' @ key @ ''&'') ''PUT'' key expires_at),
                pu_file_url = base_url cfg @ ''/api/v1/files/'' @ uuid_str P i,
                pu_complete_url = base_url cfg @ ''/api/v1/files/'' @ uuid_str P i @ ''/complete'',
                pu_method = ''PUT'', pu_expires_at = expires_at, pu_expires_in_seconds = ttl,
                pu_max_bytes = max_upload_bytes cfg\<rparr>, st'))"

definition accept_signed_upload ::
  "ext \<Rightarrow> app_config \<Rightarrow> time \<Rightarrow> 'b backend \<Rightarrow> string \<Rightarrow> int \<Rightarrow> string \<Rightarrow> nat list
     \<Rightarrow> store \<Rightarrow> 'b world \<Rightarrow> unit result \<times> 'b world" where
  "accept_signed_upload P cfg now B key expires signature body st w =
     (if \<not> verify_url_signature P cfg now ''PUT'' key expires signature
      then (Inl (Forbidden ''Invalid or expired upload signature''), w)
      else if max_upload_bytes cfg < length body
      then (Inl (PayloadTooLarge (''Upload exceeds the '' @ nat_str (max_upload_bytes cfg) @ '' byte limit'')), w)
      else (case find (\<lambda>f. f_storage_key f = key \<and> f_status f = ''pending'' \<and> f_deleted_at f = None) (files st) of
              None \<Rightarrow> (Inl (NotFound ''No pending upload for this key''), w)
            | Some f \<Rightarrow> be_put_bytes B key body (f_mime_type f) w))"

definition tombstone :: "time \<Rightarrow> uuid \<Rightarrow> store \<Rightarrow> store" where
  "tombstone now i st = st\<lparr>files := sql_update (\<lambda>r. f_id r = i) (\<lambda>r. r\<lparr>f_deleted_at := Some now\<rparr>) (files st)\<rparr>"

definition mark_ready :: "int \<Rightarrow> file_row \<Rightarrow> file_row" where
  "mark_ready n f = f\<lparr>f_status := ''ready'', f_size_bytes := n\<rparr>"

definition complete_upload ::
  "app_config \<Rightarrow> time \<Rightarrow> 'b backend \<Rightarrow> uuid \<Rightarrow> uuid \<Rightarrow> string \<Rightarrow> store \<Rightarrow> 'b world
     \<Rightarrow> file_row result \<times> store \<times> 'b world" where
  "complete_upload cfg now B i actor_id role st w =
     (case find (\<lambda>f. f_id f = i \<and> f_deleted_at f = None) (files st) of
        None \<Rightarrow> (Inl file_not_found, st, w)
      | Some f \<Rightarrow>
        (case authorize_write f actor_id role st of
           Inl e \<Rightarrow> (Inl e, st, w)
         | Inr _ \<Rightarrow>
             if f_status f = ''ready'' then (Inr f, st, w)
             else
             (case be_head B (f_storage_key f) w of
                Inl _ \<Rightarrow> (Inl (BadRequest ''No uploaded object found for this reservation. Upload the bytes first.''), st, w)
              | Inr meta \<Rightarrow>
                  if om_len meta = 0 then (Inl (BadRequest ''Uploaded object is empty''), st, w)
                  else if max_upload_bytes cfg < om_len meta
                  then (Inl (PayloadTooLarge (''Uploaded object is '' @ nat_str (om_len meta) @ '' bytes, over the ''
                               @ nat_str (max_upload_bytes cfg) @ '' byte limit'')),
                        tombstone now i st, snd (be_delete B (f_storage_key f) w))
                  else
                  (let n = as_i64 (word_of_nat (om_len meta)) in
                   (Inr (if f_status f = ''pending'' then mark_ready n f else f),
                    st\<lparr>files := sql_update (\<lambda>r. f_id r = i \<and> f_status r = ''pending'') (mark_ready n) (files st)\<rparr>,
                    w)))))"

definition generate_signed_download :: "ext \<Rightarrow> app_config \<Rightarrow> time \<Rightarrow> file_row \<Rightarrow> signed_url_response" where
  "generate_signed_download P cfg now f =
     (let expires_at = now + seconds (signed_url_ttl_seconds cfg) in
      \<lparr>su_url = with_signature P cfg (base_url cfg @ ''/api/v1/files/'' @ uuid_str P (f_id f) @ ''?'')
                  ''GET'' (uuid_str P (f_id f)) expires_at,
       su_expires_at = expires_at, su_expires_in_seconds = signed_url_ttl_seconds cfg\<rparr>)"

definition generate_signed_download_url ::
  "ext \<Rightarrow> app_config \<Rightarrow> time \<Rightarrow> 'b backend \<Rightarrow> file_row \<Rightarrow> 'b world \<Rightarrow> signed_url_response result" where
  "generate_signed_download_url P cfg now B f w =
     (let ttl = signed_url_ttl_seconds cfg in
      and_then (be_presign_get B (f_storage_key f) ttl w) (\<lambda>native.
        case native of
          Some url \<Rightarrow> Inr \<lparr>su_url = url, su_expires_at = now + seconds ttl, su_expires_in_seconds = ttl\<rparr>
        | None \<Rightarrow> Inr (generate_signed_download P cfg now f)))"

section \<open>Abandoned uploads\<close>

definition abandoned :: "app_config \<Rightarrow> time \<Rightarrow> file_row \<Rightarrow> bool" where
  "abandoned cfg now f \<longleftrightarrow> f_status f = ''pending'' \<and> f_deleted_at f = None \<and>
     f_created_at f < now - seconds (signed_url_ttl_seconds cfg * 2)"

fun reap_each :: "time \<Rightarrow> 'b backend \<Rightarrow> (uuid \<times> string) list \<Rightarrow> store \<Rightarrow> 'b world \<Rightarrow> store \<times> 'b world" where
  "reap_each now B [] st w = (st, w)"
| "reap_each now B ((i, key) # rest) st w =
     reap_each now B rest (tombstone now i st) (snd (be_delete B key w))"

definition reap_abandoned_uploads :: "app_config \<Rightarrow> time \<Rightarrow> 'b backend \<Rightarrow> store \<Rightarrow> 'b world \<Rightarrow> store \<times> 'b world" where
  "reap_abandoned_uploads cfg now B st w =
     reap_each now B (map (\<lambda>f. (f_id f, f_storage_key f)) (filter (abandoned cfg now) (files st))) st w"

section \<open>What a client sees of a file\<close>

record upload_response =
  ur_id :: uuid
  ur_org_id :: "uuid option"
  ur_storage_key :: string
  ur_original_name :: string
  ur_size_bytes :: int
  ur_mime_type :: string
  ur_visibility :: string
  ur_url :: string

definition upload_response_of :: "ext \<Rightarrow> file_row \<Rightarrow> upload_response" where
  "upload_response_of P f =
     \<lparr>ur_id = f_id f, ur_org_id = f_org_id f, ur_storage_key = f_storage_key f,
      ur_original_name = f_original_name f, ur_size_bytes = f_size_bytes f, ur_mime_type = f_mime_type f,
      ur_visibility = f_visibility f, ur_url = ''/api/v1/files/'' @ uuid_str P (f_id f)\<rparr>"

end
