(* ===== verification/File_Routes.thy ===== *)
theory File_Routes
  imports Storage
begin

text \<open>
  The HTTP handlers of files (\<open>src/routes/v1/files.rs\<close>): each checks the caller's scope and
  right, calls the service and writes the audit trail.  The caller is what the extractor made
  of the request.  The text of a failed validation, whether a text may be an HTTP header, and
  the printing of a page's metadata as JSON are parameters.
\<close>

section \<open>Uploading\<close>

text \<open>A part of a multipart body: its name, its text if that can be read, and its stream.\<close>

record part =
  pt_name :: "string option"
  pt_text :: "string option"
  pt_field :: field

fun opt_uuid_json :: "ext \<Rightarrow> uuid option \<Rightarrow> json" where
  "opt_uuid_json P None = JNull"
| "opt_uuid_json P (Some i) = JStr (uuid_str P i)"

definition uploaded_audit ::
  "ext \<Rightarrow> call \<Rightarrow> auth_user \<Rightarrow> request_context \<Rightarrow> file_row \<Rightarrow> store \<Rightarrow> store" where
  "uploaded_audit P k au ctx f st =
     record_best_effort k (c_uuid k 1) (Some (au_id au)) ''file.uploaded'' ''file''
       (Some (uuid_str P (f_id f))) ctx
       (Some (JObj [(''mime_type'', JStr (f_mime_type f)), (''size_bytes'', JNum (f_size_bytes f)),
                    (''visibility'', JStr (f_visibility f)), (''org_id'', opt_uuid_json P (f_org_id f))])) st"

text \<open>The loop over the parts: what was set before the part named \<open>file\<close> applies to it.\<close>

fun upload_parts ::
  "ext \<Rightarrow> app_config \<Rightarrow> call \<Rightarrow> io \<Rightarrow> 'b backend \<Rightarrow> auth_user \<Rightarrow> request_context \<Rightarrow> (string + part) list
     \<Rightarrow> string \<Rightarrow> uuid option \<Rightarrow> store \<Rightarrow> 'b world
     \<Rightarrow> (nat \<times> upload_response api_response) result \<times> store \<times> 'b world" where
  "upload_parts P cfg k i B au ctx [] visibility org_id st w =
     (Inl (BadRequest (''Missing '' @ quoted ''file'' @ '' multipart field'')), st, w)"
| "upload_parts P cfg k i B au ctx (Inl e # ps) visibility org_id st w =
     (Inl (BadRequest (''Failed to parse multipart: '' @ e)), st, w)"
| "upload_parts P cfg k i B au ctx (Inr p # ps) visibility org_id st w =
     (if pt_name p = Some ''visibility''
      then upload_parts P cfg k i B au ctx ps (unwrap_or (pt_text p) ''private'') org_id st w
      else if pt_name p = Some ''org_id''
      then (let trimmed = str_trim (unwrap_or (pt_text p) []) in
            if trimmed = [] then upload_parts P cfg k i B au ctx ps visibility org_id st w
            else (case uuid_parse P trimmed of
                    None \<Rightarrow> (Inl (BadRequest ''org_id must be a UUID''), st, w)
                  | Some g \<Rightarrow> upload_parts P cfg k i B au ctx ps visibility (Some g) st w))
      else if pt_name p = Some ''file''
      then (case save_upload_field P cfg k i B (au_id au) org_id (pt_field p) visibility st w of
              (Inl e, st', w') \<Rightarrow> (Inl e, st', w')
            | (Inr f, st', w') \<Rightarrow>
                (Inr (201, api_success (upload_response_of P f)), uploaded_audit P k au ctx f st', w'))
      else upload_parts P cfg k i B au ctx ps visibility org_id st w)"

definition upload_file_route ::
  "ext \<Rightarrow> app_config \<Rightarrow> call \<Rightarrow> io \<Rightarrow> 'b backend \<Rightarrow> auth_user \<Rightarrow> request_context \<Rightarrow> (string + part) list
     \<Rightarrow> store \<Rightarrow> 'b world \<Rightarrow> (nat \<times> upload_response api_response) result \<times> store \<times> 'b world" where
  "upload_file_route P cfg k i B au ctx parts st w =
     (case require_scope au FilesWrite of
        Inl e \<Rightarrow> (Inl e, st, w)
      | Inr _ \<Rightarrow> upload_parts P cfg k i B au ctx parts ''private'' None st w)"

section \<open>Reserving, filling and completing\<close>

definition validate_presigned_upload :: "presigned_upload_request \<Rightarrow> (string \<times> string) list" where
  "validate_presigned_upload r =
     check_field ''filename'' ''Filename is required'' (length_between 1 255 (pr_filename r))
     @ check_field ''content_type'' ''MIME type is required'' (length_between 3 127 (pr_content_type r))"

type_synonym errors_text = "(string \<times> string) list \<Rightarrow> string"

definition create_presigned_url ::
  "errors_text \<Rightarrow> ext \<Rightarrow> app_config \<Rightarrow> call \<Rightarrow> 'b backend \<Rightarrow> auth_user \<Rightarrow> presigned_upload_request
     \<Rightarrow> store \<Rightarrow> 'b world \<Rightarrow> presigned_upload_response api_response result \<times> store" where
  "create_presigned_url V P cfg k B au payload st w =
     (case require_scope au FilesWrite of
        Inl e \<Rightarrow> (Inl e, st)
      | Inr _ \<Rightarrow>
          if validate_presigned_upload payload \<noteq> []
          then (Inl (ValidationError (V (validate_presigned_upload payload))), st)
          else (case generate_presigned_upload P cfg k B (au_id au) (pr_org_id payload) payload st w of
                  (Inl e, st') \<Rightarrow> (Inl e, st')
                | (Inr r, st') \<Rightarrow> (Inr (api_success r), st')))"

record signed_access_query =
  sq_expires :: "int option"
  sq_signature :: "string option"
  sq_key :: "string option"

definition upload_signed ::
  "ext \<Rightarrow> app_config \<Rightarrow> time \<Rightarrow> 'b backend \<Rightarrow> signed_access_query \<Rightarrow> nat list
     \<Rightarrow> store \<Rightarrow> 'b world \<Rightarrow> string api_response result \<times> 'b world" where
  "upload_signed P cfg now B q body st w =
     (case (sq_key q, sq_expires q, sq_signature q) of
        (Some key, Some expires, Some signature) \<Rightarrow>
          (case accept_signed_upload P cfg now B key expires signature body st w of
             (Inl e, w') \<Rightarrow> (Inl e, w')
           | (Inr _, w') \<Rightarrow> (Inr (api_success ''Upload stored. Call the complete endpoint to finish.''), w'))
      | _ \<Rightarrow> (Inl (BadRequest ''key, expires and signature are all required''), w))"

definition complete_upload_route ::
  "ext \<Rightarrow> app_config \<Rightarrow> call \<Rightarrow> 'b backend \<Rightarrow> auth_user \<Rightarrow> request_context \<Rightarrow> uuid
     \<Rightarrow> store \<Rightarrow> 'b world \<Rightarrow> upload_response api_response result \<times> store \<times> 'b world" where
  "complete_upload_route P cfg k B au ctx i st w =
     (case require_scope au FilesWrite of
        Inl e \<Rightarrow> (Inl e, st, w)
      | Inr _ \<Rightarrow>
        (case complete_upload cfg (c_now k) B i (au_id au) (au_role au) st w of
           (Inl e, st', w') \<Rightarrow> (Inl e, st', w')
         | (Inr f, st', w') \<Rightarrow>
             (Inr (api_success (upload_response_of P f)),
              record_best_effort k (c_uuid k 0) (Some (au_id au)) ''file.upload_completed'' ''file''
                (Some (uuid_str P (f_id f))) ctx
                (Some (JObj [(''size_bytes'', JNum (f_size_bytes f)), (''org_id'', opt_uuid_json P (f_org_id f))])) st',
              w')))"

section \<open>Reading\<close>

definition create_signed_download_url ::
  "ext \<Rightarrow> app_config \<Rightarrow> time \<Rightarrow> 'b backend \<Rightarrow> auth_user \<Rightarrow> uuid \<Rightarrow> store \<Rightarrow> 'b world
     \<Rightarrow> signed_url_response api_response result" where
  "create_signed_download_url P cfg now B au i st w =
     and_then (require_scope au FilesRead) (\<lambda>_.
     and_then (load_record i st) (\<lambda>f.
     and_then (authorize_write f (au_id au) (au_role au) st) (\<lambda>_.
     and_then (generate_signed_download_url P cfg now B f w) (\<lambda>r. Inr (api_success r)))))"

record file_response =
  fr_body :: "nat list"
  fr_content_type :: string
  fr_content_length :: nat
  fr_disposition :: string
  fr_etag :: "string option"
  fr_cache_control :: string

text \<open>\<open>header_ok\<close>: \<open>HeaderValue::from_str\<close> accepts the text.\<close>

definition file_headers :: "(string \<Rightarrow> bool) \<Rightarrow> file_row \<Rightarrow> nat list \<Rightarrow> nat \<Rightarrow> file_response" where
  "file_headers header_ok f body n =
     (let disposition = ''attachment; filename='' @ [CHR 0x22]
            @ filter (\<lambda>c. c \<noteq> CHR 0x22) (f_original_name f) @ [CHR 0x22] in
      \<lparr>fr_body = body,
       fr_content_type = (if header_ok (f_mime_type f) then f_mime_type f else ''application/octet-stream''),
       fr_content_length = n,
       fr_disposition = (if header_ok disposition then disposition else ''attachment''),
       fr_etag = Option.bind (f_checksum_sha256 f) (\<lambda>c.
         let e = CHR 0x22 # c @ [CHR 0x22] in if header_ok e then Some e else None),
       fr_cache_control = (if f_visibility f = ''public'' then ''public, max-age=3600'' else ''private, no-store'')\<rparr>)"

definition get_file ::
  "(string \<Rightarrow> bool) \<Rightarrow> ext \<Rightarrow> app_config \<Rightarrow> time \<Rightarrow> 'b backend \<Rightarrow> auth_user option \<Rightarrow> uuid
     \<Rightarrow> signed_access_query \<Rightarrow> store \<Rightarrow> 'b world \<Rightarrow> file_response result" where
  "get_file header_ok P cfg now B viewer i q st w =
     and_then (load_record i st) (\<lambda>f.
       let signature_ok =
             (case (sq_expires q, sq_signature q) of
                (Some expires, Some signature) \<Rightarrow>
                  verify_url_signature P cfg now ''GET'' (uuid_str P i) expires signature
              | _ \<Rightarrow> False) in
       and_then
         (if signature_ok then Inr ()
          else and_then (case viewer of Some v \<Rightarrow> require_scope v FilesRead | None \<Rightarrow> Inr ())
                 (\<lambda>_. authorize_read f (map_option (\<lambda>v. (au_id v, au_role v)) viewer) st))
         (\<lambda>_. and_then (open_file B f w) (\<lambda>(body, n). Inr (file_headers header_ok f body n))))"

definition list_org_files_route ::
  "(page_meta \<Rightarrow> json) \<Rightarrow> ext \<Rightarrow> auth_user \<Rightarrow> uuid \<Rightarrow> page_params \<Rightarrow> store
     \<Rightarrow> upload_response list api_response result" where
  "list_org_files_route J P au org_id params st =
     and_then (require_scope au FilesRead) (\<lambda>_.
     and_then (list_org_files org_id (au_id au) params st) (\<lambda>(fs, cnt).
       Inr (api_with_meta (map (upload_response_of P) fs)
              (J (page_meta_new (pp_get_page params) (pp_get_page_size params) cnt)))))"

section \<open>Deleting\<close>

definition delete_file_route ::
  "ext \<Rightarrow> call \<Rightarrow> 'b backend \<Rightarrow> auth_user \<Rightarrow> request_context \<Rightarrow> uuid \<Rightarrow> store \<Rightarrow> 'b world
     \<Rightarrow> string api_response result \<times> store \<times> 'b world" where
  "delete_file_route P k B au ctx i st w =
     (case and_then (require_scope au FilesWrite) (\<lambda>_.
           and_then (load_record i st) (\<lambda>f.
           and_then (authorize_write f (au_id au) (au_role au) st) (\<lambda>_. Inr f))) of
        Inl e \<Rightarrow> (Inl e, st, w)
      | Inr f \<Rightarrow>
        (case delete_file (c_now k) B f st w of
           (Inl e, st', w') \<Rightarrow> (Inl e, st', w')
         | (Inr msg, st', w') \<Rightarrow>
             (Inr (api_success msg),
              record_best_effort k (c_uuid k 0) (Some (au_id au)) ''file.deleted'' ''file''
                (Some (uuid_str P (f_id f))) ctx None st', w')))"

end
