(* ===== verification/File_Facts.thy ===== *)
theory File_Facts
  imports File_Routes
begin

text \<open>
  What holds of files: the outcome of a streamed upload, who may read, what a signed URL
  grants and for how long, the life of a reservation, and what no sequence of requests changes.
\<close>

section \<open>Names\<close>

lemma set_take_filter: "c \<in> set (take n (filter p xs)) \<Longrightarrow> p c \<and> c \<in> set xs"
  by (auto dest: in_set_takeD)

lemma sanitize_chars:
  obtains "sanitize_filename s = ''unnamed_file''"
  | cs where "chars (sanitize_filename s) = trim_by is_whitespace cs" "length cs \<le> 255"
      "\<forall>c\<in>set cs. \<not> is_control c \<and> c \<noteq> 0x2F \<and> c \<noteq> 0x5C" "sanitize_filename s \<noteq> []"
      "str_trim (sanitize_filename s) = sanitize_filename s"
proof -
  let ?cs = "take 255 (filter (\<lambda>c. \<not> is_control c \<and> c \<noteq> 0x2F \<and> c \<noteq> 0x5C) (chars s))"
  show thesis
  proof (cases "str_trim (of_chars ?cs) = []")
    case True
    then show ?thesis by (intro that(1)) (simp add: sanitize_filename_def)
  next
    case False
    then have s: "sanitize_filename s = str_trim (of_chars ?cs)" by (simp add: sanitize_filename_def)
    have "chars (of_chars ?cs) = ?cs"
      by (rule chars_of_chars) (use chars_scalar set_take_filter in fastforce)
    then have c: "chars (sanitize_filename s) = trim_by is_whitespace ?cs" unfolding s chars_str_trim by simp
    show ?thesis
    proof (rule that(2) [OF c])
      show "length ?cs \<le> 255" by simp
      show "\<forall>c\<in>set ?cs. \<not> is_control c \<and> c \<noteq> 0x2F \<and> c \<noteq> 0x5C"
        by (rule ballI, drule set_take_filter) simp
      show "sanitize_filename s \<noteq> []" using False s by simp
      show "str_trim (sanitize_filename s) = sanitize_filename s" unfolding s by (rule str_trim_idem)
    qed
  qed
qed

lemma sanitize_default: "chars ''unnamed_file'' = bytes_of ''unnamed_file''"
  by (rule chars_ascii) simp


section \<open>Streamed uploads\<close>

text \<open>What the loop over the chunks has written, counted, sampled and hashed when it ends.\<close>

lemma receive_outcome:
  assumes "receive i path m j cs n head hashed w = (r, w')"
  shows "w_remote w' = w_remote w \<and> (\<forall>p. p \<noteq> path \<longrightarrow> w_fs w' p = w_fs w p)"
    and "r = Inr (n', head', hashed') \<Longrightarrow> w_fs w path = Some d \<Longrightarrow>
      \<exists>data. cs = map Inr data \<and> n' = n + length (concat data) \<and> hashed' = hashed @ concat data \<and>
        (head = take 16 hashed \<longrightarrow> head' = take 16 (hashed @ concat data)) \<and> (n \<le> m \<longrightarrow> n' \<le> m) \<and>
        w_fs w' path = Some (d @ concat data)"
proof -
  show "w_remote w' = w_remote w \<and> (\<forall>p. p \<noteq> path \<longrightarrow> w_fs w' p = w_fs w p)"
    using assms
    by (induction i path m j cs n head hashed w rule: receive.induct)
      (auto simp: Let_def append_file_def split: option.splits if_splits)
  show "\<exists>data. cs = map Inr data \<and> n' = n + length (concat data) \<and> hashed' = hashed @ concat data \<and>
        (head = take 16 hashed \<longrightarrow> head' = take 16 (hashed @ concat data)) \<and> (n \<le> m \<longrightarrow> n' \<le> m) \<and>
        w_fs w' path = Some (d @ concat data)" if "r = Inr (n', head', hashed')" "w_fs w path = Some d"
    using assms that
  proof (induction i path m j cs n head hashed w arbitrary: d rule: receive.induct)
    case (1 i path m j received head hashed w)
    then show ?case by (auto split: option.splits)
  next
    case (2 i path m j e cs received head hashed w)
    then show ?case by simp
  next
    case (3 i path m j chunk cs received head hashed w)
    let ?n = "received + length chunk" and ?w = "append_file path chunk w"
    let ?h = "if length head < 16 then head @ take (16 - length head) chunk else head"
    have ok: "\<not> m < ?n" "i (''write_all '' @ nat_str j) path = None"
      using 3(2,3) by (auto simp: Let_def split: option.splits if_splits)
    then have next_call: "receive i path m (Suc j) cs ?n ?h (hashed @ chunk) ?w = (r, w')"
      using 3(2) by (simp add: Let_def)
    have written: "w_fs ?w path = Some (d @ chunk)" using 3(4) by (simp add: append_file_def)
    have sample: "?h = take 16 (hashed @ chunk)" if "head = take 16 hashed"
      using that by (cases "length hashed < 16") simp_all
    from 3(1) [OF refl ok next_call 3(3) written] obtain data where
      "cs = map Inr data" "n' = ?n + length (concat data)" "hashed' = (hashed @ chunk) @ concat data"
      "?h = take 16 (hashed @ chunk) \<longrightarrow> head' = take 16 ((hashed @ chunk) @ concat data)"
      "?n \<le> m \<longrightarrow> n' \<le> m" "w_fs w' path = Some ((d @ chunk) @ concat data)"
      by blast
    with sample ok show ?case by (intro exI [of _ "chunk # data"]) simp
  qed
qed

lemma insert_file_Inr:
  "insert_file r st = Inr st' \<longleftrightarrow> (\<forall>x\<in>set (files st). \<not> file_clash r x) \<and> st' = st\<lparr>files := files st @ [r]\<rparr> \<and>
     fk_ok (\<lambda>u. user_exists u st) (f_owner_id r) \<and> fk_ok (\<lambda>g. org_exists g st) (f_org_id r)"
  by (auto simp: insert_file_def sql_insert_def list_ex_iff)

lemma normalize_visibility_Inr:
  "normalize_visibility v = Inr x \<Longrightarrow> x = ''private'' \<or> x = ''public''"
  by (auto simp: normalize_visibility_def Let_def split: if_splits)

lemma ensure_mime_Inr: "ensure_mime_allowed cfg m = Inr () \<longleftrightarrow> m \<in> set (allowed_upload_mime cfg)"
  by (auto simp: ensure_mime_allowed_def list_ex_iff)

lemma save_upload_field_Inr:
  assumes "save_upload_field P cfg k i B u g fd v st w = (Inr f, st', w')"
  obtains data w1 w2 where
    "fd_chunks fd = map Inr data" "concat data \<noteq> []" "length (concat data) \<le> max_upload_bytes cfg"
    "f_id f = c_uuid k 0" "f_owner_id f = Some u" "f_org_id f = g" "f_status f = ''ready''" "f_deleted_at f = None"
    "f_storage_key f = uuid_str P (c_uuid k 0) @ ''.'' @ extension_for (f_mime_type f)"
    "f_original_name f = sanitize_filename (unwrap_or (fd_file_name fd) ''unnamed_file'')"
    "f_mime_type f = sniff_mime (take 16 (concat data)) (f_original_name f)"
    "f_mime_type f \<in> set (allowed_upload_mime cfg)"
    "f_size_bytes f = as_i64 (word_of_nat (length (concat data)))"
    "f_checksum_sha256 f = Some (concat (map hex_byte (sha256 P (concat data))))"
    "normalize_visibility v = Inr (f_visibility f)"
    "insert_file f st = Inr st'"
    "\<forall>h. g = Some h \<longrightarrow> is_ok (require_membership h u st)"
    "w_fs w1 (path_join (upload_dir cfg) (uuid_str P (c_uuid k 0) @ ''.part'')) = Some (concat data)"
    "be_put_file B (f_storage_key f) (path_join (upload_dir cfg) (uuid_str P (c_uuid k 0) @ ''.part''))
       (f_mime_type f) w1 = (Inr (), w2)"
    "w' = remove_file i (path_join (upload_dir cfg) (uuid_str P (c_uuid k 0) @ ''.part'')) w2"
proof -
  let ?tmp = "path_join (upload_dir cfg) (uuid_str P (c_uuid k 0) @ ''.part'')"
  let ?name = "sanitize_filename (unwrap_or (fd_file_name fd) ''unnamed_file'')"
  let ?member = "case g of None \<Rightarrow> Inr RoleMember | Some h \<Rightarrow> require_membership h u st"
  obtain role where role: "?member = Inr role"
    using assms by (cases ?member) (simp_all add: save_upload_field_def)
  have io: "i ''create_dir_all'' (upload_dir cfg) = None" "i ''create'' ?tmp = None"
    using assms role by (simp_all add: save_upload_field_def Let_def split: option.splits)
  obtain r w1 where rec: "receive i ?tmp (max_upload_bytes cfg) 0 (fd_chunks fd) 0 [] [] (write_file ?tmp [] w) = (r, w1)"
    by fastforce
  obtain n head hashed where r: "r = Inr (n, head, hashed)"
    using assms role io rec by (cases r) (auto simp: save_upload_field_def Let_def)
  have s: "store_upload P cfg k i B u g ?name v ?tmp (n, head, hashed) st w1 = (Inr f, st', w')"
    using assms role io rec r by (simp add: save_upload_field_def Let_def)
  obtain data where data: "fd_chunks fd = map Inr data" "n = length (concat data)" "hashed = concat data"
    "head = take 16 (concat data)" "n \<le> max_upload_bytes cfg" "w_fs w1 ?tmp = Some (concat data)"
    using receive_outcome(2) [OF rec r, of "[]"] by (auto simp: write_file_def)
  have n: "n \<noteq> 0" using s by (intro notI) (simp add: store_upload_def)
  let ?mime = "sniff_mime head ?name" and ?key = "uuid_str P (c_uuid k 0) @ ''.'' @ extension_for (sniff_mime head ?name)"
  have mime: "ensure_mime_allowed cfg ?mime = Inr ()"
    using s n by (cases "ensure_mime_allowed cfg ?mime") (simp_all add: store_upload_def Let_def)
  obtain pr w2 where pr: "be_put_file B ?key ?tmp ?mime w1 = (pr, w2)" by fastforce
  have put: "pr = Inr ()" using s n mime pr by (cases pr) (simp_all add: store_upload_def Let_def)
  obtain vis where vis: "normalize_visibility v = Inr vis"
    using s n mime pr put by (cases "normalize_visibility v") (simp_all add: store_upload_def Let_def)
  let ?r = "\<lparr>f_id = c_uuid k 0, f_owner_id = Some u, f_org_id = g, f_bucket = ''default'',
              f_storage_key = ?key, f_original_name = ?name, f_mime_type = ?mime,
              f_size_bytes = as_i64 (word_of_nat n),
              f_checksum_sha256 = Some (concat (map hex_byte (sha256 P hashed))),
              f_visibility = vis, f_status = ''ready'', f_upload_expires_at = None,
              f_created_at = c_now k, f_deleted_at = None\<rparr>"
  have ins: "insert_file ?r st = Inr st' \<and> f = ?r \<and> w' = remove_file i ?tmp w2"
    using s n mime pr put vis by (cases "insert_file ?r st") (simp_all add: store_upload_def Let_def)
  show thesis
    by (rule that [of data w1 w2])
      (use ins data n mime pr put vis role in \<open>auto simp: ensure_mime_Inr is_ok_iff split: option.splits\<close>)
qed

lemma open_without_temporary:
  assumes "key \<noteq> name"
  shows "be_open (select_backend i S cfg) key (remove_file i (path_join (upload_dir cfg) name) w) =
         be_open (select_backend i S cfg) key w"
proof -
  have l: "local_open i (upload_dir cfg) key (remove_file i (path_join (upload_dir cfg) name) w) = local_open i (upload_dir cfg) key w"
    by (rule local_open_cong) (simp add: remove_file_def path_join_inj assms)
  have s: "s3_open S p key (remove_file i (path_join (upload_dir cfg) name) w) = s3_open S p key w" for p
    by (rule s3_open_cong) (simp add: remove_file_def)
  show ?thesis
    by (cases "storage_backend cfg"; cases "cfg_s3 cfg")
      (simp_all add: select_backend_def local_backend_def s3_backend_def Let_def l s)
qed

lemma delete_creates_no_file:
  "w_fs w p = None \<Longrightarrow> w_fs (snd (be_delete (select_backend i S cfg) key w)) p = None"
  by (rule selected_backend [of i S cfg])
    (auto simp: local_backend_def s3_backend_def Let_def local_delete_def s3_delete_object_def remove_file_def
      split: sum.splits option.splits prod.splits bool.splits)

lemma extension_not_part: "extension_for m \<noteq> ''part''"
  by (simp add: extension_for_def)

lemma store_upload_Inl:
  assumes "store_upload P cfg k i (select_backend i S cfg) u g name v tmp rc st w = (Inl e, st', w')"
  shows "st' = st \<and> (i ''remove_file'' tmp = None \<longrightarrow> w_fs w' tmp = None)"
proof -
  obtain n head hashed where rc: "rc = (n, head, hashed)" by (cases rc)
  have rm: "i ''remove_file'' tmp = None \<Longrightarrow> w_fs (remove_file i tmp x) tmp = None" for x :: "'a world"
    by (simp add: remove_file_def)
  note gone = rm delete_creates_no_file [OF rm]
  show ?thesis
    using assms unfolding store_upload_def rc Let_def prod.case
    by (auto simp: gone split: if_splits sum.splits prod.splits)
qed

lemma store_upload_other_visibility:
  assumes "store_upload P cfg k i B u g name v tmp rc st w = (Inr f, st', w')" "normalize_visibility v' = Inl e"
  shows "store_upload P cfg k i B u g name v' tmp rc st w = (Inl e, st, w')"
  using assms by (auto simp: store_upload_def Let_def split: prod.splits sum.splits if_splits)

text \<open>
  The outcome of a streamed upload.  When it is accepted, the caller belongs to the
  organization named, every byte of the stream arrived and they are within the limit, the type
  is what the first sixteen bytes look like and is allowed, the row carries the size and the
  SHA-256 of exactly those bytes, and exactly those bytes are read back from whichever backend
  is configured.  When it is refused, no row is written and no temporary file is left.
\<close>

theorem streamed_upload_outcome:
  "case save_upload_field P cfg k i (select_backend i S cfg) u g fd v st w of
     (Inr f, st', w') \<Rightarrow>
       (\<exists>data. fd_chunks fd = map Inr data \<and> concat data \<noteq> [] \<and> length (concat data) \<le> max_upload_bytes cfg \<and>
          (\<forall>h. g = Some h \<longrightarrow> get_user_org_role h u st \<noteq> None) \<and>
          files st' = files st @ [f] \<and> f_owner_id f = Some u \<and> f_org_id f = g \<and> readable f \<and>
          f_mime_type f = sniff_mime (take 16 (concat data)) (f_original_name f) \<and>
          f_mime_type f \<in> set (allowed_upload_mime cfg) \<and>
          f_size_bytes f = as_i64 (word_of_nat (length (concat data))) \<and>
          f_checksum_sha256 f = Some (concat (map hex_byte (sha256 P (concat data)))) \<and>
          (\<forall>d n. be_open (select_backend i S cfg) (f_storage_key f) w' = Inr (d, n) \<longrightarrow> d = concat data))
   | (Inl e, st', w') \<Rightarrow>
       st' = st \<and>
       (let tmp = path_join (upload_dir cfg) (uuid_str P (c_uuid k 0) @ ''.part'') in
        i ''remove_file'' tmp = None \<longrightarrow> w' = w \<or> w_fs w' tmp = None)"
proof (cases "save_upload_field P cfg k i (select_backend i S cfg) u g fd v st w")
  case (fields r st' w')
  let ?B = "select_backend i S cfg" and ?tmp = "path_join (upload_dir cfg) (uuid_str P (c_uuid k 0) @ ''.part'')"
  show ?thesis
  proof (cases r)
    case (Inr f)
    from fields [unfolded Inr] show ?thesis
    proof (cases rule: save_upload_field_Inr)
      case (1 data w1 w2)
      have member: "get_user_org_role h u st \<noteq> None" if "g = Some h" for h
        using 1(17) that by (auto simp: require_membership_def require_org_role_def split: option.splits)
      have key: "f_storage_key f \<noteq> uuid_str P (c_uuid k 0) @ ''.part''"
        unfolding 1(9) using extension_not_part by simp
      have "d = concat data" if "be_open ?B (f_storage_key f) w' = Inr (d, n)" for d n
      proof -
        have "be_open ?B (f_storage_key f) w2 = Inr (d, n)"
          using that unfolding 1(20) open_without_temporary [OF key] .
        from object_store.put_file_open [OF selected_object_store 1(19) this] 1(18) show ?thesis by simp
      qed
      moreover have "files st' = files st @ [f]" using 1(16) by (auto simp: insert_file_Inr)
      ultimately show ?thesis
        using 1 member unfolding fields Inr by (auto simp: readable_def intro!: exI [of _ data])
    qed
  next
    case (Inl e)
    have rm: "i ''remove_file'' ?tmp = None \<Longrightarrow> w_fs (remove_file i ?tmp x) ?tmp = None" for x :: "'a world"
      by (simp add: remove_file_def)
    from fields Inl show ?thesis
      unfolding save_upload_field_def Let_def
      by (auto simp: rm dest: store_upload_Inl split: sum.splits option.splits prod.splits)
  qed
qed

text \<open>
  An upload that names an unknown visibility is refused only after its object is stored:
  with any visibility the code knows the same upload is accepted, with this one it ends in the
  same state of the backend, object included, but without the row that could find or delete it.
\<close>

theorem unknown_visibility_orphans_the_object:
  assumes "save_upload_field P cfg k i B u g fd v st w = (Inr f, st', w')"
    and "normalize_visibility v' = Inl e"
  shows "save_upload_field P cfg k i B u g fd v' st w = (Inl e, st, w') \<and>
         (\<exists>w1 path w2. be_put_file B (f_storage_key f) path (f_mime_type f) w1 = (Inr (), w2) \<and> w' = remove_file i path w2)"
proof
  show "save_upload_field P cfg k i B u g fd v' st w = (Inl e, st, w')"
    using assms(1) store_upload_other_visibility [OF _ assms(2)]
    unfolding save_upload_field_def Let_def
    by (auto split: sum.splits option.splits prod.splits)
  from assms(1) show "\<exists>w1 path w2. be_put_file B (f_storage_key f) path (f_mime_type f) w1 = (Inr (), w2) \<and> w' = remove_file i path w2"
    by (cases rule: save_upload_field_Inr) blast
qed

section \<open>Who reads a file\<close>

lemma load_record_Inr:
  "load_record i st = Inr f \<Longrightarrow> f \<in> set (files st) \<and> f_id f = i \<and> readable f"
  by (auto simp: load_record_def dest!: find_Some_mem)

lemma load_record_Inl: "load_record i st = Inl e \<Longrightarrow> e = file_not_found"
  by (cases "find (\<lambda>f. f_id f = i \<and> readable f) (files st)") (simp_all add: load_record_def)

text \<open>The viewer's own claim to a private file, without a signature.\<close>

definition may_read :: "file_row \<Rightarrow> (uuid \<times> string) option \<Rightarrow> store \<Rightarrow> bool" where
  "may_read f viewer st \<longleftrightarrow>
     f_visibility f = ''public'' \<or>
     (\<exists>u role. viewer = Some (u, role) \<and>
        (f_owner_id f = Some u \<or> role = ''admin'' \<or>
         (\<exists>g. f_org_id f = Some g \<and> get_user_org_role g u st \<noteq> None)))"

lemma authorize_read_iff: "authorize_read f viewer st = (if may_read f viewer st then Inr () else Inl file_not_found)"
  by (auto simp: authorize_read_def may_read_def split: option.splits)

definition granted :: "ext \<Rightarrow> app_config \<Rightarrow> time \<Rightarrow> uuid \<Rightarrow> signed_access_query \<Rightarrow> bool" where
  "granted P cfg now i q \<longleftrightarrow>
     (case (sq_expires q, sq_signature q) of
        (Some expires, Some signature) \<Rightarrow> verify_url_signature P cfg now ''GET'' (uuid_str P i) expires signature
      | _ \<Rightarrow> False)"

definition viewer_scope :: "auth_user option \<Rightarrow> unit result" where
  "viewer_scope viewer = (case viewer of Some v \<Rightarrow> require_scope v FilesRead | None \<Rightarrow> Inr ())"

abbreviation viewer_id :: "auth_user option \<Rightarrow> (uuid \<times> string) option" where
  "viewer_id viewer \<equiv> map_option (\<lambda>v. (au_id v, au_role v)) viewer"

lemma get_file_unfold:
  "get_file H P cfg now B viewer i q st w =
     and_then (load_record i st) (\<lambda>f.
     and_then (if granted P cfg now i q then Inr ()
               else and_then (viewer_scope viewer) (\<lambda>_. authorize_read f (viewer_id viewer) st)) (\<lambda>_.
     and_then (open_file B f w) (\<lambda>(body, n). Inr (file_headers H f body n))))"
  unfolding get_file_def granted_def viewer_scope_def Let_def by (rule refl)

lemma open_file_Inr:
  "open_file B f w = Inr (d, n) \<longleftrightarrow>
     (\<exists>l. be_open B (f_storage_key f) w = Inr (d, l) \<and> n = (if l = 0 then nat (max (f_size_bytes f) 0) else l))"
proof (cases "be_open B (f_storage_key f) w")
  case (Inr x)
  then show ?thesis by (cases x) (simp add: open_file_def, blast)
qed (simp add: open_file_def)

lemma open_file_ok: "(\<exists>d n. open_file B f w = Inr (d, n)) \<longleftrightarrow> is_ok (be_open B (f_storage_key f) w)"
  unfolding open_file_Inr is_ok_iff by (metis surj_pair)

lemma ground_Inr:
  "(if g then Inr () else and_then s (\<lambda>_. if m then Inr () else Inl e)) = Inr x \<longleftrightarrow> g \<or> s = Inr () \<and> m"
  by (cases s) auto

lemma get_file_Inr:
  "get_file H P cfg now B viewer i q st w = Inr resp \<longleftrightarrow>
     (\<exists>f d n. load_record i st = Inr f \<and>
        (granted P cfg now i q \<or> viewer_scope viewer = Inr () \<and> may_read f (viewer_id viewer) st) \<and>
        open_file B f w = Inr (d, n) \<and> resp = file_headers H f d n)"
  unfolding get_file_unfold authorize_read_iff and_then_Inr [of "load_record i st"] and_then_Inr [of "if _ then _ else _"]
    and_then_Inr [of "open_file _ _ _"] ground_Inr
  by auto


text \<open>
  The one caller a file is not hidden from: a key without the \<open>files:read\<close> scope gets 403
  for a file that exists, public ones too, and 404 for one that does not, so it can probe for
  file ids; the same request without the key reads the public ones.
\<close>

theorem scopeless_key_can_probe:
  assumes "au_credential v = ApiKey kid scopes" "\<not> scope_contains scopes FilesRead"
    and "\<not> granted P cfg now i q"
  shows "(\<forall>f. load_record i st = Inr f \<longrightarrow>
            get_file H P cfg now B (Some v) i q st w = Inl (scope_missing FilesRead) \<and>
            fst (into_response (scope_missing FilesRead)) = 403 \<and>
            (f_visibility f = ''public'' \<and> is_ok (be_open B (f_storage_key f) w) \<longrightarrow>
               is_ok (get_file H P cfg now B None i q st w))) \<and>
         (\<forall>e. load_record i st = Inl e \<longrightarrow>
            get_file H P cfg now B (Some v) i q st w = Inl file_not_found \<and>
            fst (into_response file_not_found) = 404)"
proof (intro conjI allI impI)
  fix f assume f: "load_record i st = Inr f"
  show "get_file H P cfg now B (Some v) i q st w = Inl (scope_missing FilesRead)"
    using assms f by (simp add: get_file_unfold viewer_scope_def require_scope_def)
  show "fst (into_response (scope_missing FilesRead)) = 403" by (simp add: scope_missing_def into_response_def)
  show "is_ok (get_file H P cfg now B None i q st w)"
    if "f_visibility f = ''public'' \<and> is_ok (be_open B (f_storage_key f) w)"
  proof -
    have "is_ok (be_open B (f_storage_key f) w)" using that by simp
    then obtain d n where "open_file B f w = Inr (d, n)" unfolding open_file_ok [symmetric] by blast
    then have "get_file H P cfg now B None i q st w = Inr (file_headers H f d n)"
      using f that unfolding get_file_Inr by (auto simp: viewer_scope_def may_read_def)
    then show ?thesis by simp
  qed
next
  fix e assume f: "load_record i st = Inl e"
  then show "get_file H P cfg now B (Some v) i q st w = Inl file_not_found"
    using load_record_Inl [OF f] by (simp add: get_file_unfold)
  show "fst (into_response file_not_found) = 404" by (simp add: file_not_found_def into_response_def)
qed

section \<open>What a signature grants\<close>

lemma split_at_newline:
  "CHR 0x0A \<notin> set a \<Longrightarrow> CHR 0x0A \<notin> set b \<Longrightarrow> a @ CHR 0x0A # x = b @ CHR 0x0A # y \<Longrightarrow> a = b \<and> x = y"
  by (induction a arbitrary: b) (case_tac b; force)+

lemma signing_payload_inj:
  assumes "signing_payload m k e = signing_payload m' k' e'"
    and "\<forall>x\<in>{m, m', k, k'}. CHR 0x0A \<notin> set x"
  shows "m = m' \<and> k = k' \<and> e = e'"
proof -
  have "m = m' \<and> k @ CHR 0x0A # int_str e = k' @ CHR 0x0A # int_str e'"
    using assms by (intro split_at_newline) (simp_all add: signing_payload_def)
  moreover from this have "k = k' \<and> int_str e = int_str e'" using assms by (intro split_at_newline) auto
  ultimately show ?thesis using int_str_inj by blast
qed

lemma verify_own_signature:
  assumes "b64url_ok P" "hmac_ok P" "chrono_min P \<le> seconds e" "seconds e \<le> chrono_max P"
  shows "verify_url_signature P cfg now meth key e (sign P (url_signing_key cfg) (signing_payload meth key e)) \<longleftrightarrow>
    now < seconds e"
  using assms verify_signature_sign [OF assms(1,2)] by (simp add: verify_url_signature_def Let_def)

text \<open>
  A signed URL grants one thing for a limited time.  The download URL of a file carries a
  signature that verifies until the second it names and never after; with it anyone reads the
  file, without it nothing else changes; and the signature stands for no other method, key or
  expiry, unless two different messages have the same HMAC.
\<close>

theorem signed_url_grants:
  assumes "b64url_ok P" "hmac_ok P" "uuid_ok P" "load_record i st = Inr f"
    and "chrono_min P \<le> seconds e" "seconds e \<le> chrono_max P"
    and "e = timestamp (now + seconds (signed_url_ttl_seconds cfg))"
  defines "s \<equiv> sign P (url_signing_key cfg) (signing_payload ''GET'' (uuid_str P i) e)"
  shows "su_url (generate_signed_download P cfg now f) =
           base_url cfg @ ''/api/v1/files/'' @ uuid_str P i @ ''?expires='' @ int_str e @ ''&signature='' @ s \<and>
         (\<forall>t. granted P cfg t i \<lparr>sq_expires = Some e, sq_signature = Some s, sq_key = None\<rparr> \<longleftrightarrow> t < seconds e) \<and>
         (\<forall>t H B viewer w. t < seconds e \<and> is_ok (be_open B (f_storage_key f) w) \<longrightarrow>
            is_ok (get_file H P cfg t B viewer i \<lparr>sq_expires = Some e, sq_signature = Some s, sq_key = None\<rparr> st w)) \<and>
         (\<forall>t meth key e'. CHR 0x0A \<notin> set meth \<and> CHR 0x0A \<notin> set key \<and> (meth, key, e') \<noteq> (''GET'', uuid_str P i, e) \<and>
            verify_url_signature P cfg t meth key e' s \<longrightarrow>
            (\<exists>m m'. m \<noteq> m' \<and> hmac_sha256 P (url_signing_key cfg) (bytes_of m) = hmac_sha256 P (url_signing_key cfg) (bytes_of m')))"
proof (intro conjI allI impI)
  have id: "f_id f = i" using load_record_Inr [OF assms(4)] by simp
  show "su_url (generate_signed_download P cfg now f) =
           base_url cfg @ ''/api/v1/files/'' @ uuid_str P i @ ''?expires='' @ int_str e @ ''&signature='' @ s"
    by (simp add: generate_signed_download_def with_signature_def Let_def id s_def assms(7))
  have g: "granted P cfg t i \<lparr>sq_expires = Some e, sq_signature = Some s, sq_key = None\<rparr> \<longleftrightarrow> t < seconds e" for t
    unfolding s_def by (simp add: granted_def verify_own_signature [OF assms(1,2,5,6)])
  then show "granted P cfg t i \<lparr>sq_expires = Some e, sq_signature = Some s, sq_key = None\<rparr> \<longleftrightarrow> t < seconds e" for t .
  show "is_ok (get_file H P cfg t B viewer i \<lparr>sq_expires = Some e, sq_signature = Some s, sq_key = None\<rparr> st w)"
    if "t < seconds e \<and> is_ok (be_open B (f_storage_key f) w)" for t H and B :: "'a backend" and viewer w
  proof -
    have "is_ok (be_open B (f_storage_key f) w)" using that by simp
    then obtain d n where "open_file B f w = Inr (d, n)" unfolding open_file_ok [symmetric] by blast
    with that g assms(4) show ?thesis unfolding is_ok_iff get_file_Inr by blast
  qed
  show "\<exists>m m'. m \<noteq> m' \<and> hmac_sha256 P (url_signing_key cfg) (bytes_of m) = hmac_sha256 P (url_signing_key cfg) (bytes_of m')"
    if a: "CHR 0x0A \<notin> set meth \<and> CHR 0x0A \<notin> set key \<and> (meth, key, e') \<noteq> (''GET'', uuid_str P i, e) \<and>
        verify_url_signature P cfg t meth key e' s" for t meth key e'
  proof -
    have "CHR 0x0A \<notin> set (uuid_str P i)" using assms(3) by (auto simp: uuid_ok_def)
    then have ne: "signing_payload meth key e' \<noteq> signing_payload ''GET'' (uuid_str P i) e"
      using a signing_payload_inj [of meth key e' "''GET''" "uuid_str P i" e] by auto
    have "verify_signature P (url_signing_key cfg) (signing_payload meth key e') s"
      using a by (auto simp: verify_url_signature_def Let_def split: if_splits)
    then have "hmac_sha256 P (url_signing_key cfg) (bytes_of (signing_payload meth key e')) =
        hmac_sha256 P (url_signing_key cfg) (bytes_of (signing_payload ''GET'' (uuid_str P i) e))"
      using verify_signature_other [OF assms(1,2)] unfolding s_def by metis
    with ne show ?thesis by blast
  qed
qed

section \<open>The life of a reservation\<close>

lemma generate_presigned_upload_Inr:
  assumes "generate_presigned_upload P cfg k B u g req st w = (Inr r, st')"
  obtains f native where "insert_file f st = Inr st'" "f_id f = c_uuid k 0" "f_owner_id f = Some u" "f_org_id f = g"
    "f_status f = ''pending''" "f_deleted_at f = None" "f_size_bytes f = 0" "f_created_at f = c_now k"
    "f_checksum_sha256 f = None" "f_visibility f = ''private'' \<or> f_visibility f = ''public''"
    "pu_file_id r = f_id f" "pu_storage_key r = f_storage_key f" "pu_expires_at r = c_now k + seconds (signed_url_ttl_seconds cfg)"
    "be_presign_put B (f_storage_key f) (f_mime_type f) (signed_url_ttl_seconds cfg) w = Inr native"
    "native = None \<longrightarrow> pu_upload_url r = with_signature P cfg
       (base_url cfg @ ''/api/v1/files/upload-signed?key='' @ f_storage_key f @ ''&'') ''PUT'' (f_storage_key f) (pu_expires_at r)"
  using assms normalize_visibility_Inr [of "unwrap_or (pr_visibility req) ''private''"] that
  unfolding generate_presigned_upload_def Let_def
  by (auto split: sum.splits if_splits)

lemma inserted_file:
  assumes "insert_file f st = Inr st'"
  shows "files st' = files st @ [f]" "\<forall>x\<in>set (files st). f_id x \<noteq> f_id f \<and> f_storage_key x \<noteq> f_storage_key f"
    "find (\<lambda>x. f_id x = f_id f \<and> Q x) (files st') = (if Q f then Some f else None)"
proof -
  show st': "files st' = files st @ [f]" and fresh: "\<forall>x\<in>set (files st). f_id x \<noteq> f_id f \<and> f_storage_key x \<noteq> f_storage_key f"
    using assms by (auto simp: insert_file_Inr file_clash_def)
  have "find (\<lambda>x. f_id x = f_id f \<and> Q x) (files st) = None" using fresh by (auto simp: find_None_all)
  then show "find (\<lambda>x. f_id x = f_id f \<and> Q x) (files st') = (if Q f then Some f else None)"
    by (simp add: st' find_append)
qed

lemma complete_pending:
  assumes "complete_upload cfg now B i u role st w = (Inr f, st', w')"
    and "find (\<lambda>f. f_id f = i \<and> f_deleted_at f = None) (files st) = Some f0" "f_status f0 = ''pending''"
  obtains m where "be_head B (f_storage_key f0) w = Inr m" "om_len m \<noteq> 0" "om_len m \<le> max_upload_bytes cfg"
    "f = mark_ready (as_i64 (word_of_nat (om_len m))) f0" "w' = w" "is_ok (authorize_write f0 u role st)"
    "files st' = sql_update (\<lambda>r. f_id r = i \<and> f_status r = ''pending'') (mark_ready (as_i64 (word_of_nat (om_len m)))) (files st)"
proof (cases "authorize_write f0 u role st")
  case (Inr x)
  show thesis
  proof (cases "be_head B (f_storage_key f0) w")
    case (Inr m)
    show thesis
      by (rule that [OF Inr])
        (use assms Inr \<open>authorize_write f0 u role st = Inr x\<close> in \<open>auto simp: complete_upload_def Let_def split: if_splits\<close>)
  qed (use assms Inr in \<open>simp add: complete_upload_def\<close>)
qed (use assms in \<open>simp add: complete_upload_def\<close>)

lemma mark_ready_fields [simp]:
  "f_id (mark_ready n f) = f_id f" "f_owner_id (mark_ready n f) = f_owner_id f" "f_org_id (mark_ready n f) = f_org_id f"
  "f_storage_key (mark_ready n f) = f_storage_key f" "f_deleted_at (mark_ready n f) = f_deleted_at f"
  "f_status (mark_ready n f) = ''ready''" "f_size_bytes (mark_ready n f) = n" "f_visibility (mark_ready n f) = f_visibility f"
  "f_created_at (mark_ready n f) = f_created_at f" "f_original_name (mark_ready n f) = f_original_name f"
  "f_mime_type (mark_ready n f) = f_mime_type f" "f_checksum_sha256 (mark_ready n f) = f_checksum_sha256 f"
  by (simp_all add: mark_ready_def)

lemma as_i64_of_nat: "n < 2 ^ 63 \<Longrightarrow> as_i64 (word_of_nat n) = int n"
  using as_i64_of_int [of "int n"] by simp

text \<open>
  C23. The life of a reservation, on either backend.  Until it is completed nothing reads it;
  its own upload URL verifies until it expires; and when bytes were accepted under it and it
  was completed, it is readable, completing it again changes nothing, and a download of it
  answers exactly those bytes, with their number as its recorded size and content length.
\<close>

theorem reservation_life_cycle:
  assumes "generate_presigned_upload P cfg k (select_backend i S cfg) u g req st w = (Inr r, st1)"
    and "accept_signed_upload P cfg now1 (select_backend i S cfg) (pu_storage_key r) e s body st1 w = (Inr (), w1)"
    and "complete_upload cfg now2 (select_backend i S cfg) (pu_file_id r) u role st1 w1 = (Inr f, st2, w2)"
    and "max_upload_bytes cfg < 2 ^ 63"
  shows "load_record (pu_file_id r) st1 = Inl file_not_found \<and> length body \<le> max_upload_bytes cfg \<and>
         load_record (pu_file_id r) st2 = Inr f \<and> f_owner_id f = Some u \<and> f_org_id f = g \<and> w2 = w1 \<and>
         complete_upload cfg now3 (select_backend i S cfg) (pu_file_id r) u role st2 w2 = (Inr f, st2, w2) \<and>
         (\<forall>resp. get_file H P cfg now3 (select_backend i S cfg) viewer (pu_file_id r) q st2 w2 = Inr resp \<longrightarrow>
            fr_body resp = body \<and> fr_content_length resp = length body \<and> f_size_bytes f = int (length body) \<and> body \<noteq> [])"
proof -
  let ?B = "select_backend i S cfg"
  from assms(1) obtain f0 where f0: "insert_file f0 st = Inr st1" "f_id f0 = pu_file_id r" "f_owner_id f0 = Some u"
      "f_org_id f0 = g" "f_status f0 = ''pending''" "f_deleted_at f0 = None" "pu_storage_key r = f_storage_key f0"
    by (rule generate_presigned_upload_Inr) simp
  note ins = inserted_file [OF f0(1)]
  have put: "length body \<le> max_upload_bytes cfg" "\<exists>ct. be_put_bytes ?B (f_storage_key f0) body ct w = (Inr (), w1)"
    using assms(2) unfolding accept_signed_upload_def f0(7) by (auto split: if_splits option.splits)
  have found: "find (\<lambda>f. f_id f = pu_file_id r \<and> f_deleted_at f = None) (files st1) = Some f0"
    using ins(3) [of "\<lambda>f. f_deleted_at f = None"] f0 by simp
  have hidden: "load_record (pu_file_id r) st1 = Inl file_not_found"
    using ins(3) [of readable] f0 by (simp add: load_record_def readable_def)
  obtain m where m: "be_head ?B (f_storage_key f0) w1 = Inr m" "om_len m \<noteq> 0" "om_len m \<le> max_upload_bytes cfg"
      "f = mark_ready (as_i64 (word_of_nat (om_len m))) f0" "w2 = w1"
      "files st2 = sql_update (\<lambda>x. f_id x = pu_file_id r \<and> f_status x = ''pending'')
         (mark_ready (as_i64 (word_of_nat (om_len m)))) (files st1)"
    by (rule complete_pending [OF assms(3) found f0(5)]) (rule that)
  have rows: "files st2 = files st @ [f]"
  proof -
    have "sql_update (\<lambda>x. f_id x = pu_file_id r \<and> f_status x = ''pending'') h (files st) = files st" for h
      by (rule sql_update_id) (use ins(2) f0(2) in auto)
    then show ?thesis unfolding m(6) ins(1) using f0(2,5) m(4) by simp
  qed
  have none: "find (\<lambda>x. f_id x = pu_file_id r \<and> Q x) (files st) = None" for Q
    using ins(2) f0(2) by (auto simp: find_None_all)
  have fnd: "find (\<lambda>x. f_id x = pu_file_id r \<and> Q x) (files st2) = (if Q f then Some f else None)" for Q
    using f0(2) m(4) by (simp add: rows find_append none)
  have loaded: "load_record (pu_file_id r) st2 = Inr f"
    using fnd [of readable] f0 m(4) by (simp add: load_record_def readable_def)
  have size: "f_size_bytes f = int (om_len m)" using m(3,4) assms(4) as_i64_of_nat [of "om_len m"] by simp
  have again: "complete_upload cfg now3 ?B (pu_file_id r) u role st2 w2 = (Inr f, st2, w2)"
    using fnd [of "\<lambda>f. f_deleted_at f = None"] f0(3,6) m(4) by (simp add: complete_upload_def authorize_write_def)
  have read: "fr_body resp = body \<and> fr_content_length resp = length body \<and> f_size_bytes f = int (length body) \<and> body \<noteq> []"
    if got: "get_file H P cfg now3 ?B viewer (pu_file_id r) q st2 w2 = Inr resp" for resp
  proof -
    obtain d n where o: "open_file ?B f w2 = Inr (d, n)" "resp = file_headers H f d n"
      using got loaded unfolding get_file_Inr by auto
    then obtain l where l: "be_open ?B (f_storage_key f0) w1 = Inr (d, l)" "n = (if l = 0 then nat (max (f_size_bytes f) 0) else l)"
      using m(4,5) unfolding open_file_Inr by auto
    obtain ct where ct: "be_put_bytes ?B (f_storage_key f0) body ct w = (Inr (), w1)" using put(2) by blast
    have d: "d = body" by (rule object_store.put_open [OF selected_object_store ct l(1)])
    have "om_len m = length body"
      using object_store.head_len [OF selected_object_store l(1) m(1)] m(2) d by simp
    moreover have "n = length body"
      using object_store.open_len [OF selected_object_store l(1)] l(2) d size calculation by auto
    ultimately show ?thesis using o(2) d size m(2) by (auto simp: file_headers_def Let_def)
  qed
  show ?thesis
    using hidden put(1) loaded f0 m(4,5) again read by simp
qed

section \<open>The reaper\<close>

lemma reap_each_outcome:
  "reap_each now B xs st w =
     (st\<lparr>files := sql_update (\<lambda>r. f_id r \<in> fst ` set xs) (\<lambda>r. r\<lparr>f_deleted_at := Some now\<rparr>) (files st)\<rparr>,
      fold (do_op B) (map (\<lambda>x. Delete (snd x)) xs) w)"
proof (induction now B xs st w rule: reap_each.induct)
  case (1 now B st w)
  have "sql_update (\<lambda>r. False) f rs = rs" for f and rs :: "file_row list" by (simp add: sql_update_id)
  then show ?case by simp
next
  case (2 now B i key rest st w)
  have "sql_update (\<lambda>r. f_id r \<in> X) (\<lambda>r. r\<lparr>f_deleted_at := Some now\<rparr>)
          (sql_update (\<lambda>r. f_id r = i) (\<lambda>r. r\<lparr>f_deleted_at := Some now\<rparr>) rs) =
        sql_update (\<lambda>r. f_id r = i \<or> f_id r \<in> X) (\<lambda>r. r\<lparr>f_deleted_at := Some now\<rparr>) rs" for X and rs :: "file_row list"
    by (induction rs) auto
  with 2 show ?case by (simp add: tombstone_def)
qed

text \<open>
  C24. The reaper tombstones exactly the reservations abandoned for more than twice the life of
  a signed URL: a reservation whose own upload URL still verifies is left as it is, and so is
  every completed file; and no object of a file it leaves is touched.
\<close>

theorem reaper_spares_live_reservations:
  assumes "no_clash file_clash (files st)" "f \<in> set (files st)" "0 \<le> signed_url_ttl_seconds cfg"
    and "reap_abandoned_uploads cfg now (select_backend i S cfg) st w = (st', w')"
  shows "(abandoned cfg now f \<longrightarrow> f\<lparr>f_deleted_at := Some now\<rparr> \<in> set (files st')) \<and>
         (\<not> abandoned cfg now f \<longrightarrow> f \<in> set (files st') \<and>
            be_open (select_backend i S cfg) (f_storage_key f) w' = be_open (select_backend i S cfg) (f_storage_key f) w) \<and>
         (f_status f = ''ready'' \<or>
          verify_url_signature P cfg now ''PUT'' (f_storage_key f)
            (timestamp (f_created_at f + seconds (signed_url_ttl_seconds cfg))) s \<longrightarrow> \<not> abandoned cfg now f)"
proof (intro conjI impI)
  let ?xs = "map (\<lambda>f. (f_id f, f_storage_key f)) (filter (abandoned cfg now) (files st))"
  have out: "files st' = sql_update (\<lambda>r. f_id r \<in> fst ` set ?xs) (\<lambda>r. r\<lparr>f_deleted_at := Some now\<rparr>) (files st)"
      "w' = fold (do_op (select_backend i S cfg)) (map (\<lambda>x. Delete (snd x)) ?xs) w"
    using assms(4) unfolding reap_abandoned_uploads_def reap_each_outcome by auto
  have ids: "f_id f \<in> fst ` set ?xs \<longleftrightarrow> abandoned cfg now f"
    using files.pk_unique [OF assms(1,2)] assms(2) by (auto simp: image_iff)
  show "f\<lparr>f_deleted_at := Some now\<rparr> \<in> set (files st')" if "abandoned cfg now f"
    using that ids assms(2) unfolding out(1) sql_update_mem by auto
  show "f \<in> set (files st')" if "\<not> abandoned cfg now f"
    using that ids assms(2) unfolding out(1) sql_update_mem by auto
  show "be_open (select_backend i S cfg) (f_storage_key f) w' = be_open (select_backend i S cfg) (f_storage_key f) w"
    if "\<not> abandoned cfg now f"
    unfolding out(2)
  proof (rule object_store.ops_other [OF selected_object_store])
    show "\<forall>x\<in>set (map (\<lambda>x. Delete (snd x)) ?xs). op_key x \<noteq> f_storage_key f"
      using that files.uk_unique [OF assms(1)] assms(2) by auto
  qed
  show "\<not> abandoned cfg now f" if "f_status f = ''ready'' \<or>
          verify_url_signature P cfg now ''PUT'' (f_storage_key f)
            (timestamp (f_created_at f + seconds (signed_url_ttl_seconds cfg))) s"
    using that
  proof
    assume "verify_url_signature P cfg now ''PUT'' (f_storage_key f)
            (timestamp (f_created_at f + seconds (signed_url_ttl_seconds cfg))) s"
    then have "now < seconds (timestamp (f_created_at f + seconds (signed_url_ttl_seconds cfg)))"
      by (auto simp: verify_url_signature_def Let_def split: if_splits)
    then have "now < f_created_at f + seconds (signed_url_ttl_seconds cfg)"
      using timestamp_le [of "f_created_at f + seconds (signed_url_ttl_seconds cfg)"] by simp
    moreover have "seconds (signed_url_ttl_seconds cfg) \<le> seconds (signed_url_ttl_seconds cfg * 2)"
      using assms(3) by (simp add: seconds_def)
    ultimately show ?thesis by (simp add: abandoned_def)
  qed (simp add: abandoned_def)
qed

section \<open>Concrete files\<close>

definition sample_file :: "uuid \<Rightarrow> string \<Rightarrow> string \<Rightarrow> string \<Rightarrow> file_row" where
  "sample_file i key vis status = \<lparr>f_id = i, f_owner_id = Some 1, f_org_id = Some 20, f_bucket = ''default'',
     f_storage_key = key, f_original_name = ''a.pdf'', f_mime_type = ''application/pdf'', f_size_bytes = 0,
     f_checksum_sha256 = None, f_visibility = vis, f_status = status, f_upload_expires_at = None,
     f_created_at = 0, f_deleted_at = None\<rparr>"

definition file_store :: store where
  "file_store = tenant_store\<lparr>files := [sample_file 40 ''k40.pdf'' ''private'' ''ready'',
     sample_file 41 ''k41.pdf'' ''public'' ''ready'', sample_file 42 ''k42.pdf'' ''private'' ''pending'']\<rparr>"

definition pdf :: "nat list" where
  "pdf = [37, 80, 68, 70, 45, 49]"

definition sample_backend :: "nat backend" where
  "sample_backend = local_backend (\<lambda>_ _. None) (upload_dir sample_config)"

definition disk :: "nat world" where
  "disk = \<lparr>w_fs = (\<lambda>p. if p = path_join (upload_dir sample_config) ''k40.pdf'' \<or>
                        p = path_join (upload_dir sample_config) ''k41.pdf'' then Some pdf else None), w_remote = 0\<rparr>"

lemma sample_selected: "select_backend (\<lambda>_ _. None) S sample_config = sample_backend"
  by (simp add: select_backend_def sample_backend_def sample_config_def for_testing_def Let_def)

lemma sample_limits: "max_upload_bytes sample_config = 10485760" "signed_url_ttl_seconds sample_config = 900"
  "allowed_upload_mime sample_config = default_upload_mime" "upload_dir sample_config = ''target/test_uploads''"
  by (simp_all add: sample_config_def for_testing_def Let_def)

lemma sample_loads: "load_record 40 file_store = Inr (sample_file 40 ''k40.pdf'' ''private'' ''ready'')"
  "load_record 41 file_store = Inr (sample_file 41 ''k41.pdf'' ''public'' ''ready'')"
  "load_record 42 file_store = Inl file_not_found"
  by (simp_all add: load_record_def file_store_def sample_file_def readable_def)

lemma sample_keys: "validate_storage_key ''k40.pdf'' = Inr ()" "validate_storage_key ''k41.pdf'' = Inr ()"
  by (simp_all add: validate_storage_key_def key_char_def starts_with_def)

lemma sample_opens: "is_ok (be_open sample_backend ''k40.pdf'' disk)" "is_ok (be_open sample_backend ''k41.pdf'' disk)"
  by (simp_all add: sample_backend_def local_backend_def is_ok_iff local_open_Inr sample_keys disk_def)

definition no_query :: signed_access_query where
  "no_query = \<lparr>sq_expires = None, sq_signature = None, sq_key = None\<rparr>"

lemma not_granted: "\<not> granted P cfg now i no_query"
  by (simp add: granted_def no_query_def)



theorem scopeless_key_can_probe_witness:
  "let v = (key_user (user_of_row (tenant_user 2)) sample_key_row)\<lparr>au_credential := ApiKey 7 {}\<rparr> in
     get_file (\<lambda>_. True) toy_ext sample_config 0 sample_backend (Some v) 41 no_query file_store disk
       = Inl (scope_missing FilesRead) \<and>
     get_file (\<lambda>_. True) toy_ext sample_config 0 sample_backend (Some v) 42 no_query file_store disk
       = Inl file_not_found"
proof -
  let ?v = "(key_user (user_of_row (tenant_user 2)) sample_key_row)\<lparr>au_credential := ApiKey 7 {}\<rparr>"
  have "au_credential ?v = ApiKey 7 {}" "\<not> scope_contains {} FilesRead" by (simp_all add: scope_contains_def)
  note probe = scopeless_key_can_probe [OF this not_granted, where H = "\<lambda>_. True" and P = toy_ext and cfg = sample_config
      and now = 0 and B = sample_backend and st = file_store and w = disk]
  show ?thesis using probe [of 41] probe [of 42] by (simp add: Let_def sample_loads)
qed

theorem signed_url_grants_witness:
  "let s = sign toy_ext (url_signing_key sample_config) (signing_payload ''GET'' (uuid_str toy_ext 40) 900) in
     is_ok (get_file (\<lambda>_. True) toy_ext sample_config 0 sample_backend None 40
       \<lparr>sq_expires = Some 900, sq_signature = Some s, sq_key = None\<rparr> file_store disk)"
proof -
  have e: "900 = timestamp (0 + seconds (signed_url_ttl_seconds sample_config))"
    by (simp add: sample_limits timestamp_def seconds_def)
  have b: "chrono_min toy_ext \<le> seconds 900" "seconds 900 \<le> chrono_max toy_ext" "(0::int) < seconds 900"
    by (simp_all add: toy_ext_def seconds_def)
  have "is_ok (be_open sample_backend (f_storage_key (sample_file 40 ''k40.pdf'' ''private'' ''ready'')) disk)"
    using sample_opens(1) by (simp add: sample_file_def)
  with signed_url_grants [OF toy_ext_laws(1,2) toy_uuid_ok sample_loads(1) b(1,2) e] b(3)
  show ?thesis unfolding Let_def by blast
qed

theorem reaper_spares_live_reservations_witness:
  "(sample_file 42 ''k42.pdf'' ''private'' ''pending'')\<lparr>f_deleted_at := Some (seconds 1801)\<rparr>
     \<in> set (files (fst (reap_abandoned_uploads sample_config (seconds 1801) sample_backend file_store disk)))"
proof -
  have "no_clash file_clash (files file_store)"
    by (simp add: file_store_def no_clash_def file_clash_def sample_file_def)
  moreover have "sample_file 42 ''k42.pdf'' ''private'' ''pending'' \<in> set (files file_store)" by (simp add: file_store_def)
  moreover have "0 \<le> signed_url_ttl_seconds sample_config" by (simp add: sample_limits)
  ultimately have "abandoned sample_config (seconds 1801) (sample_file 42 ''k42.pdf'' ''private'' ''pending'') \<longrightarrow> ?thesis"
    by (rule reaper_spares_live_reservations [where i = "\<lambda>_ _. None" and cfg = sample_config and S = "undefined :: nat s3_service",
          unfolded sample_selected, OF _ _ _ surjective_pairing,
          THEN conjunct1])
  then show ?thesis by (simp add: abandoned_def sample_file_def sample_limits seconds_def)
qed

text \<open>An upload of six bytes that look like a PDF document.\<close>

definition sample_field :: field where
  "sample_field = \<lparr>fd_file_name = Some ''a.bin'', fd_chunks = [Inr [37, 80, 68], Inr [70, 45, 49]]\<rparr>"

lemma nat_str_900: "nat_str 900 = ''900''"
  by code_simp

lemma sample_saved:
  "\<exists>f st' w'. save_upload_field toy_ext sample_config tenant_call (\<lambda>_ _. None) sample_backend 1 (Some 20) sample_field ''public''
     file_store disk = (Inr f, st', w') \<and> files st' = files file_store @ [f]"
proof -
  let ?tmp = "path_join (upload_dir sample_config) ''900.part''" and ?key = "path_join (upload_dir sample_config) ''900.pdf''"
  have mime: "sniff_mime pdf n = ''application/pdf''" for n
    by (simp add: sniff_mime_def magic_def pdf_def bytes_of_def)
  have key: "validate_storage_key ''900.pdf'' = Inr ()"
    by (simp add: validate_storage_key_def key_char_def starts_with_def)
  have vis: "normalize_visibility ''public'' = Inr ''public''"
  proof -
    have "str_trim ''public'' = ''public''" by (rule str_trim_graphic) (simp add: is_graphic_def)
    then show ?thesis by (simp add: normalize_visibility_def to_ascii_lowercase_def ascii_lower_def)
  qed
  have member: "require_membership 20 1 file_store = Inr RoleOwner"
    by (simp add: require_membership_def require_org_role_def get_user_org_role_def file_store_def tenant_defs less_org_role_def)
  let ?w = "append_file ?tmp [70, 45, 49] (append_file ?tmp [37, 80, 68] (write_file ?tmp [] disk))"
  have put: "be_put_file sample_backend ''900.pdf'' ?tmp ct ?w =
      (Inr (), ?w\<lparr>w_fs := (w_fs ?w)(?tmp := None, ?key \<mapsto> pdf)\<rparr>)" for ct
    by (simp add: sample_backend_def local_backend_def local_put_file_def local_path_for_def key append_file_def
        write_file_def pdf_def)
  have ins: "insert_file f file_store = Inr (file_store\<lparr>files := files file_store @ [f]\<rparr>)"
    if "f_id f = 900" "f_storage_key f = ''900.pdf''" "f_owner_id f = Some 1" "f_org_id f = Some 20" for f
    using that by (simp add: insert_file_Inr file_clash_def file_store_def sample_file_def user_exists_def org_exists_def
        sql_exists_def tenant_defs)
  have allowed: "ensure_mime_allowed sample_config ''application/pdf'' = Inr ()"
    by (simp add: ensure_mime_Inr sample_limits default_upload_mime_def)
  show ?thesis
    unfolding save_upload_field_def store_upload_def
    by (simp add: member sample_field_def sample_limits(1) tenant_call_def toy_ext_def nat_str_900 mime [unfolded pdf_def]
        allowed extension_for_def put [unfolded pdf_def] vis ins Let_def del: One_nat_def)
qed

theorem streamed_upload_outcome_witness:
  "\<exists>f st' w'. save_upload_field toy_ext sample_config tenant_call (\<lambda>_ _. None) sample_backend 1 (Some 20) sample_field ''public''
       file_store disk = (Inr f, st', w') \<and> files st' = files file_store @ [f] \<and> f_org_id f = Some 20 \<and>
     (\<exists>data. fd_chunks sample_field = map Inr data \<and> f_size_bytes f = as_i64 (word_of_nat (length (concat data))))"
proof -
  obtain f st' w' where s: "save_upload_field toy_ext sample_config tenant_call (\<lambda>_ _. None) sample_backend 1 (Some 20) sample_field ''public''
       file_store disk = (Inr f, st', w')" "files st' = files file_store @ [f]"
    using sample_saved by blast
  have "f_org_id f = Some 20 \<and>
     (\<exists>data. fd_chunks sample_field = map Inr data \<and> f_size_bytes f = as_i64 (word_of_nat (length (concat data))))"
    using streamed_upload_outcome [where P = toy_ext and cfg = sample_config and k = tenant_call and i = "\<lambda>_ _. None" and
        u = 1 and g = "Some 20" and fd = sample_field and S = "undefined :: nat s3_service" and v = "''public''" and st = file_store and w = disk,
        unfolded sample_selected s(1) prod.case sum.case]
    by blast
  with s show ?thesis by blast
qed

theorem unknown_visibility_orphans_the_object_witness:
  "\<exists>e. fst (save_upload_field toy_ext sample_config tenant_call (\<lambda>_ _. None) sample_backend 1 (Some 20) sample_field ''hidden''
       file_store disk) = Inl e"
proof -
  have "str_trim ''hidden'' = ''hidden''" by (rule str_trim_graphic) (simp add: is_graphic_def)
  then have "\<exists>e. normalize_visibility ''hidden'' = Inl e"
    by (simp add: normalize_visibility_def to_ascii_lowercase_def ascii_lower_def)
  then obtain e where "normalize_visibility ''hidden'' = Inl e" ..
  moreover obtain f st' w' where "save_upload_field toy_ext sample_config tenant_call (\<lambda>_ _. None) sample_backend 1 (Some 20) sample_field ''public''
       file_store disk = (Inr f, st', w')"
    using sample_saved by blast
  ultimately show ?thesis
    using unknown_visibility_orphans_the_object by fastforce
qed

text \<open>A reservation, filled through its own URL and completed.\<close>

definition sample_request_up :: presigned_upload_request where
  "sample_request_up = \<lparr>pr_filename = ''a.pdf'', pr_content_type = ''application/pdf'', pr_size_bytes = Some 6,
     pr_visibility = None, pr_org_id = None\<rparr>"

definition reserved_file :: file_row where
  "reserved_file = \<lparr>f_id = 900, f_owner_id = Some 1, f_org_id = None, f_bucket = ''default'', f_storage_key = ''900.pdf'',
     f_original_name = sanitize_filename ''a.pdf'', f_mime_type = ''application/pdf'', f_size_bytes = 0,
     f_checksum_sha256 = None, f_visibility = ''private'', f_status = ''pending'', f_upload_expires_at = None,
     f_created_at = 100, f_deleted_at = None\<rparr>"

lemma sample_reserved:
  "\<exists>r. generate_presigned_upload toy_ext sample_config tenant_call sample_backend 1 None sample_request_up tenant_store disk =
     (Inr r, tenant_store\<lparr>files := [reserved_file]\<rparr>) \<and> pu_storage_key r = ''900.pdf'' \<and> pu_file_id r = 900"
proof -
  have t: "str_trim ''application/pdf'' = ''application/pdf''" "str_trim ''private'' = ''private''"
    by (rule str_trim_graphic, simp add: is_graphic_def)+
  have l: "to_ascii_lowercase ''application/pdf'' = ''application/pdf''" "to_ascii_lowercase ''private'' = ''private''"
    by (simp_all add: to_ascii_lowercase_def ascii_lower_def)
  have v: "normalize_visibility ''private'' = Inr ''private''" by (simp add: normalize_visibility_def t l)
  have ins: "insert_file reserved_file tenant_store = Inr (tenant_store\<lparr>files := [reserved_file]\<rparr>)"
    by (simp add: insert_file_Inr reserved_file_def user_exists_def sql_exists_def tenant_defs)
  have m: "ensure_mime_allowed sample_config ''application/pdf'' = Inr ()"
    by (simp add: ensure_mime_Inr sample_limits default_upload_mime_def)
  show ?thesis
    using ins unfolding reserved_file_def
    by (simp add: generate_presigned_upload_def sample_request_up_def t l m v sample_limits(1) extension_for_def toy_ext_def
        tenant_call_def nat_str_900 sample_backend_def local_backend_def Let_def)
qed

theorem reservation_life_cycle_witness:
  "\<exists>r st1 w1 f st2. generate_presigned_upload toy_ext sample_config tenant_call sample_backend 1 None sample_request_up tenant_store disk
       = (Inr r, st1) \<and>
     accept_signed_upload toy_ext sample_config 200 sample_backend (pu_storage_key r) 900
       (sign toy_ext (url_signing_key sample_config) (signing_payload ''PUT'' ''900.pdf'' 900)) pdf st1 disk = (Inr (), w1) \<and>
     complete_upload sample_config 300 sample_backend (pu_file_id r) 1 ''user'' st1 w1 = (Inr f, st2, w1) \<and>
     load_record (pu_file_id r) st2 = Inr f"
proof -
  obtain r where r: "generate_presigned_upload toy_ext sample_config tenant_call sample_backend 1 None sample_request_up tenant_store disk =
     (Inr r, tenant_store\<lparr>files := [reserved_file]\<rparr>)" "pu_storage_key r = ''900.pdf''" "pu_file_id r = 900"
    using sample_reserved by blast
  let ?st = "tenant_store\<lparr>files := [reserved_file]\<rparr>"
  let ?s = "sign toy_ext (url_signing_key sample_config) (signing_payload ''PUT'' ''900.pdf'' 900)"
  let ?w = "write_file (path_join (upload_dir sample_config) ''900.pdf'') pdf disk"
  have key: "validate_storage_key ''900.pdf'' = Inr ()"
    by (simp add: validate_storage_key_def key_char_def starts_with_def)
  have b: "chrono_min toy_ext \<le> seconds 900" "seconds 900 \<le> chrono_max toy_ext"
    by (simp_all add: toy_ext_def seconds_def)
  have v: "verify_url_signature toy_ext sample_config 200 ''PUT'' ''900.pdf'' 900 ?s"
    unfolding verify_own_signature [OF toy_ext_laws(1,2) b] by (simp add: seconds_def)
  have acc: "accept_signed_upload toy_ext sample_config 200 sample_backend (pu_storage_key r) 900 ?s pdf ?st disk = (Inr (), ?w)"
    using v by (simp add: accept_signed_upload_def r(2) sample_limits(1) reserved_file_def sample_backend_def local_backend_def
        local_put_bytes_def local_path_for_def key) (simp add: pdf_def)
  have h: "be_head sample_backend ''900.pdf'' ?w = Inr \<lparr>om_len = 6, om_content_type = None\<rparr>"
    by (simp add: sample_backend_def local_backend_def local_head_def local_path_for_def key write_file_def pdf_def)
  obtain f st2 w2 where com: "complete_upload sample_config 300 sample_backend (pu_file_id r) 1 ''user'' ?st ?w = (Inr f, st2, w2)"
    by (simp add: complete_upload_def r(3) reserved_file_def authorize_write_def h sample_limits(1) Let_def)
  have m: "max_upload_bytes sample_config < 2 ^ 63" by (simp add: sample_limits)
  note cycle = reservation_life_cycle [where i = "\<lambda>_ _. None" and cfg = sample_config and S = "undefined :: nat s3_service",
          unfolded sample_selected, OF r(1) acc com m]
  have "w2 = ?w" "load_record (pu_file_id r) st2 = Inr f" using cycle by blast+
  with r(1) acc com show ?thesis by blast
qed

end
