(* ===== verification/File_System.thy ===== *)
theory File_System
  imports File_Facts
begin

text \<open>
  All requests on files, and the reaper, as the steps of one system over the database and the
  backend: the invariant of the table, and what no sequence of steps changes of a row.
\<close>

section \<open>Rows\<close>

definition file_ok :: "file_row \<Rightarrow> bool" where
  "file_ok f \<longleftrightarrow> f_visibility f \<in> {''private'', ''public''} \<and> f_status f \<in> {''pending'', ''ready''} \<and>
     (f_status f = ''pending'' \<longrightarrow> f_size_bytes f = 0 \<and> f_checksum_sha256 f = None)"

definition file_inv :: "store \<Rightarrow> bool" where
  "file_inv st \<longleftrightarrow> no_clash file_clash (files st) \<and> (\<forall>f\<in>set (files st). file_ok f)"

text \<open>What may become of a row: its identity and owner stay, deletion and completion are for good.\<close>

definition file_rel :: "file_row \<Rightarrow> file_row \<Rightarrow> bool" where
  "file_rel f f' \<longleftrightarrow>
     f_id f' = f_id f \<and> f_owner_id f' = f_owner_id f \<and> f_org_id f' = f_org_id f \<and> f_storage_key f' = f_storage_key f \<and>
     f_original_name f' = f_original_name f \<and> f_mime_type f' = f_mime_type f \<and> f_visibility f' = f_visibility f \<and>
     f_checksum_sha256 f' = f_checksum_sha256 f \<and>
     (f_deleted_at f \<noteq> None \<longrightarrow> f_deleted_at f' \<noteq> None) \<and>
     (f_status f = ''ready'' \<longrightarrow> f_status f' = ''ready'' \<and> f_size_bytes f' = f_size_bytes f)"

lemma file_rel_refl: "file_rel f f"
  by (simp add: file_rel_def)

lemma file_rel_trans: "file_rel f g \<Longrightarrow> file_rel g h \<Longrightarrow> file_rel f h"
  by (simp add: file_rel_def)

text \<open>The four ways a statement of the program changes the table.\<close>

inductive file_change :: "file_row list \<Rightarrow> file_row list \<Rightarrow> bool" where
  unchanged: "file_change fs fs"
| inserted: "sql_insert file_clash f fs = Some fs' \<Longrightarrow> file_ok f \<Longrightarrow> file_change fs fs'"
| deleted: "file_change fs (sql_update p (\<lambda>r. r\<lparr>f_deleted_at := Some now\<rparr>) fs)"
| completed: "file_change fs (sql_update (\<lambda>r. p r \<and> f_status r = ''pending'') (mark_ready n) fs)"

lemma file_change_rel: "file_change fs fs' \<Longrightarrow> evolves file_rel fs fs'"
proof (induction rule: file_change.induct)
  case (unchanged fs)
  show ?case by (rule evolves_refl) (rule file_rel_refl)
next
  case (inserted f fs fs')
  from inserted(1) show ?case by (rule evolves_insert [OF file_rel_refl])
next
  case (deleted fs p now)
  show ?case by (rule evolves_update) (auto simp: file_rel_def)
next
  case (completed fs p n)
  show ?case by (rule evolves_update) (auto simp: file_rel_def)
qed

lemma file_change_inv:
  "file_change (files st) (files st') \<Longrightarrow> file_inv st \<Longrightarrow> file_inv st'"
  unfolding file_inv_def
proof (induction "files st" "files st'" rule: file_change.induct)
  case (inserted f)
  then have "files st' = files st @ [f]" by (simp add: sql_insert_Some)
  with inserted files.insert_keeps [of "files st" f] show ?case by auto
next
  case (deleted p now)
  have "no_clash file_clash (files st')"
    unfolding deleted(1) [symmetric] using deleted(2)
    by (intro no_clash_update_frame) (auto simp: file_clash_def)
  with deleted show ?case by (auto simp: deleted(1) [symmetric] set_sql_update file_ok_def)
next
  case (completed p n)
  have "no_clash file_clash (files st')"
    unfolding completed(1) [symmetric] using completed(2)
    by (intro no_clash_update_frame) (auto simp: file_clash_def)
  with completed show ?case by (auto simp: completed(1) [symmetric] set_sql_update file_ok_def)
qed simp

section \<open>Every operation\<close>

lemma change_insert_file: "insert_file f st = Inr st' \<Longrightarrow> file_ok f \<Longrightarrow> file_change (files st) (files st')"
  by (rule inserted) (auto simp: insert_file_Inr sql_insert_Some)

lemma change_save_upload:
  assumes "save_upload_field P cfg k i B u g fd v st w = (r, st', w')"
  shows "file_change (files st) (files st')"
proof (cases r)
  case (Inl e)
  have "st' = st"
    using assms Inl unfolding save_upload_field_def store_upload_def Let_def
    by (auto split: sum.splits option.splits prod.splits if_splits)
  then show ?thesis by (simp add: unchanged)
next
  case (Inr f)
  from assms [unfolded Inr] show ?thesis
  proof (cases rule: save_upload_field_Inr)
    case (1 data w1 w2)
    have "file_ok f" using 1(7,15) normalize_visibility_Inr [of v "f_visibility f"] by (auto simp: file_ok_def)
    with 1(16) show ?thesis by (rule change_insert_file)
  qed
qed

lemma change_upload_parts:
  "upload_parts P cfg k i B au ctx ps v g st w = (r, st', w') \<Longrightarrow> file_change (files st) (files st')"
proof (induction P cfg k i B au ctx ps v g st w rule: upload_parts.induct)
  case (3 P cfg k i B au ctx p ps v g st w)
  obtain r0 st0 w0 where s: "save_upload_field P cfg k i B (au_id au) g (pt_field p) v st w = (r0, st0, w0)"
    by (metis surj_pair)
  show ?case
  proof (cases "pt_name p = Some ''file''")
    case True
    with 3(5) s have "files st' = files st0"
      by (cases r0) (auto simp: uploaded_audit_def)
    with change_save_upload [OF s] show ?thesis by simp
  next
    case False
    with 3 show ?thesis
      by (auto simp: Let_def unchanged split: if_splits option.splits)
  qed
qed (auto simp: unchanged)

lemma change_presign:
  assumes "generate_presigned_upload P cfg k B u g req st w = (r, st')"
  shows "file_change (files st) (files st')"
proof -
  have "st' = st \<or> (\<exists>f. insert_file f st = Inr st' \<and> file_ok f)"
    using assms normalize_visibility_Inr [of "unwrap_or (pr_visibility req) ''private''"]
    unfolding generate_presigned_upload_def Let_def
    by (auto simp: file_ok_def split: sum.splits if_splits)
  then show ?thesis by (auto intro: unchanged change_insert_file)
qed

lemma change_complete:
  assumes "complete_upload cfg now B i u role st w = (r, st', w')"
  shows "file_change (files st) (files st')"
  using assms unfolding complete_upload_def Let_def
  by (auto simp: tombstone_def intro: unchanged deleted completed split: option.splits sum.splits if_splits)

section \<open>The system\<close>

datatype file_action =
    UploadFile call auth_user request_context "(string + part) list"
  | ReserveUpload call auth_user presigned_upload_request
  | PutSigned time signed_access_query "nat list"
  | CompleteUpload call auth_user request_context uuid
  | DeleteFile call auth_user request_context uuid
  | ReapAbandoned time

text \<open>The parameters of a run: the text of failed validations, third-party code, disk, configuration.\<close>

fun file_step ::
  "errors_text \<Rightarrow> ext \<Rightarrow> app_config \<Rightarrow> io \<Rightarrow> 'b backend \<Rightarrow> file_action \<Rightarrow> store \<times> 'b world \<Rightarrow> store \<times> 'b world" where
  "file_step V P cfg i B (UploadFile k au ctx parts) (st, w) = snd (upload_file_route P cfg k i B au ctx parts st w)"
| "file_step V P cfg i B (ReserveUpload k au req) (st, w) = (snd (create_presigned_url V P cfg k B au req st w), w)"
| "file_step V P cfg i B (PutSigned now q body) (st, w) = (st, snd (upload_signed P cfg now B q body st w))"
| "file_step V P cfg i B (CompleteUpload k au ctx f) (st, w) = snd (complete_upload_route P cfg k B au ctx f st w)"
| "file_step V P cfg i B (DeleteFile k au ctx f) (st, w) = snd (delete_file_route P k B au ctx f st w)"
| "file_step V P cfg i B (ReapAbandoned now) (st, w) = reap_abandoned_uploads cfg now B st w"

lemma file_step_change: "file_change (files (fst s)) (files (fst (file_step V P cfg i B a s)))"
proof (cases s)
  case (Pair st w)
  show ?thesis
  proof (cases a)
    case (UploadFile k au ctx parts)
    obtain r st' w' where "upload_parts P cfg k i B au ctx parts ''private'' None st w = (r, st', w')" by (metis surj_pair)
    with change_upload_parts [OF this] UploadFile Pair show ?thesis
      by (cases "require_scope au FilesWrite") (simp_all add: upload_file_route_def unchanged)
  next
    case (ReserveUpload k au req)
    obtain r st' where "generate_presigned_upload P cfg k B (au_id au) (pr_org_id req) req st w = (r, st')" by fastforce
    with change_presign [OF this] ReserveUpload Pair show ?thesis
      by (cases "require_scope au FilesWrite"; cases r) (simp_all add: create_presigned_url_def unchanged)
  next
    case (CompleteUpload k au ctx f)
    obtain r st' w' where "complete_upload cfg (c_now k) B f (au_id au) (au_role au) st w = (r, st', w')" by (metis surj_pair)
    with change_complete [OF this] CompleteUpload Pair show ?thesis
      by (cases "require_scope au FilesWrite"; cases r) (simp_all add: complete_upload_route_def unchanged)
  next
    case (DeleteFile k au ctx f)
    with Pair show ?thesis
      by (auto simp: delete_file_route_def delete_file_def intro: unchanged deleted split: sum.splits)
  next
    case (ReapAbandoned now)
    with Pair show ?thesis by (simp add: reap_abandoned_uploads_def reap_each_outcome deleted)
  qed (simp_all add: Pair unchanged)
qed

interpretation vault: monotone_system "\<lambda>s. file_inv (fst s)" "file_step V P cfg i B"
  "\<lambda>s t. evolves file_rel (files (fst s)) (files (fst t))" for V P cfg i B
proof unfold_locales
  show "file_inv (fst s) \<Longrightarrow> file_inv (fst (file_step V P cfg i B a s))" for a s
    by (rule file_change_inv [OF file_step_change])
  show "evolves file_rel (files (fst s)) (files (fst s))" for s :: "store \<times> 'b world"
    by (rule evolves_refl) (rule file_rel_refl)
  show "evolves file_rel (files (fst s)) (files (fst t)) \<Longrightarrow> evolves file_rel (files (fst t)) (files (fst u)) \<Longrightarrow>
      evolves file_rel (files (fst s)) (files (fst u))" for s t u :: "store \<times> 'b world"
    by (rule evolves_trans [OF _ _ file_rel_trans])
  show "evolves file_rel (files (fst s)) (files (fst (file_step V P cfg i B a s)))" for a s
    by (rule file_change_rel [OF file_step_change])
qed

lemma file_inv_unique:
  "file_inv st \<Longrightarrow> x \<in> set (files st) \<Longrightarrow> y \<in> set (files st) \<Longrightarrow> f_id x = f_id y \<Longrightarrow> x = y"
  unfolding file_inv_def by (elim conjE) (rule files.pk_unique)

lemma load_record_unique:
  "file_inv st \<Longrightarrow> f \<in> set (files st) \<Longrightarrow> load_record (f_id f) st = (if readable f then Inr f else Inl file_not_found)"
proof -
  assume inv: "file_inv st" and f: "f \<in> set (files st)"
  have one: "x = f" if "x \<in> set (files st)" "f_id x = f_id f" for x
    by (rule file_inv_unique [OF inv that(1) f that(2)])
  show ?thesis
  proof (cases "find (\<lambda>x. f_id x = f_id f \<and> readable x) (files st)")
    case None
    then have "\<not> readable f" using f by (auto simp: find_None_all)
    with None show ?thesis by (simp add: load_record_def)
  next
    case (Some x)
    with one have "x = f" "readable f" by (auto dest!: find_Some_mem)
    with Some show ?thesis by (simp add: load_record_def)
  qed
qed

text \<open>
  C26. What no sequence of requests on files and reaper runs undoes: every row is well formed
  and no two share an id or a storage key; a file that was deleted is never read, completed or
  signed again; and a file that was complete keeps its owner, organization, key, size and
  checksum, and can be loaded as long as it is not deleted.
\<close>

theorem file_history:
  assumes "file_inv st" "f \<in> set (files st)" "fold (file_step V P cfg i B) as (st, w) = (st', w')"
  shows "file_inv st' \<and>
         (f_deleted_at f \<noteq> None \<longrightarrow>
            load_record (f_id f) st' = Inl file_not_found \<and>
            fst (complete_upload cfg now B (f_id f) u role st' w') = Inl file_not_found) \<and>
         (readable f \<longrightarrow> (\<exists>f'\<in>set (files st').
            (f_owner_id f', f_org_id f', f_storage_key f', f_size_bytes f', f_checksum_sha256 f', f_visibility f') =
              (f_owner_id f, f_org_id f, f_storage_key f, f_size_bytes f, f_checksum_sha256 f, f_visibility f) \<and>
            (f_deleted_at f' = None \<longrightarrow> load_record (f_id f) st' = Inr f')))"
proof (intro conjI impI)
  show inv: "file_inv st'" using vault.inv_run [of "(st, w)" V P cfg i B as] assms(1,3) by simp
  have "evolves file_rel (files st) (files st')"
    using vault.R_run [of "(st, w)" V P cfg i B as] assms(1,3) by simp
  from evolvesD [OF this assms(2)]
  obtain f' where f': "f' \<in> set (files st')" "file_rel f f'" by (elim bexE)
  then have id: "f_id f' = f_id f" by (simp add: file_rel_def)
  note load = load_record_unique [OF inv f'(1), unfolded id]
  show "load_record (f_id f) st' = Inl file_not_found" if "f_deleted_at f \<noteq> None"
    using load f'(2) that by (simp add: file_rel_def readable_def)
  show "fst (complete_upload cfg now B (f_id f) u role st' w') = Inl file_not_found" if "f_deleted_at f \<noteq> None"
  proof -
    have gone: "f_deleted_at f' \<noteq> None" using f'(2) that by (simp add: file_rel_def)
    have "find (\<lambda>x. f_id x = f_id f \<and> f_deleted_at x = None) (files st') = None"
      unfolding find_None_all
    proof (intro ballI notI)
      fix x assume x: "x \<in> set (files st')" "f_id x = f_id f \<and> f_deleted_at x = None"
      then have "x = f'" by (intro file_inv_unique [OF inv _ f'(1)]) (simp_all add: id)
      with x(2) gone show False by simp
    qed
    then show ?thesis by (simp add: complete_upload_def)
  qed
  show "\<exists>f'\<in>set (files st').
            (f_owner_id f', f_org_id f', f_storage_key f', f_size_bytes f', f_checksum_sha256 f', f_visibility f') =
              (f_owner_id f, f_org_id f, f_storage_key f, f_size_bytes f, f_checksum_sha256 f, f_visibility f) \<and>
            (f_deleted_at f' = None \<longrightarrow> load_record (f_id f) st' = Inr f')" if r: "readable f"
  proof (intro bexI [OF _ f'(1)] conjI impI)
    show "(f_owner_id f', f_org_id f', f_storage_key f', f_size_bytes f', f_checksum_sha256 f', f_visibility f') =
              (f_owner_id f, f_org_id f, f_storage_key f, f_size_bytes f, f_checksum_sha256 f, f_visibility f)"
      using f'(2) r by (simp add: file_rel_def readable_def)
    show "load_record (f_id f) st' = Inr f'" if "f_deleted_at f' = None"
      using load f'(2) r that by (simp add: file_rel_def readable_def)
  qed
qed

lemma file_store_inv: "file_inv file_store"
  by (simp add: file_inv_def file_store_def no_clash_def file_clash_def sample_file_def file_ok_def)

theorem file_history_witness:
  "\<exists>st' w'. fold (file_step (\<lambda>_. []) toy_ext sample_config (\<lambda>_ _. None) sample_backend)
       [ReapAbandoned (seconds 1801), DeleteFile tenant_call (key_user (user_of_row (tenant_user 2)) sample_key_row) tenant_ctx 40]
       (file_store, disk) = (st', w') \<and> file_inv st' \<and> (\<exists>f'\<in>set (files st'). f_storage_key f' = ''k41.pdf'')"
proof -
  let ?as = "[ReapAbandoned (seconds 1801), DeleteFile tenant_call (key_user (user_of_row (tenant_user 2)) sample_key_row) tenant_ctx 40]"
  obtain st' w' where run: "fold (file_step (\<lambda>_. []) toy_ext sample_config (\<lambda>_ _. None) sample_backend) ?as (file_store, disk) = (st', w')"
    by (metis surj_pair)
  have "sample_file 41 ''k41.pdf'' ''public'' ''ready'' \<in> set (files file_store)" by (simp add: file_store_def)
  note history = file_history [OF file_store_inv this run]
  have "file_inv st'" using history by (rule conjunct1)
  moreover have "\<exists>f'\<in>set (files st'). f_storage_key f' = ''k41.pdf''"
    using history by (auto simp: sample_file_def readable_def)
  ultimately show ?thesis using run by blast
qed

end
