(* ===== verification/Idempotency.thy ===== *)
theory Idempotency
  imports Extractors
begin

text \<open>
  Idempotent replay (\<open>src/middleware/idempotency.rs\<close>): a layer around the whole router that
  stores the response of a mutating request under a hash of its caller, route, body and key,
  and answers a repetition from the store.  The router is a parameter, as are the columns the
  table \<open>idempotency_keys\<close> has: every statement that names a missing column fails.  One request
  is two steps, before and after the router runs, so that requests can overlap.
\<close>

section \<open>Text of a body\<close>

text \<open>
  \<open>String::from_utf8_lossy\<close>: well-formed sequences stay, and each maximal beginning of one
  that breaks off becomes U+FFFD.  \<open>utf8_chunk\<close> gives what is consumed and whether it is well
  formed.
\<close>

definition second_ok :: "nat \<Rightarrow> nat \<Rightarrow> bool" where
  "second_ok b c \<longleftrightarrow> is_cont c \<and> (b = 224 \<longrightarrow> 160 \<le> c) \<and> (b = 237 \<longrightarrow> c < 160) \<and>
     (b = 240 \<longrightarrow> 144 \<le> c) \<and> (b = 244 \<longrightarrow> c < 144)"

fun cont_run :: "nat \<Rightarrow> nat list \<Rightarrow> nat" where
  "cont_run 0 bs = 0"
| "cont_run (Suc n) [] = 0"
| "cont_run (Suc n) (c # cs) = (if is_cont c then Suc (cont_run n cs) else 0)"

definition utf8_chunk :: "nat \<Rightarrow> nat list \<Rightarrow> nat \<times> bool" where
  "utf8_chunk b bs =
     (let need = (if b < 128 then 0 else if 194 \<le> b \<and> b < 224 then 1 else if 224 \<le> b \<and> b < 240 then 2
                  else if 240 \<le> b \<and> b < 245 then 3 else 0);
          lead = b < 128 \<or> (194 \<le> b \<and> b < 245);
          got = (case bs of [] \<Rightarrow> 0 | c # cs \<Rightarrow>
                   if need = 0 \<or> \<not> second_ok b c then 0 else Suc (cont_run (need - 1) cs)) in
      (got, lead \<and> got = need))"

function from_utf8_lossy :: "nat list \<Rightarrow> nat list" where
  "from_utf8_lossy [] = []"
| "from_utf8_lossy (b # bs) =
     (let (n, ok) = utf8_chunk b bs in
      (if ok then b # take n bs else [239, 191, 189]) @ from_utf8_lossy (drop n bs))"
  by pat_completeness auto
termination by (relation "measure length") auto

section \<open>Responses\<close>

record http_response =
  hr_status :: nat
  hr_headers :: "(string \<times> string) list"
  hr_body :: "nat list"

text \<open>An error as a response; \<open>js\<close> prints its JSON.\<close>

type_synonym json_printer = "api_error_response \<Rightarrow> nat list"

definition error_response :: "json_printer \<Rightarrow> app_error \<Rightarrow> http_response" where
  "error_response js e =
     \<lparr>hr_status = fst (into_response e), hr_headers = [(''content-type'', ''application/json'')],
      hr_body = js (snd (into_response e))\<rparr>"

section \<open>The store\<close>

record idem_row =
  i_scope_hash :: string
  i_status_code :: "int option"
  i_content_type :: "string option"
  i_response_body :: "nat list option"
  i_expires_at :: time
  i_completed_at :: "time option"

definition idem_clash :: "idem_row \<Rightarrow> idem_row \<Rightarrow> bool" where
  "idem_clash a b \<longleftrightarrow> i_scope_hash a = i_scope_hash b"

interpretation idem_keys: sql_table idem_clash i_scope_hash
  by unfold_locales (auto simp: idem_clash_def)

text \<open>The columns the repository's migration creates.\<close>

definition migrated_columns :: "string set" where
  "migrated_columns = {''key_hash'', ''user_id'', ''recovery_point'', ''response_code'', ''response_body'',
     ''expires_at'', ''locked_at'', ''created_at''}"

text \<open>The columns the statements of this file name.\<close>

definition needed_columns :: "string set" where
  "needed_columns = {''scope_hash'', ''status_code'', ''content_type'', ''response_body'', ''expires_at'', ''completed_at''}"

definition missing_column :: app_error where
  "missing_column = DatabaseError (Database OtherDbError)"

datatype claim = Fresh | InFlight | Replay nat "string option" "nat list"

definition claim_key ::
  "string set \<Rightarrow> app_config \<Rightarrow> time \<Rightarrow> string \<Rightarrow> idem_row list \<Rightarrow> claim result \<times> idem_row list" where
  "claim_key cols cfg now h rows =
     (if \<not> {''scope_hash'', ''expires_at''} \<subseteq> cols then (Inl missing_column, rows)
      else
      (let rows' = sql_delete (\<lambda>r. i_scope_hash r = h \<and> i_expires_at r \<le> now) rows;
           new = \<lparr>i_scope_hash = h, i_status_code = None, i_content_type = None, i_response_body = None,
                  i_expires_at = now + seconds (idempotency_ttl_seconds cfg), i_completed_at = None\<rparr> in
       case sql_insert idem_clash new rows' of
         Some rows'' \<Rightarrow> (Inr Fresh, rows'')
       | None \<Rightarrow>
           if \<not> {''status_code'', ''content_type'', ''response_body''} \<subseteq> cols then (Inl missing_column, rows)
           else (Inr (case find (\<lambda>r. i_scope_hash r = h) rows' of
                        None \<Rightarrow> Fresh
                      | Some r \<Rightarrow>
                          (case (i_status_code r, i_response_body r) of
                             (Some s, Some b) \<Rightarrow> Replay (nat (s mod 65536)) (i_content_type r) b
                           | _ \<Rightarrow> InFlight)), rows')))"

definition complete_key ::
  "string set \<Rightarrow> time \<Rightarrow> string \<Rightarrow> nat \<Rightarrow> string option \<Rightarrow> nat list \<Rightarrow> idem_row list \<Rightarrow> unit result \<times> idem_row list" where
  "complete_key cols now h status content_type body rows =
     (if \<not> {''scope_hash'', ''status_code'', ''content_type'', ''response_body'', ''completed_at''} \<subseteq> cols
      then (Inl missing_column, rows)
      else (Inr (), sql_update (\<lambda>r. i_scope_hash r = h)
              (\<lambda>r. r\<lparr>i_status_code := Some (int status), i_content_type := content_type,
                     i_response_body := Some body, i_completed_at := Some now\<rparr>) rows))"

definition release_key :: "string set \<Rightarrow> string \<Rightarrow> idem_row list \<Rightarrow> idem_row list" where
  "release_key cols h rows =
     (if ''scope_hash'' \<notin> cols then rows else sql_delete (\<lambda>r. i_scope_hash r = h) rows)"

text \<open>\<open>StatusCode::from_u16\<close> accepts 100 to 999; \<open>header_ok\<close> is \<open>HeaderValue::from_str\<close>.\<close>

definition build_replay :: "(string \<Rightarrow> bool) \<Rightarrow> nat \<Rightarrow> string option \<Rightarrow> nat list \<Rightarrow> http_response" where
  "build_replay header_ok status content_type body =
     \<lparr>hr_status = (if 100 \<le> status \<and> status \<le> 999 then status else 200),
      hr_headers = (''x-idempotent-replayed'', ''true'') #
        (case content_type of None \<Rightarrow> [] | Some ct \<Rightarrow> if header_ok ct then [(''content-type'', ct)] else []),
      hr_body = body\<rparr>"

section \<open>The guard\<close>

definition mutating :: "string \<Rightarrow> bool" where
  "mutating meth \<longleftrightarrow> meth \<in> set [''POST'', ''PATCH'', ''PUT'', ''DELETE'']"

definition client_key :: "request \<Rightarrow> string option" where
  "client_key rq =
     (case map_option str_trim (header_str ''idempotency-key'' rq) of
        Some k \<Rightarrow> if k = [] then None else Some k
      | None \<Rightarrow> None)"

definition idem_identity :: "ext \<Rightarrow> app_config \<Rightarrow> time \<Rightarrow> request \<Rightarrow> string" where
  "idem_identity P cfg now rq =
     unwrap_or (map_option (\<lambda>(u, s). uuid_str P u @ '':'' @ uuid_str P s) (bearer_identity P cfg now rq)) ''anonymous''"

definition scope_hash :: "ext \<Rightarrow> string \<Rightarrow> string \<Rightarrow> string \<Rightarrow> nat list \<Rightarrow> string \<Rightarrow> string" where
  "scope_hash P identity meth path body key =
     sha256_hex P (identity @ CHR 0x0A # meth @ CHR 0x0A # path @ CHR 0x0A #
       sha256_hex P (string_of_bytes (from_utf8_lossy body)) @ CHR 0x0A # key)"

text \<open>What happens before the router: it runs unprotected, an answer is ready, or it runs under a key.\<close>

datatype admission = Unprotected | Answer http_response | Run string

fun admission_of :: "json_printer \<Rightarrow> (string \<Rightarrow> bool) \<Rightarrow> string \<Rightarrow> claim result \<Rightarrow> admission" where
  "admission_of js header_ok h (Inr Fresh) = Run h"
| "admission_of js header_ok h (Inr (Replay s ct b)) = Answer (build_replay header_ok s ct b)"
| "admission_of js header_ok h (Inr InFlight) =
     Answer (error_response js (Conflict ''A request with this Idempotency-Key is still in progress''))"
| "admission_of js header_ok h (Inl e) = Unprotected"

definition admit ::
  "json_printer \<Rightarrow> (string \<Rightarrow> bool) \<Rightarrow> ext \<Rightarrow> string set \<Rightarrow> app_config \<Rightarrow> time \<Rightarrow> request \<Rightarrow> idem_row list
     \<Rightarrow> admission \<times> idem_row list" where
  "admit js header_ok P cols cfg now rq rows =
     (if \<not> mutating (rq_method rq) then (Unprotected, rows)
      else (case client_key rq of
        None \<Rightarrow> (Unprotected, rows)
      | Some key \<Rightarrow>
          if 255 < length key
          then (Answer (error_response js (BadRequest ''Idempotency-Key must be at most 255 characters'')), rows)
          else if body_limit_bytes cfg < length (rq_body rq)
          then (Answer (error_response js (PayloadTooLarge ''Request body exceeds the configured limit'')), rows)
          else
          (let h = scope_hash P (idem_identity P cfg now rq) (rq_method rq) (rq_path rq) (rq_body rq) key in
           map_prod (admission_of js header_ok h) id (claim_key cols cfg now h rows))))"

definition MAX_CACHED_BODY :: nat where "MAX_CACHED_BODY = 1024 * 1024"

definition settled_status :: "nat \<Rightarrow> bool" where
  "settled_status s \<longleftrightarrow> (200 \<le> s \<and> s < 300) \<or> (400 \<le> s \<and> s < 500)"

definition settle ::
  "string set \<Rightarrow> time \<Rightarrow> string \<Rightarrow> http_response \<Rightarrow> idem_row list \<Rightarrow> http_response \<times> idem_row list" where
  "settle cols now h resp rows =
     (if \<not> settled_status (hr_status resp) then (resp, release_key cols h rows)
      else if MAX_CACHED_BODY < length (hr_body resp)
      then (\<lparr>hr_status = 500, hr_headers = [(''content-type'', ''text/plain; charset=utf-8'')],
             hr_body = bytes_of ''Failed to buffer response''\<rparr>, release_key cols h rows)
      else (resp,
            snd (complete_key cols now h (hr_status resp)
                   (case map_of (hr_headers resp) ''content-type'' of
                      Some v \<Rightarrow> if header_text_ok v then Some v else None
                    | None \<Rightarrow> None)
                   (hr_body resp) rows)))"

text \<open>The guard for one request that nothing overlaps; the router answers \<open>later\<close>.\<close>

definition idempotency_guard ::
  "json_printer \<Rightarrow> (string \<Rightarrow> bool) \<Rightarrow> ext \<Rightarrow> string set \<Rightarrow> app_config \<Rightarrow> (request \<Rightarrow> 's \<Rightarrow> http_response \<times> 's)
     \<Rightarrow> time \<Rightarrow> time \<Rightarrow> request \<Rightarrow> idem_row list \<times> 's \<Rightarrow> http_response \<times> idem_row list \<times> 's" where
  "idempotency_guard js header_ok P cols cfg router now later rq = (\<lambda>(rows, s).
     case admit js header_ok P cols cfg now rq rows of
       (Unprotected, rows') \<Rightarrow> (case router rq s of (resp, s') \<Rightarrow> (resp, rows', s'))
     | (Answer resp, rows') \<Rightarrow> (resp, rows', s)
     | (Run h, rows') \<Rightarrow>
         (case router rq s of (resp, s') \<Rightarrow>
          case settle cols later h resp rows' of (resp', rows'') \<Rightarrow> (resp', rows'', s')))"

section \<open>Overlapping requests\<close>

text \<open>What happens to the table: requests arrive, their handlers finish, expired rows are cleaned up.\<close>

datatype idem_event = Arrive time request | Finish time string http_response | Expire time

fun idem_step ::
  "json_printer \<Rightarrow> (string \<Rightarrow> bool) \<Rightarrow> ext \<Rightarrow> string set \<Rightarrow> app_config \<Rightarrow> idem_event \<Rightarrow> idem_row list \<Rightarrow> idem_row list" where
  "idem_step js H P cols cfg (Arrive now rq) rows = snd (admit js H P cols cfg now rq rows)"
| "idem_step js H P cols cfg (Finish now h resp) rows = snd (settle cols now h resp rows)"
| "idem_step js H P cols cfg (Expire now) rows =
     (if ''expires_at'' \<notin> cols then rows else sql_delete (\<lambda>r. i_expires_at r \<le> now) rows)"

lemma admit_rows:
  "snd (admit js H P cols cfg now rq rows) = rows \<or> (\<exists>h. snd (admit js H P cols cfg now rq rows) = snd (claim_key cols cfg now h rows))"
  unfolding admit_def Let_def by (auto split: option.split)

text \<open>What completion makes of the row.\<close>

definition answered :: "time \<Rightarrow> http_response \<Rightarrow> string option \<Rightarrow> idem_row \<Rightarrow> idem_row" where
  "answered t resp ct r = r\<lparr>i_status_code := Some (int (hr_status resp)), i_content_type := ct,
     i_response_body := Some (hr_body resp), i_completed_at := Some t\<rparr>"

lemma answered_fields [simp]:
  "i_scope_hash (answered t resp ct r) = i_scope_hash r" "i_expires_at (answered t resp ct r) = i_expires_at r"
  "i_status_code (answered t resp ct r) = Some (int (hr_status resp))" "i_content_type (answered t resp ct r) = ct"
  "i_response_body (answered t resp ct r) = Some (hr_body resp)"
  by (simp_all add: answered_def)

lemma settle_answered:
  "needed_columns \<subseteq> cols \<Longrightarrow> settled_status (hr_status resp) \<Longrightarrow> length (hr_body resp) \<le> MAX_CACHED_BODY \<Longrightarrow>
   \<exists>ct. snd (settle cols now h resp rows) = sql_update (\<lambda>r. i_scope_hash r = h) (answered now resp ct) rows"
  unfolding settle_def complete_key_def answered_def needed_columns_def by auto

lemma claim_rows:
  "snd (claim_key cols cfg now h rows) = rows \<or>
   (\<exists>new. sql_insert idem_clash new (sql_delete (\<lambda>r. i_scope_hash r = h \<and> i_expires_at r \<le> now) rows) = Some (snd (claim_key cols cfg now h rows))
      \<and> i_scope_hash new = h) \<or>
   snd (claim_key cols cfg now h rows) = sql_delete (\<lambda>r. i_scope_hash r = h \<and> i_expires_at r \<le> now) rows"
  unfolding claim_key_def Let_def by (auto split: option.splits)

lemma claim_unique: "no_clash idem_clash rows \<Longrightarrow> no_clash idem_clash (snd (claim_key cols cfg now h rows))"
  using claim_rows [of cols cfg now h rows]
  by (auto intro: idem_keys.insert_keeps no_clash_delete)

lemma settle_rows:
  "snd (settle cols now h resp rows) = rows \<or> snd (settle cols now h resp rows) = sql_delete (\<lambda>r. i_scope_hash r = h) rows \<or>
   (\<exists>ct. snd (settle cols now h resp rows) = sql_update (\<lambda>r. i_scope_hash r = h) (answered now resp ct) rows)"
  unfolding settle_def release_key_def complete_key_def answered_def by auto

lemma idem_step_unique: "no_clash idem_clash rows \<Longrightarrow> no_clash idem_clash (idem_step js H P cols cfg e rows)"
proof (cases e)
  case (Arrive now rq)
  assume "no_clash idem_clash rows"
  with admit_rows [of js H P cols cfg now rq rows] claim_unique Arrive show ?thesis by fastforce
next
  case (Finish now h resp)
  assume nc: "no_clash idem_clash rows"
  have "no_clash idem_clash (sql_update (\<lambda>r. i_scope_hash r = h) (answered now resp ct) rows)" for ct
    by (rule no_clash_update_frame [OF nc]) (simp_all add: idem_clash_def)
  with nc settle_rows [of cols now h resp rows] Finish show ?thesis by (auto intro: no_clash_delete)
qed (auto intro: no_clash_delete)

interpretation idem: step_system "no_clash idem_clash" "idem_step js H P cols cfg" for js H P cols cfg
  by unfold_locales (rule idem_step_unique)

lemma admit_unique:
  "no_clash idem_clash rows \<Longrightarrow> admit js H P cols cfg now rq rows = (a, rows') \<Longrightarrow> no_clash idem_clash rows'"
  using idem_step_unique [of rows js H P cols cfg "Arrive now rq"] by simp

text \<open>Events before a row's expiry, none of them the end of its own handler, keep the row.\<close>

fun spares :: "string \<Rightarrow> time \<Rightarrow> idem_event \<Rightarrow> bool" where
  "spares h expiry (Arrive now rq) \<longleftrightarrow> now < expiry"
| "spares h expiry (Finish now h' resp) \<longleftrightarrow> h' \<noteq> h"
| "spares h expiry (Expire now) \<longleftrightarrow> now < expiry"

lemma step_spares:
  assumes "r \<in> set rows" "spares (i_scope_hash r) (i_expires_at r) e"
  shows "r \<in> set (idem_step js H P cols cfg e rows)"
proof (cases e)
  case (Arrive now rq)
  with assms have now: "now < i_expires_at r" by simp
  have "r \<in> set (snd (claim_key cols cfg now h rows))" for h
    using claim_rows [of cols cfg now h rows] assms(1) now by (auto simp: sql_insert_Some)
  with admit_rows [of js H P cols cfg now rq rows] Arrive assms(1) show ?thesis by fastforce
next
  case (Finish now h resp)
  with assms have "h \<noteq> i_scope_hash r" by simp
  with settle_rows [of cols now h resp rows] assms(1) Finish show ?thesis
    by (auto simp: set_sql_update intro!: image_eqI [of r _ r])
next
  case (Expire now)
  with assms show ?thesis by simp
qed

lemma run_spares:
  "r \<in> set rows \<Longrightarrow> \<forall>e\<in>set es. spares (i_scope_hash r) (i_expires_at r) e \<Longrightarrow>
     r \<in> set (fold (idem_step js H P cols cfg) es rows)"
  by (induction es arbitrary: rows) (auto intro: step_spares)

text \<open>The hash a request is admitted under, if it is.\<close>

definition rq_hash :: "ext \<Rightarrow> app_config \<Rightarrow> time \<Rightarrow> request \<Rightarrow> string option" where
  "rq_hash P cfg now rq =
     (if \<not> mutating (rq_method rq) \<or> body_limit_bytes cfg < length (rq_body rq) then None
      else (case client_key rq of
              None \<Rightarrow> None
            | Some key \<Rightarrow> if 255 < length key then None
                else Some (scope_hash P (idem_identity P cfg now rq) (rq_method rq) (rq_path rq) (rq_body rq) key)))"

lemma admit_hash:
  "rq_hash P cfg now rq = Some h \<Longrightarrow>
   admit js H P cols cfg now rq rows =
     map_prod (admission_of js H h) id (claim_key cols cfg now h rows)"
  by (auto simp: rq_hash_def admit_def Let_def split: if_splits option.splits)

lemma admit_Run:
  assumes "admit js H P cols cfg now rq rows = (Run h, rows')" "needed_columns \<subseteq> cols" "no_clash idem_clash rows"
  shows "rq_hash P cfg now rq = Some h"
    and "\<exists>r\<in>set rows'. i_scope_hash r = h \<and> i_expires_at r = now + seconds (idempotency_ttl_seconds cfg) \<and>
           i_status_code r = None \<and> i_response_body r = None"
proof -
  have hash: "h' = h" if "admission_of js H h' c = Run h" for h' c
    using that by (cases "(js, H, h', c)" rule: admission_of.cases) simp_all
  show h: "rq_hash P cfg now rq = Some h"
    using assms(1) unfolding admit_def rq_hash_def Let_def
    by (auto simp: map_prod_def dest!: hash split: if_splits option.splits prod.splits)
  have cols: "''scope_hash'' \<in> cols" "''expires_at'' \<in> cols" using assms(2) by (auto simp: needed_columns_def)
  have claim: "claim_key cols cfg now h rows = (Inr Fresh, rows')"
  proof -
    obtain c where c: "claim_key cols cfg now h rows = (c, rows')" "admission_of js H h c = Run h"
      using assms(1) unfolding admit_hash [OF h] by (cases "claim_key cols cfg now h rows") auto
    then show ?thesis by (cases "(js, H, h, c)" rule: admission_of.cases) simp_all
  qed
  let ?rows = "sql_delete (\<lambda>r. i_scope_hash r = h \<and> i_expires_at r \<le> now) rows"
  show "\<exists>r\<in>set rows'. i_scope_hash r = h \<and> i_expires_at r = now + seconds (idempotency_ttl_seconds cfg) \<and>
           i_status_code r = None \<and> i_response_body r = None"
  proof (cases "\<exists>x\<in>set ?rows. i_scope_hash x = h")
    case True
    have "find (\<lambda>r. i_scope_hash r = h) ?rows \<noteq> None" using True unfolding find_None_all by blast
    then obtain x where found: "find (\<lambda>r. i_scope_hash r = h) ?rows = Some x" by blast
    have taken: "sql_insert idem_clash new ?rows = None" if "i_scope_hash new = h" for new
      using True that unfolding sql_insert_None idem_clash_def by metis
    from claim cols show ?thesis by (simp add: claim_key_def Let_def taken found split: if_splits option.splits)
  next
    case False
    have free: "sql_insert idem_clash new ?rows = Some (?rows @ [new])" if "i_scope_hash new = h" for new
      using False that by (simp add: sql_insert_Some idem_clash_def) metis
    from claim cols show ?thesis by (auto simp: claim_key_def Let_def free)
  qed
qed

lemma admit_held:
  assumes "rq_hash P cfg now rq = Some (i_scope_hash r)" "needed_columns \<subseteq> cols" "no_clash idem_clash rows"
    and "r \<in> set rows" "now < i_expires_at r"
  shows "fst (admit js H P cols cfg now rq rows) =
    Answer (case (i_status_code r, i_response_body r) of
              (Some s, Some b) \<Rightarrow> build_replay H (nat (s mod 65536)) (i_content_type r) b
            | _ \<Rightarrow> error_response js (Conflict ''A request with this Idempotency-Key is still in progress''))"
proof -
  let ?h = "i_scope_hash r"
  let ?rows = "sql_delete (\<lambda>x. i_scope_hash x = ?h \<and> i_expires_at x \<le> now) rows"
  have r: "r \<in> set ?rows" using assms(4,5) by simp
  have nc: "no_clash idem_clash ?rows" by (rule no_clash_delete [OF assms(3)])
  have found: "find (\<lambda>x. i_scope_hash x = ?h) ?rows = Some r" by (rule idem_keys.find_pk [OF nc r])
  have taken: "sql_insert idem_clash new ?rows = None" if "i_scope_hash new = ?h" for new
    using r that by (auto simp: sql_insert_None idem_clash_def)
  have cols: "{''scope_hash'', ''expires_at''} \<subseteq> cols" "{''status_code'', ''content_type'', ''response_body''} \<subseteq> cols"
    using assms(2) by (auto simp: needed_columns_def)
  show ?thesis
    unfolding admit_hash [OF assms(1)] claim_key_def Let_def
    using cols by (simp add: taken found split: option.split)
qed

lemma settled_answers:
  assumes "needed_columns \<subseteq> cols" "no_clash idem_clash rows" "r \<in> set rows"
    and "settled_status (hr_status resp)" "length (hr_body resp) \<le> MAX_CACHED_BODY"
    and "\<forall>e\<in>set es. spares (i_scope_hash r) (i_expires_at r) e"
    and "rq_hash P cfg t2 rq2 = Some (i_scope_hash r)" "t2 < i_expires_at r"
  shows "\<exists>ct. fst (admit js H P cols cfg t2 rq2 (fold (idem_step js H P cols cfg) es (snd (settle cols t1 (i_scope_hash r) resp rows)))) =
           Answer (build_replay H (hr_status resp) ct (hr_body resp))"
proof -
  let ?rows = "snd (settle cols t1 (i_scope_hash r) resp rows)"
  obtain ct where rows: "?rows = sql_update (\<lambda>x. i_scope_hash x = i_scope_hash r) (answered t1 resp ct) rows"
    using settle_answered [OF assms(1,4,5)] by blast
  have "answered t1 resp ct r \<in> set ?rows" unfolding rows sql_update_mem using assms(3) by auto
  moreover have "\<forall>e\<in>set es. spares (i_scope_hash (answered t1 resp ct r)) (i_expires_at (answered t1 resp ct r)) e"
    using assms(6) by simp
  ultimately have held: "answered t1 resp ct r \<in> set (fold (idem_step js H P cols cfg) es ?rows)" by (rule run_spares)
  have "no_clash idem_clash ?rows" using idem_step_unique [OF assms(2), of js H P cols cfg "Finish t1 (i_scope_hash r) resp"] by simp
  then have nc: "no_clash idem_clash (fold (idem_step js H P cols cfg) es ?rows)" by (rule idem.inv_run)
  have small: "nat (int (hr_status resp) mod 65536) = hr_status resp"
    using assms(4) by (auto simp: settled_status_def)
  show ?thesis
    using admit_held [OF _ assms(1) nc held, of P cfg t2 rq2 js H] assms(7,8) small by auto
qed


text \<open>
  C28. With the table the repository's migration creates the guard protects nothing: apart from
  refusing an overlong key and an overlong body it is the router itself, so a repeated request
  runs again.
\<close>

theorem migrated_table_disables_replay:
  assumes "\<forall>key. client_key rq = Some key \<and> mutating (rq_method rq) \<longrightarrow>
      length key \<le> 255 \<and> length (rq_body rq) \<le> body_limit_bytes cfg"
  shows "idempotency_guard js H P migrated_columns cfg router now later rq (rows, s) =
         (fst (router rq s), rows, snd (router rq s))"
proof -
  have "admit js H P migrated_columns cfg now rq rows = (Unprotected, rows)"
    using assms by (auto simp: admit_def Let_def claim_key_def migrated_columns_def split: option.splits)
  then show ?thesis by (simp add: idempotency_guard_def split: prod.split)
qed

text \<open>
  A key is not bound to its caller or its body as the code intends: two callers without a
  session token (every API key among them) who send the same key to the same route, with
  bodies that read alike as text, share one entry, so the second is answered with the response
  made for the first.
\<close>

theorem replay_crosses_callers:
  assumes "needed_columns \<subseteq> cols" "no_clash idem_clash rows"
    and "admit js H P cols cfg t0 rq rows = (Run h, rows1)"
    and "bearer_identity P cfg t0 rq = None" "bearer_identity P cfg t2 rq2 = None"
    and "rq_method rq2 = rq_method rq" "rq_path rq2 = rq_path rq" "client_key rq2 = client_key rq"
    and "from_utf8_lossy (rq_body rq2) = from_utf8_lossy (rq_body rq)" "length (rq_body rq2) \<le> body_limit_bytes cfg"
    and "t2 < t0 + seconds (idempotency_ttl_seconds cfg)"
    and "settled_status (hr_status resp)" "length (hr_body resp) \<le> MAX_CACHED_BODY"
  shows "\<exists>ct. fst (admit js H P cols cfg t2 rq2 (snd (settle cols t1 h resp rows1))) =
                Answer (build_replay H (hr_status resp) ct (hr_body resp))"
proof -
  note run = admit_Run [OF assms(3,1,2)]
  have "idem_identity P cfg t2 rq2 = idem_identity P cfg t0 rq" using assms(4,5) by (simp add: idem_identity_def)
  then have same: "rq_hash P cfg t2 rq2 = Some h"
    using run(1) assms(6-10) by (auto simp: rq_hash_def scope_hash_def split: if_splits option.splits)
  obtain r where r: "r \<in> set rows1" "i_scope_hash r = h" "i_expires_at r = t0 + seconds (idempotency_ttl_seconds cfg)"
    using run(2) by blast
  have nc: "no_clash idem_clash rows1" by (rule admit_unique [OF assms(2,3)])
  from settled_answers [OF assms(1) nc r(1) assms(12,13), of "[]" P cfg t2 rq2 js H t1] same assms(11) r(2,3)
  show ?thesis by simp
qed

section \<open>Concrete requests\<close>

definition keyed_request :: "string \<Rightarrow> nat list \<Rightarrow> request" where
  "keyed_request api_key body = \<lparr>rq_method = ''POST'', rq_path = ''/api/v1/apps'',
     rq_headers = [(''idempotency-key'', ''k1''), (''x-api-key'', api_key)], rq_peer = None, rq_body = body\<rparr>"

lemma keyed_simps:
  "rq_method (keyed_request a b) = ''POST''" "rq_path (keyed_request a b) = ''/api/v1/apps''"
  "rq_body (keyed_request a b) = b" "client_key (keyed_request a b) = Some ''k1''"
  "bearer_identity P cfg now (keyed_request a b) = None" "mutating ''POST''"
proof -
  have t: "str_trim ''k1'' = ''k1''" by (rule str_trim_graphic) (simp add: is_graphic_def)
  show "client_key (keyed_request a b) = Some ''k1''"
    by (simp add: client_key_def keyed_request_def header_str_def header_text_ok_def t)
  show "bearer_identity P cfg now (keyed_request a b) = None"
    by (simp add: bearer_identity_def keyed_request_def header_str_def)
qed (simp_all add: keyed_request_def mutating_def)

abbreviation keyed_hash :: "nat list \<Rightarrow> string" where
  "keyed_hash b \<equiv> scope_hash toy_ext ''anonymous'' ''POST'' ''/api/v1/apps'' b ''k1''"

lemma keyed_rq_hash: "length b \<le> 10 \<Longrightarrow> rq_hash toy_ext sample_config now (keyed_request a b) = Some (keyed_hash b)"
  by (simp add: rq_hash_def keyed_simps idem_identity_def sample_config_def for_testing_def Let_def)

definition no_js :: json_printer where "no_js = (\<lambda>_. [])"

lemma keyed_admitted:
  "length b \<le> 10 \<Longrightarrow> \<exists>rows. admit no_js (\<lambda>_. True) toy_ext needed_columns sample_config 0 (keyed_request a b) [] = (Run (keyed_hash b), rows)"
  by (simp add: admit_hash [OF keyed_rq_hash] claim_key_def needed_columns_def sql_insert_def sql_delete_def Let_def)

definition created :: http_response where
  "created = \<lparr>hr_status = 201, hr_headers = [], hr_body = [1, 2, 3]\<rparr>"

lemma created_settled: "settled_status (hr_status created)" "length (hr_body created) \<le> MAX_CACHED_BODY"
  by (simp_all add: created_def settled_status_def MAX_CACHED_BODY_def)

lemma sample_ttl: "(1::int) < 0 + seconds (idempotency_ttl_seconds sample_config)"
  by (simp add: sample_config_def for_testing_def seconds_def Let_def)


theorem migrated_table_disables_replay_witness:
  "idempotency_guard no_js (\<lambda>_. True) toy_ext migrated_columns sample_config (\<lambda>rq n. (created, Suc n)) 1 1
     (keyed_request ''a'' [1]) ([], 7) = (created, [], Suc 7)"
proof -
  have "\<forall>key. client_key (keyed_request ''a'' [1]) = Some key \<and> mutating (rq_method (keyed_request ''a'' [1])) \<longrightarrow>
      length key \<le> 255 \<and> length (rq_body (keyed_request ''a'' [1])) \<le> body_limit_bytes sample_config"
    by (simp add: keyed_simps sample_config_def for_testing_def Let_def)
  from migrated_table_disables_replay [OF this, of no_js "\<lambda>_. True" toy_ext "\<lambda>rq n. (created, Suc n)" 1 1 "[]" 7]
  show ?thesis by (simp del: One_nat_def)
qed

theorem replay_crosses_callers_witness:
  "\<exists>rows ct. admit no_js (\<lambda>_. True) toy_ext needed_columns sample_config 0 (keyed_request ''alice'' [255]) [] = (Run (keyed_hash [255]), rows) \<and>
     fst (admit no_js (\<lambda>_. True) toy_ext needed_columns sample_config 1 (keyed_request ''bob'' [254])
       (snd (settle needed_columns 1 (keyed_hash [255]) created rows))) = Answer (build_replay (\<lambda>_. True) 201 ct [1, 2, 3])"
proof -
  obtain rows where a: "admit no_js (\<lambda>_. True) toy_ext needed_columns sample_config 0 (keyed_request ''alice'' [255]) [] = (Run (keyed_hash [255]), rows)"
    using keyed_admitted [of "[255]" "''alice''"] by auto
  have same: "from_utf8_lossy (rq_body (keyed_request ''bob'' [254])) = from_utf8_lossy (rq_body (keyed_request ''alice'' [255]))"
    by (simp add: keyed_simps utf8_chunk_def Let_def)
  have small: "length (rq_body (keyed_request ''bob'' [254])) \<le> body_limit_bytes sample_config"
    by (simp add: keyed_simps sample_config_def for_testing_def Let_def)
  obtain ct where "fst (admit no_js (\<lambda>_. True) toy_ext needed_columns sample_config 1 (keyed_request ''bob'' [254])
       (snd (settle needed_columns 1 (keyed_hash [255]) created rows))) =
       Answer (build_replay (\<lambda>_. True) (hr_status created) ct (hr_body created))"
    using replay_crosses_callers [OF subset_refl no_clash_Nil a _ _ _ _ _ same small sample_ttl created_settled, of 1] by (auto simp: keyed_simps)
  with a show ?thesis by (auto simp: created_def)
qed

end
