(* ===== verification/OAuth.thy ===== *)
theory OAuth
  imports Auth_Facts
begin

text \<open>
  Sign-in with Google and GitHub (\<open>src/services/oauth.rs\<close>): the pending authorization
  requests, the calls to the provider, and the account a callback signs in to.  The
  provider and the \<open>oauth2\<close> crate (URLs, CSRF states, PKCE pairs, the token exchange and
  the profile requests) are the record \<open>oauth_web\<close>, a parameter of every definition that
  reaches it.
\<close>

section \<open>The provider\<close>

record google_user_info =
  gg_id :: string
  gg_email :: string
  gg_verified_email :: bool
  gg_name :: "string option"
  gg_picture :: "string option"

record github_user_info =
  gh_id :: int
  gh_email :: "string option"
  gh_name :: "string option"
  gh_avatar_url :: "string option"
  gh_login :: string

record github_email =
  ge_email :: string
  ge_primary :: bool
  ge_verified :: bool

text \<open>The configured client of the \<open>oauth2\<close> crate.\<close>

record oauth_client =
  oc_client_id :: string
  oc_client_secret :: string
  oc_auth_url :: string
  oc_token_url :: string
  oc_redirect_url :: string

text \<open>
  A request for JSON: it cannot be sent, it is answered with an error status, its body is
  not the JSON expected, or it yields a value.  The texts are those of the errors.
\<close>

datatype 'a fetched = SendFailed string | ErrorStatus string | BadJson string | Fetched 'a

record oauth_web =
  ow_url_error :: "string \<Rightarrow> string option" \<comment> \<open>why the text is no URL\<close>
  ow_csrf :: "(nat \<Rightarrow> char) \<Rightarrow> string" \<comment> \<open>\<open>CsrfToken::new_random\<close>\<close>
  ow_pkce :: "(nat \<Rightarrow> char) \<Rightarrow> string \<times> string" \<comment> \<open>challenge and verifier\<close>
  ow_authorize_url :: "oauth_client \<Rightarrow> string \<Rightarrow> string list \<Rightarrow> string \<Rightarrow> string"
    \<comment> \<open>client, CSRF state, scopes, challenge\<close>
  ow_exchange :: "oauth_client \<Rightarrow> string \<Rightarrow> string \<Rightarrow> string + string"
    \<comment> \<open>client, code, verifier; an error text or the access token\<close>
  ow_google_user :: "string \<Rightarrow> google_user_info fetched"
  ow_github_user :: "string \<Rightarrow> github_user_info fetched"
  ow_github_emails :: "string \<Rightarrow> github_email list fetched"

fun fetched_value :: "string \<Rightarrow> string \<Rightarrow> 'a fetched \<Rightarrow> 'a result" where
  "fetched_value provider what (SendFailed e) =
     Inl (Internal (''Failed to fetch '' @ provider @ '' '' @ what @ '': '' @ e))"
| "fetched_value provider what (ErrorStatus e) =
     Inl (Unauthorized (provider @ '' rejected the token: '' @ e))"
| "fetched_value provider what (BadJson e) =
     Inl (Internal (''Failed to parse '' @ provider @ '' '' @ what @ '': '' @ e))"
| "fetched_value provider what (Fetched x) = Inr x"

definition redirect_uri :: "oauth_web \<Rightarrow> string \<Rightarrow> string \<Rightarrow> string result" where
  "redirect_uri W provider url =
     (case ow_url_error W url of
        Some e \<Rightarrow> Inl (Internal (''Invalid '' @ provider @ '' redirect URL: '' @ e))
      | None \<Rightarrow> Inr url)"

definition get_google_client :: "oauth_web \<Rightarrow> app_config \<Rightarrow> oauth_client result" where
  "get_google_client W cfg =
     and_then (ok_or (BadRequest ''Google OAuth is not configured'') (cfg_google cfg)) (\<lambda>p.
     and_then (redirect_uri W ''Google'' (op_redirect_url p)) (\<lambda>r.
       Inr \<lparr>oc_client_id = op_client_id p, oc_client_secret = expose (op_client_secret p),
            oc_auth_url = ''https://accounts.google.com/o/oauth2/v2/auth'',
            oc_token_url = ''https://oauth2.googleapis.com/token'', oc_redirect_url = r\<rparr>))"

definition get_github_client :: "oauth_web \<Rightarrow> app_config \<Rightarrow> oauth_client result" where
  "get_github_client W cfg =
     and_then (ok_or (BadRequest ''GitHub OAuth is not configured'') (cfg_github cfg)) (\<lambda>p.
     and_then (redirect_uri W ''GitHub'' (op_redirect_url p)) (\<lambda>r.
       Inr \<lparr>oc_client_id = op_client_id p, oc_client_secret = expose (op_client_secret p),
            oc_auth_url = ''https://github.com/login/oauth/authorize'',
            oc_token_url = ''https://github.com/login/oauth/access_token'', oc_redirect_url = r\<rparr>))"

section \<open>Pending authorization requests\<close>

record oauth_url_response =
  ou_url :: string
  ou_state :: string

definition store_auth_request ::
  "ext \<Rightarrow> time \<Rightarrow> string \<Rightarrow> string \<Rightarrow> string \<Rightarrow> store \<Rightarrow> store result" where
  "store_auth_request P now provider csrf_state pkce_verifier st =
     (let r = \<lparr>o_state_hash = sha256_hex P csrf_state, o_provider = provider,
               o_pkce_verifier = pkce_verifier, o_redirect_to = None,
               o_expires_at = now + minutes 10, o_consumed_at = None\<rparr> in
      case sql_insert oauth_request_clash r (oauth_requests st) of
        None \<Rightarrow> Inl unique_violation
      | Some rs \<Rightarrow> Inr (st\<lparr>oauth_requests := rs\<rparr>))"

definition pending_request :: "time \<Rightarrow> string \<Rightarrow> string \<Rightarrow> oauth_request_row \<Rightarrow> bool" where
  "pending_request now provider h r \<longleftrightarrow> o_state_hash r = h \<and> o_provider r = provider \<and>
     o_consumed_at r = None \<and> o_expires_at r > now"

definition bad_oauth_state :: app_error where
  "bad_oauth_state =
     Unauthorized ''OAuth state is invalid, expired, or already used. Restart the sign-in flow.''"

definition consume_auth_request ::
  "ext \<Rightarrow> time \<Rightarrow> string \<Rightarrow> string \<Rightarrow> store \<Rightarrow> (string \<times> store) result" where
  "consume_auth_request P now provider csrf_state st =
     (let w = pending_request now provider (sha256_hex P csrf_state) in
      case find w (oauth_requests st) of
        None \<Rightarrow> Inl bad_oauth_state
      | Some r \<Rightarrow> Inr (o_pkce_verifier r,
          st\<lparr>oauth_requests := sql_update w (\<lambda>r. r\<lparr>o_consumed_at := Some now\<rparr>) (oauth_requests st)\<rparr>))"

text \<open>The step both providers share once their client exists.\<close>

definition start_flow ::
  "ext \<Rightarrow> oauth_web \<Rightarrow> call \<Rightarrow> string \<Rightarrow> string list \<Rightarrow> oauth_client \<Rightarrow> store
     \<Rightarrow> oauth_url_response result \<times> store" where
  "start_flow P W k provider scopes client st =
     (let (challenge, verifier) = ow_pkce W (c_rand k 0); csrf = ow_csrf W (c_rand k 1) in
      case store_auth_request P (c_now k) provider csrf verifier st of
        Inl e \<Rightarrow> (Inl e, st)
      | Inr st1 \<Rightarrow>
          (Inr \<lparr>ou_url = ow_authorize_url W client csrf scopes challenge, ou_state = csrf\<rparr>, st1))"

definition get_google_auth_url ::
  "ext \<Rightarrow> oauth_web \<Rightarrow> app_config \<Rightarrow> call \<Rightarrow> store \<Rightarrow> oauth_url_response result \<times> store" where
  "get_google_auth_url P W cfg k st =
     (case get_google_client W cfg of
        Inl e \<Rightarrow> (Inl e, st)
      | Inr client \<Rightarrow>
          start_flow P W k ''google''
            [''https://www.googleapis.com/auth/userinfo.email'',
             ''https://www.googleapis.com/auth/userinfo.profile''] client st)"

definition get_github_auth_url ::
  "ext \<Rightarrow> oauth_web \<Rightarrow> app_config \<Rightarrow> call \<Rightarrow> store \<Rightarrow> oauth_url_response result \<times> store" where
  "get_github_auth_url P W cfg k st =
     (case get_github_client W cfg of
        Inl e \<Rightarrow> (Inl e, st)
      | Inr client \<Rightarrow> start_flow P W k ''github'' [''read:user'', ''user:email''] client st)"

section \<open>The account a profile signs in to\<close>

text \<open>The arguments \<open>upsert_oauth_user\<close> takes from a provider's answer.\<close>

record oauth_profile =
  pf_email :: string
  pf_name :: string
  pf_image :: "string option"
  pf_provider :: string
  pf_account :: string
  pf_token :: "string option"

definition confirm_email :: "time \<Rightarrow> string option \<Rightarrow> user_row \<Rightarrow> user_row" where
  "confirm_email now img u =
     u\<lparr>u_email_verified := True, u_image := coalesce (u_image u) img, u_updated_at := now\<rparr>"

definition oauth_user ::
  "call \<Rightarrow> oauth_profile \<Rightarrow> store \<Rightarrow> (user_row \<times> store) result" where
  "oauth_user k pf st =
     (let email = normalize_email (pf_email pf); now = c_now k in
      case live_user_by_email email st of
        Some u \<Rightarrow>
          if u_banned u then Inl (Forbidden ''This account has been suspended'')
          else Inr (confirm_email now (pf_image pf) u,
                 st\<lparr>users := sql_update (\<lambda>x. u_id x = u_id u) (confirm_email now (pf_image pf)) (users st)\<rparr>)
      | None \<Rightarrow>
          (let u = new_user_row now (c_uuid k 0) (pf_name pf) email True (pf_image pf) in
           case sql_insert user_clash u (users st) of
             None \<Rightarrow> Inl unique_violation
           | Some us \<Rightarrow> Inr (u, st\<lparr>users := us\<rparr>)))"

definition seal_token :: "ext \<Rightarrow> app_config \<Rightarrow> call \<Rightarrow> string option \<Rightarrow> string option result" where
  "seal_token P cfg k token =
     (case token of
        None \<Rightarrow> Inr None
      | Some t \<Rightarrow> and_then (encrypt P (c_nonce k 0) (encryption_key cfg) t) (\<lambda>c. Inr (Some c)))"

text \<open>\<open>INSERT \<dots> ON CONFLICT (provider_id, account_id) DO UPDATE\<close>.\<close>

definition link_account ::
  "call \<Rightarrow> uuid \<Rightarrow> oauth_profile \<Rightarrow> string option \<Rightarrow> store \<Rightarrow> store result" where
  "link_account k user_id pf sealed st =
     (let now = c_now k;
          same = (\<lambda>a. (a_provider_id a, a_account_id a) = (pf_provider pf, pf_account pf));
          r = (new_account_row now (c_uuid k 1) user_id (pf_account pf) (pf_provider pf) None)
                \<lparr>a_access_token := sealed\<rparr> in
      if sql_exists same (accounts st)
      then Inr (st\<lparr>accounts := sql_update same
                  (\<lambda>a. a\<lparr>a_access_token := sealed, a_updated_at := now\<rparr>) (accounts st)\<rparr>)
      else (case sql_insert account_clash r (accounts st) of
              None \<Rightarrow> Inl unique_violation
            | Some as \<Rightarrow> Inr (st\<lparr>accounts := as\<rparr>)))"

definition upsert_oauth_tx ::
  "ext \<Rightarrow> app_config \<Rightarrow> call \<Rightarrow> oauth_profile \<Rightarrow> request_context \<Rightarrow> store
     \<Rightarrow> ((user_row \<times> uuid \<times> string) \<times> store) result" where
  "upsert_oauth_tx P cfg k pf ctx st =
     and_then (oauth_user k pf st) (\<lambda>(u, st1).
     and_then (seal_token P cfg k (pf_token pf)) (\<lambda>sealed.
     and_then (link_account k (u_id u) pf sealed st1) (\<lambda>st2.
     and_then (create_session P cfg (c_now k) (c_uuid k 2) (c_rand k 0) (u_id u) ctx st2) (\<lambda>((sid, rt), st3).
       Inr ((u, sid, rt), st3)))))"

definition upsert_oauth_user ::
  "ext \<Rightarrow> app_config \<Rightarrow> call \<Rightarrow> oauth_profile \<Rightarrow> request_context \<Rightarrow> store
     \<Rightarrow> auth_response result \<times> store" where
  "upsert_oauth_user P cfg k pf ctx st =
     (case upsert_oauth_tx P cfg k pf ctx st of
        Inl e \<Rightarrow> (Inl e, st)
      | Inr ((u, sid, rt), st1) \<Rightarrow>
          (let st2 = record_best_effort k (c_uuid k 3) (Some (u_id u)) ''user.signed_in_social'' ''session''
                       (Some (uuid_str P sid)) ctx (Some (JObj [(''provider'', JStr (pf_provider pf))])) st1 in
           case generate_access_token P cfg (c_now k) (user_of_row u) sid of
             Inl e \<Rightarrow> (Inl e, st2)
           | Inr access \<Rightarrow> (Inr (auth_response_of cfg access rt sid (user_of_row u)), st2)))"

section \<open>The callbacks\<close>

text \<open>What a provider says of the holder of a code, up to the call of \<open>upsert_oauth_user\<close>.\<close>

definition exchange_code ::
  "oauth_web \<Rightarrow> oauth_client \<Rightarrow> string \<Rightarrow> string \<Rightarrow> string result" where
  "exchange_code W client code verifier =
     (case ow_exchange W client code verifier of
        Inl e \<Rightarrow> Inl (Unauthorized (''OAuth token exchange failed: '' @ e))
      | Inr token \<Rightarrow> Inr token)"

definition google_profile ::
  "oauth_web \<Rightarrow> app_config \<Rightarrow> string \<Rightarrow> string \<Rightarrow> oauth_profile result" where
  "google_profile W cfg code verifier =
     and_then (get_google_client W cfg) (\<lambda>client.
     and_then (exchange_code W client code verifier) (\<lambda>token.
     and_then (fetched_value ''Google'' ''user info'' (ow_google_user W token)) (\<lambda>info.
       if \<not> gg_verified_email info
       then Inl (BadRequest ''Your Google email address is not verified. Verify it with Google, then try again.'')
       else Inr \<lparr>pf_email = gg_email info, pf_name = unwrap_or_else ''Google User'' (gg_name info),
                 pf_image = gg_picture info, pf_provider = ''google'', pf_account = gg_id info,
                 pf_token = Some token\<rparr>)))"

definition github_profile ::
  "oauth_web \<Rightarrow> app_config \<Rightarrow> string \<Rightarrow> string \<Rightarrow> oauth_profile result" where
  "github_profile W cfg code verifier =
     and_then (get_github_client W cfg) (\<lambda>client.
     and_then (exchange_code W client code verifier) (\<lambda>token.
     and_then (fetched_value ''GitHub'' ''user info'' (ow_github_user W token)) (\<lambda>info.
     and_then (fetched_value ''GitHub'' ''emails'' (ow_github_emails W token)) (\<lambda>emails.
     and_then (ok_or (BadRequest ''No verified primary email found on your GitHub account'')
                (find (\<lambda>e. ge_primary e \<and> ge_verified e) emails)) (\<lambda>e.
       Inr \<lparr>pf_email = ge_email e, pf_name = unwrap_or_else (gh_login info) (gh_name info),
            pf_image = gh_avatar_url info, pf_provider = ''github'', pf_account = int_str (gh_id info),
            pf_token = Some token\<rparr>)))))"

definition handle_google_callback ::
  "ext \<Rightarrow> oauth_web \<Rightarrow> app_config \<Rightarrow> call \<Rightarrow> string \<Rightarrow> string \<Rightarrow> request_context \<Rightarrow> store
     \<Rightarrow> auth_response result \<times> store" where
  "handle_google_callback P W cfg k code csrf_state ctx st =
     (case consume_auth_request P (c_now k) ''google'' csrf_state st of
        Inl e \<Rightarrow> (Inl e, st)
      | Inr (verifier, st1) \<Rightarrow>
          (case google_profile W cfg code verifier of
             Inl e \<Rightarrow> (Inl e, st1)
           | Inr pf \<Rightarrow> upsert_oauth_user P cfg k pf ctx st1))"

definition handle_github_callback ::
  "ext \<Rightarrow> oauth_web \<Rightarrow> app_config \<Rightarrow> call \<Rightarrow> string \<Rightarrow> string \<Rightarrow> request_context \<Rightarrow> store
     \<Rightarrow> auth_response result \<times> store" where
  "handle_github_callback P W cfg k code csrf_state ctx st =
     (case consume_auth_request P (c_now k) ''github'' csrf_state st of
        Inl e \<Rightarrow> (Inl e, st)
      | Inr (verifier, st1) \<Rightarrow>
          (case github_profile W cfg code verifier of
             Inl e \<Rightarrow> (Inl e, st1)
           | Inr pf \<Rightarrow> upsert_oauth_user P cfg k pf ctx st1))"

end
