(* ===== verification/OAuth_Facts.thy ===== *)
theory OAuth_Facts
  imports OAuth
begin

text \<open>
  What sign-in with a provider guarantees: the schema invariant and the history of the
  identity tables with the OAuth operations among the steps, single-use states, the ground
  every successful callback has, and two consequences of going by the address alone.
\<close>

section \<open>The operations as steps\<close>

datatype provider = Google | Github

fun provider_name :: "provider \<Rightarrow> string" where
  "provider_name Google = ''google''"
| "provider_name Github = ''github''"

fun provider_profile ::
  "oauth_web \<Rightarrow> app_config \<Rightarrow> provider \<Rightarrow> string \<Rightarrow> string \<Rightarrow> oauth_profile result" where
  "provider_profile W cfg Google = google_profile W cfg"
| "provider_profile W cfg Github = github_profile W cfg"

fun callback ::
  "ext \<Rightarrow> oauth_web \<Rightarrow> app_config \<Rightarrow> provider \<Rightarrow> call \<Rightarrow> string \<Rightarrow> string \<Rightarrow> request_context \<Rightarrow> store
     \<Rightarrow> auth_response result \<times> store" where
  "callback P W cfg Google = handle_google_callback P W cfg"
| "callback P W cfg Github = handle_github_callback P W cfg"

fun auth_url ::
  "ext \<Rightarrow> oauth_web \<Rightarrow> app_config \<Rightarrow> provider \<Rightarrow> call \<Rightarrow> store \<Rightarrow> oauth_url_response result \<times> store" where
  "auth_url P W cfg Google = get_google_auth_url P W cfg"
| "auth_url P W cfg Github = get_github_auth_url P W cfg"

lemma callback_alt:
  "callback P W cfg p k code csrf ctx st =
     (case consume_auth_request P (c_now k) (provider_name p) csrf st of
        Inl e \<Rightarrow> (Inl e, st)
      | Inr (verifier, st1) \<Rightarrow>
          (case provider_profile W cfg p code verifier of
             Inl e \<Rightarrow> (Inl e, st1)
           | Inr pf \<Rightarrow> upsert_oauth_user P cfg k pf ctx st1))"
  by (cases p) (simp_all add: handle_google_callback_def handle_github_callback_def
      cong: sum.case_cong prod.case_cong)

datatype oauth_action =
    OUrl provider call
  | OCallback provider call string string request_context
  | OAccount auth_action

fun oauth_step :: "ext \<Rightarrow> oauth_web \<Rightarrow> app_config \<Rightarrow> oauth_action \<Rightarrow> store \<Rightarrow> store" where
  "oauth_step P W cfg (OUrl p k) st = snd (auth_url P W cfg p k st)"
| "oauth_step P W cfg (OCallback p k code csrf ctx) st = snd (callback P W cfg p k code csrf ctx st)"
| "oauth_step P W cfg (OAccount a) st = auth_step P cfg a st"

definition oauth_inv :: "store \<Rightarrow> bool" where
  "oauth_inv st \<longleftrightarrow> identity_inv st \<and> no_clash oauth_request_clash (oauth_requests st)"

section \<open>Frames\<close>

lemma oauth_requests_frame [simp]:
  "oauth_requests (revoke_sessions now w st) = oauth_requests st"
  "oauth_requests (send_verification_email cfg r t st) = oauth_requests st"
  "oauth_requests (send_password_reset_email cfg r t st) = oauth_requests st"
  by (simp_all add: revoke_sessions_def send_verification_email_def send_password_reset_email_def dispatch_mail_def)

lemma parts_keep_oauth_requests:
  "create_session P cfg now i d u ctx st = Inr (x, st') \<Longrightarrow> oauth_requests st' = oauth_requests st"
  "issue_verification_token P now i d e pu ttl st = Inr (y, st') \<Longrightarrow> oauth_requests st' = oauth_requests st"
  "consume_verification_token P now t pu st = Inr (y, st') \<Longrightarrow> oauth_requests st' = oauth_requests st"
  "register_failed_login P cfg k i ctx st = (z, st') \<Longrightarrow> oauth_requests st' = oauth_requests st"
  by (auto simp: create_session_def issue_verification_token_def consume_verification_token_def
      register_failed_login_def Let_def split: option.splits if_splits)

lemma sign_up_tx_keeps_oauth_requests:
  "sign_up_tx P cfg k req ctx st = Inr (x, st') \<Longrightarrow> oauth_requests st' = oauth_requests st"
  by (auto simp: sign_up_tx_def Let_def and_then_Inr dest!: parts_keep_oauth_requests split: if_splits)

lemma auth_step_keeps_oauth_requests [simp]: "oauth_requests (auth_step P cfg a st) = oauth_requests st"
proof (cases a)
  case (ASignIn k req ctx)
  then show ?thesis
    by (auto simp: sign_in_email_def Let_def dest: parts_keep_oauth_requests
        split: option.split sum.split bool.split prod.split)
next
  case (AResetPassword k t p ctx)
  then show ?thesis
    by (auto simp: reset_password_def Let_def dest: parts_keep_oauth_requests split: sum.split option.split)
qed (auto simp: sign_up_email_def refresh_session_def sign_out_def sign_out_all_def verify_email_def
      forget_password_def update_profile_def change_password_def delete_account_def Let_def
      dest: sign_up_tx_keeps_oauth_requests parts_keep_oauth_requests
      split: sum.split option.split bool.split prod.split)

section \<open>The transaction\<close>

lemma confirm_email_simps [simp]:
  "u_id (confirm_email now i u) = u_id u" "u_email (confirm_email now i u) = u_email u"
  "u_deleted_at (confirm_email now i u) = u_deleted_at u" "u_banned (confirm_email now i u) = u_banned u"
  "u_email_verified (confirm_email now i u) = True" "u_locked_until (confirm_email now i u) = u_locked_until u"
  by (simp_all add: confirm_email_def)

text \<open>The address is known, or it is registered now.\<close>

lemma oauth_user_cases:
  assumes "oauth_user k pf st = Inr (u, st1)"
  obtains (known) u0 where "live_user_by_email (normalize_email (pf_email pf)) st = Some u0" "\<not> u_banned u0"
      "u = confirm_email (c_now k) (pf_image pf) u0"
      "st1 = st\<lparr>users := sql_update (\<lambda>x. u_id x = u_id u0) (confirm_email (c_now k) (pf_image pf)) (users st)\<rparr>"
    | (fresh) us where "live_user_by_email (normalize_email (pf_email pf)) st = None"
      "u = new_user_row (c_now k) (c_uuid k 0) (pf_name pf) (normalize_email (pf_email pf)) True (pf_image pf)"
      "sql_insert user_clash u (users st) = Some us" "st1 = st\<lparr>users := us\<rparr>"
  using assms by (auto simp: oauth_user_def Let_def split: option.splits if_splits)

lemma oauth_user_row:
  assumes "oauth_user k pf st = Inr (u, st1)"
  shows "u \<in> set (users st1)" "u_deleted_at u = None" "\<not> u_banned u" "u_email_verified u"
    "u_email u = normalize_email (pf_email pf)"
  using assms
  by (cases rule: oauth_user_cases,
      auto simp: new_user_row_def sql_insert_Some set_sql_update dest!: live_user_by_email_Some)+

lemma oauth_user_frame:
  "oauth_user k pf st = Inr (u, st1) \<Longrightarrow> sessions st1 = sessions st \<and> accounts st1 = accounts st \<and>
     oauth_requests st1 = oauth_requests st"
  by (cases rule: oauth_user_cases) auto

lemma inv_oauth_user: "identity_inv st \<Longrightarrow> oauth_user k pf st = Inr (u, st1) \<Longrightarrow> identity_inv st1"
proof (erule oauth_user_cases)
  fix us
  assume inv: "identity_inv st" and us: "sql_insert user_clash u (users st) = Some us" "st1 = st\<lparr>users := us\<rparr>"
  have "no_clash user_clash us" by (rule users.insert_keeps [OF inv_no_clash(1) [OF inv] us(1)])
  then show "identity_inv st1" using inv us by (auto simp: identity_inv_def sql_insert_Some)
qed (auto intro: inv_users_frame)

lemma link_account_cases:
  assumes "link_account k i pf sealed st = Inr st1"
  obtains (linked) "st1 = st\<lparr>accounts := sql_update
        (\<lambda>a. (a_provider_id a, a_account_id a) = (pf_provider pf, pf_account pf))
        (\<lambda>a. a\<lparr>a_access_token := sealed, a_updated_at := c_now k\<rparr>) (accounts st)\<rparr>"
      "\<exists>a\<in>set (accounts st). (a_provider_id a, a_account_id a) = (pf_provider pf, pf_account pf)"
    | (inserted) r as where "sql_insert account_clash r (accounts st) = Some as" "a_user_id r = i"
      "st1 = st\<lparr>accounts := as\<rparr>"
      "\<forall>a\<in>set (accounts st). (a_provider_id a, a_account_id a) \<noteq> (pf_provider pf, pf_account pf)"
      "a_provider_id r = pf_provider pf"
  using assms
  by (auto simp: link_account_def Let_def sql_exists_iff new_account_row_def split: option.splits if_splits)

lemma inv_link_account:
  assumes "identity_inv st" "link_account k i pf sealed st = Inr st1" "i \<in> u_id ` set (users st)"
  shows "identity_inv st1"
  using assms(2)
proof (cases rule: link_account_cases)
  case (inserted r as)
  have "no_clash account_clash as" by (rule accounts.insert_keeps [OF inv_no_clash(2) [OF assms(1)] inserted(1)])
  then show ?thesis using inserted assms(1,3) by (auto simp: identity_inv_def sql_insert_Some)
qed (auto intro!: inv_accounts_frame [OF assms(1)])

lemma link_account_frame:
  "link_account k i pf sealed st = Inr st1 \<Longrightarrow> sessions st1 = sessions st \<and> users st1 = users st \<and>
     oauth_requests st1 = oauth_requests st"
  by (cases rule: link_account_cases) auto

lemma upsert_txD:
  assumes "upsert_oauth_tx P cfg k pf ctx st = Inr ((u, sid, rt), st')"
  obtains st1 sealed st2 where "oauth_user k pf st = Inr (u, st1)"
    "seal_token P cfg k (pf_token pf) = Inr sealed" "link_account k (u_id u) pf sealed st1 = Inr st2"
    "create_session P cfg (c_now k) (c_uuid k 2) (c_rand k 0) (u_id u) ctx st2 = Inr ((sid, rt), st')"
  using assms by (auto simp: upsert_oauth_tx_def and_then_Inr)

lemma inv_upsert_tx:
  assumes "identity_inv st" "upsert_oauth_tx P cfg k pf ctx st = Inr ((u, sid, rt), st')"
  shows "identity_inv st' \<and> oauth_requests st' = oauth_requests st \<and> u \<in> set (users st')"
  using assms(2)
proof (cases rule: upsert_txD)
  case (1 st1 sealed st2)
  note f = oauth_user_frame [OF 1(1)] link_account_frame [OF 1(3)]
  have m: "u \<in> set (users st2)" using oauth_user_row(1) [OF 1(1)] f by simp
  then have i: "u_id u \<in> u_id ` set (users st2)" by simp
  have "identity_inv st2" by (rule inv_link_account [OF inv_oauth_user [OF assms(1) 1(1)] 1(3)]) (use i f in simp)
  from inv_create_session [OF this 1(4) i] parts_keep_oauth_requests(1) [OF 1(4)] f m 1(4)
  show ?thesis by (auto simp: create_session_ok)
qed

lemma history_upsert_tx:
  assumes "upsert_oauth_tx P cfg k pf ctx st = Inr ((u, sid, rt), st')"
  shows "history st st'"
  using assms
proof (cases rule: upsert_txD)
  case (1 st1 sealed st2)
  have "history st st1" using 1(1)
  proof (cases rule: oauth_user_cases)
    case known
    then show ?thesis by (auto intro!: history_users simp: user_grows_def)
  next
    case (fresh us)
    then show ?thesis by (auto simp: history_def intro!: evolves_refl intro: evolves_insert)
  qed
  moreover have "history st1 st2" using 1(3) by (cases rule: link_account_cases) (auto intro: history_accounts)
  ultimately show ?thesis using history_create_session [OF 1(4)] by (blast intro: history_trans)
qed

lemma upsert_result:
  assumes "upsert_oauth_user P cfg k pf ctx st = (Inr r, st')"
  obtains u sid rt st1 where "upsert_oauth_tx P cfg k pf ctx st = Inr ((u, sid, rt), st1)"
    "ar_session_id r = sid" "ar_refresh_token r = rt" "ar_user r = user_response_of (user_of_row u)"
    "users st' = users st1" "sessions st' = sessions st1" "accounts st' = accounts st1"
  using assms
  by (auto simp: upsert_oauth_user_def Let_def auth_response_of_def split: sum.splits prod.splits)

lemma inv_upsert:
  "identity_inv st \<Longrightarrow> identity_inv (snd (upsert_oauth_user P cfg k pf ctx st)) \<and>
     oauth_requests (snd (upsert_oauth_user P cfg k pf ctx st)) = oauth_requests st"
  by (auto simp: upsert_oauth_user_def Let_def dest: inv_upsert_tx split: sum.splits prod.splits)

lemma history_upsert: "history st (snd (upsert_oauth_user P cfg k pf ctx st))"
  by (auto simp: upsert_oauth_user_def Let_def intro!: history_then_audit dest: history_upsert_tx
      split: sum.splits prod.splits)

section \<open>Pending requests\<close>

lemma consume_ok_iff:
  assumes "no_clash oauth_request_clash (oauth_requests st)"
  shows "consume_auth_request P now pn csrf st = Inr (v, st1) \<longleftrightarrow>
    (\<exists>r\<in>set (oauth_requests st). pending_request now pn (sha256_hex P csrf) r \<and> v = o_pkce_verifier r \<and>
       st1 = st\<lparr>oauth_requests := sql_update (pending_request now pn (sha256_hex P csrf))
                  (\<lambda>r. r\<lparr>o_consumed_at := Some now\<rparr>) (oauth_requests st)\<rparr>)"
proof -
  let ?w = "pending_request now pn (sha256_hex P csrf)"
  have u: "x = r" if "r \<in> set (oauth_requests st)" "?w r" "x \<in> set (oauth_requests st)" "?w x" for r x
    using oauth_requests.pk_unique [OF assms that(3,1)] that by (simp add: pending_request_def)
  show ?thesis
  proof (cases "find ?w (oauth_requests st)")
    case None
    note n = None [unfolded find_None_all]
    have "consume_auth_request P now pn csrf st = Inl bad_oauth_state"
      by (simp add: consume_auth_request_def Let_def None)
    with n show ?thesis by auto
  next
    case (Some r0)
    note m = find_Some_mem [OF Some]
    have "(\<exists>r\<in>set (oauth_requests st). ?w r \<and> Q r) \<longleftrightarrow> Q r0" for Q
      using m u [of r0] by blast
    then show ?thesis by (auto simp: consume_auth_request_def Let_def Some)
  qed
qed

lemma consume_refused:
  "(\<forall>r\<in>set (oauth_requests st). o_state_hash r = sha256_hex P csrf \<longrightarrow> o_consumed_at r \<noteq> None) \<Longrightarrow>
   consume_auth_request P now pn csrf st = Inl bad_oauth_state"
  by (auto simp: consume_auth_request_def Let_def pending_request_def find_None_all split: option.split
      dest!: find_Some_mem)

lemma inv_consume_request:
  assumes "oauth_inv st" "consume_auth_request P now pn csrf st = Inr (v, st1)"
  shows "oauth_inv st1 \<and> identity_inv st1 \<and> history st st1"
proof -
  have "oauth_requests st1 = sql_update (pending_request now pn (sha256_hex P csrf))
                  (\<lambda>r. r\<lparr>o_consumed_at := Some now\<rparr>) (oauth_requests st)"
    and s: "st1 = st\<lparr>oauth_requests := oauth_requests st1\<rparr>"
    using assms(2) by (auto simp: consume_auth_request_def Let_def split: option.splits)
  then have "no_clash oauth_request_clash (oauth_requests st1)"
    using assms(1) by (auto simp: oauth_inv_def oauth_request_clash_def intro!: no_clash_update_frame)
  moreover have "identity_inv st1 \<and> history st st1"
    by (subst s, subst s, use assms(1) in \<open>simp add: oauth_inv_def identity_inv_def history_def evolves_refl\<close>)
  ultimately show ?thesis by (simp add: oauth_inv_def)
qed

lemma inv_callback:
  assumes "oauth_inv st"
  shows "oauth_inv (snd (callback P W cfg p k code csrf ctx st)) \<and>
         history st (snd (callback P W cfg p k code csrf ctx st))"
proof (cases "consume_auth_request P (c_now k) (provider_name p) csrf st")
  case (Inr vs)
  obtain v st1 where vs: "vs = (v, st1)" by (cases vs)
  note i = inv_consume_request [OF assms Inr [unfolded vs]]
  show ?thesis
  proof (cases "provider_profile W cfg p code v")
    case (Inr pf)
    then show ?thesis using i inv_upsert [of st1 P cfg k pf ctx] history_upsert [of st1 P cfg k pf ctx]
      by (auto simp: callback_alt \<open>consume_auth_request _ _ _ _ _ = _\<close> vs oauth_inv_def intro: history_trans)
  qed (use i in \<open>simp add: callback_alt \<open>consume_auth_request _ _ _ _ _ = _\<close> vs\<close>)
qed (use assms in \<open>simp add: callback_alt\<close>)

lemma auth_url_effect:
  "snd (auth_url P W cfg p k st) = st \<or>
   (\<exists>r rs. sql_insert oauth_request_clash r (oauth_requests st) = Some rs \<and>
      snd (auth_url P W cfg p k st) = st\<lparr>oauth_requests := rs\<rparr>)"
  by (cases p) (auto simp: get_google_auth_url_def get_github_auth_url_def start_flow_def store_auth_request_def
      Let_def split: sum.split prod.split option.splits)

lemma inv_auth_url:
  assumes "oauth_inv st"
  shows "oauth_inv (snd (auth_url P W cfg p k st)) \<and> history st (snd (auth_url P W cfg p k st))"
  using auth_url_effect [of P W cfg p k st]
proof
  assume "\<exists>r rs. sql_insert oauth_request_clash r (oauth_requests st) = Some rs \<and>
      snd (auth_url P W cfg p k st) = st\<lparr>oauth_requests := rs\<rparr>"
  then obtain r rs where r: "sql_insert oauth_request_clash r (oauth_requests st) = Some rs"
    "snd (auth_url P W cfg p k st) = st\<lparr>oauth_requests := rs\<rparr>" by blast
  with oauth_requests.insert_keeps [OF _ r(1)] assms show ?thesis
    by (simp add: oauth_inv_def identity_inv_def history_def evolves_refl)
qed (use assms in simp)

lemma oauth_step_inv: "oauth_inv st \<Longrightarrow> oauth_inv (oauth_step P W cfg a st) \<and> history st (oauth_step P W cfg a st)"
  by (cases a) (simp_all add: inv_callback inv_auth_url, simp add: oauth_inv_def identity_inv_step history_step)

interpretation oauth: monotone_system oauth_inv "oauth_step P W cfg" history for P W cfg
  by unfold_locales (auto dest: oauth_step_inv intro: history_trans)

text \<open>A state that was used is spent: its row stays, consumed, whatever follows.\<close>

definition spent :: "string \<Rightarrow> store \<Rightarrow> bool" where
  "spent h st \<longleftrightarrow> (\<exists>r\<in>set (oauth_requests st). o_state_hash r = h \<and> o_consumed_at r \<noteq> None)"

lemma spent_mono:
  "(\<And>r. r \<in> set (oauth_requests st) \<Longrightarrow> o_consumed_at r \<noteq> None \<Longrightarrow>
     \<exists>r'\<in>set (oauth_requests st'). o_state_hash r' = o_state_hash r \<and> o_consumed_at r' \<noteq> None) \<Longrightarrow>
   spent h st \<Longrightarrow> spent h st'"
  unfolding spent_def by metis

lemma spent_consume:
  assumes "consume_auth_request P now pn csrf st = Inr (v, st1)"
  shows "spent (sha256_hex P csrf) st1" "spent h st \<Longrightarrow> spent h st1"
proof -
  let ?w = "pending_request now pn (sha256_hex P csrf)"
  obtain r where r: "find ?w (oauth_requests st) = Some r" and
    s: "oauth_requests st1 = sql_update ?w (\<lambda>r. r\<lparr>o_consumed_at := Some now\<rparr>) (oauth_requests st)"
    using assms by (auto simp: consume_auth_request_def Let_def split: option.splits)
  then show "spent (sha256_hex P csrf) st1"
    unfolding spent_def s set_sql_update
    by (intro bexI [of _ "r\<lparr>o_consumed_at := Some now\<rparr>"]) (auto dest!: find_Some_mem simp: pending_request_def)
  show "spent h st \<Longrightarrow> spent h st1"
  proof (erule spent_mono [rotated])
    fix x assume "x \<in> set (oauth_requests st)" "o_consumed_at x \<noteq> None"
    then have "x \<in> set (oauth_requests st1)" by (force simp: s set_sql_update pending_request_def)
    then show "\<exists>r'\<in>set (oauth_requests st1). o_state_hash r' = o_state_hash x \<and> o_consumed_at r' \<noteq> None"
      using \<open>o_consumed_at x \<noteq> None\<close> by blast
  qed
qed

lemma spent_callback:
  assumes "oauth_inv st" "spent h st" shows "spent h (snd (callback P W cfg p k code csrf ctx st))"
proof (cases "consume_auth_request P (c_now k) (provider_name p) csrf st")
  case (Inr vs)
  obtain v st1 where vs: "vs = (v, st1)" by (cases vs)
  have "spent h st1" by (rule spent_consume(2) [OF Inr [unfolded vs] assms(2)])
  then show ?thesis
    using inv_consume_request [OF assms(1) Inr [unfolded vs]]
    by (auto simp: callback_alt Inr vs spent_def inv_upsert split: sum.split)
qed (use assms(2) in \<open>simp add: callback_alt\<close>)

lemma spent_step: "oauth_inv st \<Longrightarrow> spent h st \<Longrightarrow> spent h (oauth_step P W cfg a st)"
proof (cases a)
  case (OUrl p k)
  then show "spent h st \<Longrightarrow> ?thesis"
    using auth_url_effect [of P W cfg p k st] by (auto simp: spent_def sql_insert_Some)
next
  case (OAccount b)
  then show "spent h st \<Longrightarrow> ?thesis" by (simp add: spent_def)
qed (simp add: spent_callback)

lemma spent_run: "oauth_inv st \<Longrightarrow> spent h st \<Longrightarrow> spent h (fold (oauth_step P W cfg) as st)"
  by (induction as arbitrary: st) (simp_all add: spent_step oauth.inv_step)

lemma spent_refused:
  assumes "oauth_inv st" "spent (sha256_hex P csrf) st"
  shows "callback P W cfg p k code csrf ctx st = (Inl bad_oauth_state, st)"
proof -
  have "consume_auth_request P (c_now k) (provider_name p) csrf st = Inl bad_oauth_state"
  proof (rule consume_refused, intro ballI impI)
    fix r assume r: "r \<in> set (oauth_requests st)" "o_state_hash r = sha256_hex P csrf"
    obtain r' where r': "r' \<in> set (oauth_requests st)" "o_state_hash r' = sha256_hex P csrf" "o_consumed_at r' \<noteq> None"
      using assms(2) by (auto simp: spent_def)
    have "no_clash oauth_request_clash (oauth_requests st)" using assms(1) by (simp add: oauth_inv_def)
    from oauth_requests.pk_unique [OF this r(1) r'(1)] r r' show "o_consumed_at r \<noteq> None" by simp
  qed
  then show ?thesis by (simp add: callback_alt)
qed


section \<open>What a successful callback rests on\<close>

text \<open>The provider vouches for the address \<open>a\<close> to the bearer of \<open>token\<close>.\<close>

fun vouched :: "oauth_web \<Rightarrow> provider \<Rightarrow> string \<Rightarrow> string \<Rightarrow> bool" where
  "vouched W Google token a =
     (case ow_google_user W token of Fetched i \<Rightarrow> gg_verified_email i \<and> gg_email i = a | _ \<Rightarrow> False)"
| "vouched W Github token a =
     (case ow_github_emails W token of
        Fetched es \<Rightarrow> (\<exists>e\<in>set es. ge_primary e \<and> ge_verified e \<and> ge_email e = a) | _ \<Rightarrow> False)"

lemma fetched_value_Inr: "fetched_value pr what x = Inr v \<longleftrightarrow> x = Fetched v"
  by (cases x) auto

lemma exchange_code_Inr: "exchange_code W c code v = Inr t \<longleftrightarrow> ow_exchange W c code v = Inr t"
  by (simp add: exchange_code_def split: sum.split)

lemma profile_vouched:
  assumes "provider_profile W cfg p code v = Inr pf"
  shows "pf_provider pf = provider_name p \<and>
    (\<exists>client token. ow_exchange W client code v = Inr token \<and> pf_token pf = Some token \<and> vouched W p token (pf_email pf))"
proof (cases p)
  case Google
  then show ?thesis
    using assms by (auto simp: google_profile_def and_then_Inr fetched_value_Inr exchange_code_Inr split: if_splits)
next
  case Github
  then show ?thesis
    using assms
    by (auto simp: github_profile_def and_then_Inr fetched_value_Inr exchange_code_Inr dest!: find_Some_mem)
qed

lemma callback_okD:
  assumes "callback P W cfg p k code csrf ctx st = (Inr r, st')"
  obtains v st1 pf where "consume_auth_request P (c_now k) (provider_name p) csrf st = Inr (v, st1)"
    "provider_profile W cfg p code v = Inr pf" "upsert_oauth_user P cfg k pf ctx st1 = (Inr r, st')"
  using assms by (auto simp: callback_alt split: sum.splits)

lemma consume_keeps:
  "consume_auth_request P now pn csrf st = Inr (v, st1) \<Longrightarrow>
   users st1 = users st \<and> accounts st1 = accounts st \<and> sessions st1 = sessions st"
  by (auto simp: consume_auth_request_def Let_def split: option.splits)

lemma upsert_opens_session:
  assumes "identity_inv st" "upsert_oauth_user P cfg k pf ctx st = (Inr r, st')"
  obtains u where "u \<in> set (users st')" "u_deleted_at u = None" "\<not> u_banned u" "u_email_verified u"
    "u_email u = normalize_email (pf_email pf)" "ar_user r = user_response_of (user_of_row u)"
    "new_session_row P cfg (c_now k) (ar_session_id r) (ar_refresh_token r) (u_id u) ctx \<in> set (sessions st')"
    "case live_user_by_email (normalize_email (pf_email pf)) st of
       Some u0 \<Rightarrow> u = confirm_email (c_now k) (pf_image pf) u0 \<and> \<not> u_banned u0 | None \<Rightarrow> u_role u = ''user''"
  using assms(2)
proof (cases rule: upsert_result)
  case (1 u sid rt st1)
  from 1(1) obtain sa sealed sb where tx: "oauth_user k pf st = Inr (u, sa)"
    "create_session P cfg (c_now k) (c_uuid k 2) (c_rand k 0) (u_id u) ctx sb = Inr ((sid, rt), st1)"
    by (cases rule: upsert_txD) blast
  have "u \<in> set (users st')" using inv_upsert_tx [OF assms(1) 1(1)] 1(5) by simp
  moreover have "new_session_row P cfg (c_now k) (ar_session_id r) (ar_refresh_token r) (u_id u) ctx \<in> set (sessions st')"
    using tx(2) 1 by (auto simp: create_session_ok sql_insert_Some)
  moreover have "case live_user_by_email (normalize_email (pf_email pf)) st of
       Some u0 \<Rightarrow> u = confirm_email (c_now k) (pf_image pf) u0 \<and> \<not> u_banned u0 | None \<Rightarrow> u_role u = ''user''"
    using tx(1) by (cases rule: oauth_user_cases) (auto simp: new_user_row_def)
  ultimately show ?thesis using that oauth_user_row(2-5) [OF tx(1)] 1(4) by blast
qed

text \<open>
  C30. Every successful sign-in with a provider has its ground: a pending, unexpired request
  of this provider with this state, whose PKCE verifier went into the code exchange, and
  an address the provider itself vouches for to the holder of the token.  The account
  signed in to is the live, unbanned account of that address, or a new one with the role
  user; its address counts as verified, and the session returned authenticates it until it
  expires.
\<close>

theorem oauth_sign_in_is_grounded:
  assumes "oauth_inv st" "callback P W cfg p k code csrf ctx st = (Inr r, st')"
  shows "\<exists>req\<in>set (oauth_requests st). \<exists>client token address.
    o_state_hash req = sha256_hex P csrf \<and> o_provider req = provider_name p \<and>
    o_consumed_at req = None \<and> c_now k < o_expires_at req \<and>
    ow_exchange W client code (o_pkce_verifier req) = Inr token \<and> vouched W p token address \<and>
    ur_email (ar_user r) = normalize_email address \<and> ur_email_verified (ar_user r) \<and>
    (case live_user_by_email (normalize_email address) st of
       Some u \<Rightarrow> ur_id (ar_user r) = u_id u \<and> \<not> u_banned u | None \<Rightarrow> ur_role (ar_user r) = ''user'') \<and>
    (\<forall>t < c_now k + days (refresh_token_ttl_days cfg).
       \<exists>usr. resolve_session t (ur_id (ar_user r)) (ar_session_id r) st' = Inr usr \<and> user_response_of usr = ar_user r)"
  using assms(2)
proof (cases rule: callback_okD)
  case (1 v st1 pf)
  note keep = consume_keeps [OF 1(1)] and i = inv_consume_request [OF assms(1) 1(1)]
  obtain req where req: "req \<in> set (oauth_requests st)" "pending_request (c_now k) (provider_name p) (sha256_hex P csrf) req"
    "v = o_pkce_verifier req"
    using 1(1) assms(1) consume_ok_iff [of st] by (auto simp: oauth_inv_def)
  obtain client token where t: "ow_exchange W client code v = Inr token" "vouched W p token (pf_email pf)"
    using profile_vouched [OF 1(2)] by blast
  from i have inv1: "identity_inv st1" by simp
  obtain u where u: "u \<in> set (users st')" "u_deleted_at u = None" "\<not> u_banned u" "u_email_verified u"
    "u_email u = normalize_email (pf_email pf)" "ar_user r = user_response_of (user_of_row u)"
    "new_session_row P cfg (c_now k) (ar_session_id r) (ar_refresh_token r) (u_id u) ctx \<in> set (sessions st')"
    "case live_user_by_email (normalize_email (pf_email pf)) st1 of
       Some u0 \<Rightarrow> u = confirm_email (c_now k) (pf_image pf) u0 \<and> \<not> u_banned u0 | None \<Rightarrow> u_role u = ''user''"
    using upsert_opens_session [OF inv1 1(3)] by blast
  have ur: "ur_id (ar_user r) = u_id u" "ur_email (ar_user r) = u_email u" "ur_role (ar_user r) = u_role u"
    "ur_email_verified (ar_user r) = u_email_verified u"
    by (simp_all add: u(6) user_response_of_def user.truncate_def)
  have inv': "identity_inv st'" using inv_upsert [OF inv1, of P cfg k pf ctx] 1(3) by simp
  have "resolve_session t (u_id u) (ar_session_id r) st' = Inr (user_of_row u)"
    if "t < c_now k + days (refresh_token_ttl_days cfg)" for t
    unfolding resolve_session_iff [OF inv']
    using u that by (intro bexI [OF _ u(7)] bexI [OF _ u(1)]) simp
  then have live: "\<forall>t < c_now k + days (refresh_token_ttl_days cfg).
       \<exists>usr. resolve_session t (ur_id (ar_user r)) (ar_session_id r) st' = Inr usr \<and> user_response_of usr = ar_user r"
    using ur(1) by (auto simp: u(6))
  have same: "live_user_by_email e st1 = live_user_by_email e st" for e by (simp add: live_user_by_email_def keep)
  show ?thesis
    by (intro bexI [OF _ req(1)] exI [of _ client] exI [of _ token] exI [of _ "pf_email pf"])
      (use req t u(4,5,8) ur live in \<open>auto simp: pending_request_def same split: option.splits\<close>)
qed

section \<open>Going by the address\<close>

lemma oauth_user_known:
  assumes "oauth_user k pf st = Inr (w, st1)" "live_user_by_email (normalize_email (pf_email pf)) st = Some u"
  shows "w = confirm_email (c_now k) (pf_image pf) u" "u_id ` set (users st1) = u_id ` set (users st)"
proof -
  have "st1 = st\<lparr>users := sql_update (\<lambda>x. u_id x = u_id u) (confirm_email (c_now k) (pf_image pf)) (users st)\<rparr>"
    and "w = confirm_email (c_now k) (pf_image pf) u"
    using assms by (simp_all add: oauth_user_def Let_def split: if_splits)
  then show "w = confirm_email (c_now k) (pf_image pf) u" "u_id ` set (users st1) = u_id ` set (users st)"
    by (simp_all add: image_sql_update)
qed

text \<open>A link of another provider leaves the password in place.\<close>

lemma credential_of_link:
  assumes "link_account k i pf sealed st = Inr st1" "pf_provider pf \<noteq> ''credential''" "credential_password j st = Some h"
  shows "credential_password j st1 = Some h"
proof -
  let ?w = "\<lambda>a. a_user_id a = j \<and> a_provider_id a = ''credential''"
  obtain c where c: "find ?w (accounts st) = Some c" "a_password c = Some h"
    using assms(3) by (auto simp: credential_password_def credential_of_def bind_eq_Some_conv)
  have upd: "find ?w (sql_update (\<lambda>a. a_provider_id a = pf_provider pf \<and> a_account_id a = pf_account pf) f xs) = find ?w xs"
    if "\<And>a. a_user_id (f a) = a_user_id a \<and> a_provider_id (f a) = a_provider_id a" for f xs
    using assms(2) that by (induction xs) auto
  have "find ?w (accounts st1) = Some c"
    using assms(1)
  proof (cases rule: link_account_cases)
    case linked
    then show ?thesis using c(1) by (simp add: upd)
  next
    case (inserted r as)
    then show ?thesis using c(1) by (simp add: sql_insert_Some find_append)
  qed
  then show ?thesis by (simp add: credential_password_def credential_of_def c(2))
qed

text \<open>
  C31. A sign-in with a provider adopts whatever local account has the address, also one
  whose owner never proved the address: a password set before, by whoever registered the
  address, signs in afterwards to the same account, which now counts as verified.
\<close>

theorem oauth_adopts_unproven_account:
  assumes "oauth_inv st" "live_user_by_email e st = Some u"
    and "credential_password (u_id u) st = Some h" "argon2_parse P h" "argon2_verify P h (si_password req)"
    and "callback P W cfg p k code csrf ctx st = (Inr r, st')" "ur_email (ar_user r) = e"
    and "normalize_email (si_email req) = e" "\<not> is_locked (c_now k') u"
    and "\<forall>c. jwt_encode P (expose (jwt_secret cfg)) c \<noteq> None"
    and "\<forall>s\<in>set (sessions st'). s_id s \<noteq> c_uuid k' 0 \<and>
           s_refresh_token_hash s \<noteq> sha256_hex P (random_token (c_rand k' 0) TOKEN_LEN)"
  shows "\<exists>r' st''. sign_in_email P cfg k' req ctx' st' = (Inr r', st'') \<and>
           ur_id (ar_user r') = ur_id (ar_user r) \<and> ur_email_verified (ar_user r')"
  using assms(6)
proof (cases rule: callback_okD)
  case (1 v st1 pf)
  note keep = consume_keeps [OF 1(1)] and i = inv_consume_request [OF assms(1) 1(1)]
  from i have inv1: "identity_inv st1" by simp
  have inv': "identity_inv st'" using inv_upsert [OF inv1, of P cfg k pf ctx] 1(3) by simp
  obtain w sid rt st2 where w: "upsert_oauth_tx P cfg k pf ctx st1 = Inr ((w, sid, rt), st2)"
    "ar_user r = user_response_of (user_of_row w)" "users st' = users st2" "accounts st' = accounts st2"
    using 1(3) by (cases rule: upsert_result) blast
  obtain sa sealed sb where tx: "oauth_user k pf st1 = Inr (w, sa)" "link_account k (u_id w) pf sealed sa = Inr sb"
    "create_session P cfg (c_now k) (c_uuid k 2) (c_rand k 0) (u_id w) ctx sb = Inr ((sid, rt), st2)"
    using w(1) by (cases rule: upsert_txD) blast
  have ur: "ur_id (ar_user r) = u_id w" "ur_email (ar_user r) = u_email w"
    by (simp_all add: w(2) user_response_of_def user.truncate_def)
  have we: "w \<in> set (users st')" "u_email w = e" "u_deleted_at w = None" "\<not> u_banned w" "u_email_verified w"
    using inv_upsert_tx [OF inv1 w(1)] w(3) oauth_user_row(2-4) [OF tx(1)] assms(7) ur(2) by simp_all
  have known: "live_user_by_email e st1 = Some u" using assms(2) by (simp add: live_user_by_email_def keep)
  have "normalize_email (pf_email pf) = e" using oauth_user_row(5) [OF tx(1)] we(2) by simp
  then have wu: "w = confirm_email (c_now k) (pf_image pf) u"
    by (intro oauth_user_known(1) [OF tx(1)]) (simp add: known)
  have found: "live_user_by_email e st' = Some w" unfolding live_user_by_email_iff [OF inv'] using we by simp
  have "pf_provider pf \<noteq> ''credential''" using profile_vouched [OF 1(2)] by (cases p) auto
  moreover have "credential_password (u_id w) sa = Some h"
    using assms(3) keep oauth_user_frame [OF tx(1)] by (simp add: wu credential_password_def credential_of_def)
  ultimately have "credential_password (u_id w) sb = Some h" by (rule credential_of_link [OF tx(2)])
  then have cred: "credential_password (u_id w) st' = Some h"
    using tx(3) w(4) by (auto simp: create_session_ok credential_password_def credential_of_def)
  have unlocked: "\<not> is_locked (c_now k') w" using assms(9) by (simp add: wu is_locked_def)
  obtain a where a: "generate_access_token P cfg (c_now k') (user_of_row w) (c_uuid k' 0) = Inr a"
    using assms(10) by (auto simp: generate_access_token_def Let_def ok_or_Inr)
  let ?s = "new_session_row P cfg (c_now k') (c_uuid k' 0) (random_token (c_rand k' 0) TOKEN_LEN) (u_id w) ctx'"
  have "\<exists>ss. sql_insert session_clash ?s (sessions st') = Some ss"
    using assms(11) by (auto simp: sql_insert_Some session_clash_def)
  then obtain ss where "sql_insert session_clash ?s (sessions st') = Some ss" by blast
  then have "\<exists>st''. sign_in_email P cfg k' req ctx' st' =
      (Inr (auth_response_of cfg a (random_token (c_rand k' 0) TOKEN_LEN) (c_uuid k' 0) (user_of_row w)), st'')"
    using assms(4,5,8) found cred unlocked we(4) a
    by (simp add: sign_in_email_def verify_password_def create_session_def Let_def)
  moreover have "ur_id (user_response_of (user_of_row w)) = ur_id (ar_user r)" by (simp add: w(2))
  moreover have "ur_email_verified (user_response_of (user_of_row w))"
    using we(5) by (simp add: user_response_of_def user.truncate_def)
  ultimately show ?thesis by (auto simp: auth_response_of_def)
qed

text \<open>
  The link between a provider account and a local one is written and never followed.
  When the provider account is already linked to one local account and its address belongs
  to another, the callback signs in to the other one, while the link stays as it was and
  now holds the token of this sign-in.
\<close>

theorem provider_link_is_not_followed:
  assumes "oauth_inv st" "callback P W cfg p k code csrf ctx st = (Inr r, st')"
    and "consume_auth_request P (c_now k) (provider_name p) csrf st = Inr (v, st1)"
    and "provider_profile W cfg p code v = Inr pf"
    and "a \<in> set (accounts st)" "(a_provider_id a, a_account_id a) = (pf_provider pf, pf_account pf)"
    and "live_user_by_email (normalize_email (pf_email pf)) st = Some u" "u_id u \<noteq> a_user_id a"
  shows "ur_id (ar_user r) = u_id u \<and>
    (\<exists>a'\<in>set (accounts st'). a_id a' = a_id a \<and> a_user_id a' = a_user_id a \<and>
       (\<exists>sealed. seal_token P cfg k (pf_token pf) = Inr sealed \<and> a_access_token a' = sealed)) \<and>
    u_id ` set (users st') = u_id ` set (users st) \<and>
    (\<forall>a'\<in>set (accounts st'). a_user_id a' = u_id u \<longrightarrow>
       (a_provider_id a', a_account_id a') \<noteq> (pf_provider pf, pf_account pf))"
proof -
  note keep = consume_keeps [OF assms(3)] and i = inv_consume_request [OF assms(1) assms(3)]
  have up: "upsert_oauth_user P cfg k pf ctx st1 = (Inr r, st')"
    using assms(2) by (simp add: callback_alt assms(3,4))
  from i have inv1: "identity_inv st1" by simp
  have inv': "identity_inv st'" using inv_upsert [OF inv1, of P cfg k pf ctx] up by simp
  obtain w sid rt st2 where w: "upsert_oauth_tx P cfg k pf ctx st1 = Inr ((w, sid, rt), st2)"
    "ar_user r = user_response_of (user_of_row w)" "users st' = users st2" "accounts st' = accounts st2"
    using up by (cases rule: upsert_result) blast
  obtain sa sealed sb where tx: "oauth_user k pf st1 = Inr (w, sa)" "seal_token P cfg k (pf_token pf) = Inr sealed"
    "link_account k (u_id w) pf sealed sa = Inr sb"
    "create_session P cfg (c_now k) (c_uuid k 2) (c_rand k 0) (u_id w) ctx sb = Inr ((sid, rt), st2)"
    using w(1) by (cases rule: upsert_txD) blast
  have known: "live_user_by_email (normalize_email (pf_email pf)) st1 = Some u"
    using assms(7) by (simp add: live_user_by_email_def keep)
  note wu = oauth_user_known(1) [OF tx(1) known]
  have us: "u_id ` set (users sa) = u_id ` set (users st)" using oauth_user_known(2) [OF tx(1) known] keep by simp
  have acc: "accounts sa = accounts st" using oauth_user_frame [OF tx(1)] keep by simp
  let ?same = "\<lambda>a. (a_provider_id a, a_account_id a) = (pf_provider pf, pf_account pf)"
  let ?f = "\<lambda>a. a\<lparr>a_access_token := sealed, a_updated_at := c_now k\<rparr>"
  have "accounts sb = sql_update ?same ?f (accounts sa)"
    using tx(3) by (cases rule: link_account_cases) (use assms(5,6) acc in auto)
  then have acc': "accounts st' = sql_update ?same ?f (accounts st)"
    using tx(4) w(4) acc by (auto simp: create_session_ok)
  have us': "u_id ` set (users st') = u_id ` set (users st)"
    using us tx(4) w(3) link_account_frame [OF tx(3)] by (auto simp: create_session_ok)
  have link: "?f a \<in> set (accounts st')" using assms(5,6) by (auto simp: acc' set_sql_update image_iff intro!: bexI [of _ a])
  have "a_user_id a' \<noteq> u_id u" if "a' \<in> set (accounts st')" "?same a'" for a'
  proof -
    have "a' = ?f a"
      using accounts.uk_unique [OF inv_no_clash(2) [OF inv'] that(1) link] that(2) assms(6) by simp
    then show ?thesis using assms(8) by simp
  qed
  moreover have "ur_id (ar_user r) = u_id u"
    by (simp add: w(2) wu user_response_of_def user.truncate_def)
  moreover have "\<exists>a'\<in>set (accounts st'). a_id a' = a_id a \<and> a_user_id a' = a_user_id a \<and>
       (\<exists>sealed. seal_token P cfg k (pf_token pf) = Inr sealed \<and> a_access_token a' = sealed)"
    using link tx(2) by (intro bexI [OF _ link]) simp
  ultimately show ?thesis using us' by blast
qed

section \<open>A concrete provider\<close>

definition sample_web :: oauth_web where
  "sample_web = \<lparr>ow_url_error = (\<lambda>_. None), ow_csrf = (\<lambda>d. [d 0]), ow_pkce = (\<lambda>d. (''ch'', ''ve'')),
     ow_authorize_url = (\<lambda>c s scopes ch. s), ow_exchange = (\<lambda>c code v. if v = ''ve'' then Inr ''tk'' else Inl ''denied''),
     ow_google_user = (\<lambda>t. Fetched \<lparr>gg_id = ''sub'', gg_email = ''ann@example.com'', gg_verified_email = True,
        gg_name = None, gg_picture = None\<rparr>),
     ow_github_user = (\<lambda>t. SendFailed ''offline''), ow_github_emails = (\<lambda>t. SendFailed ''offline'')\<rparr>"

definition google_cfg :: app_config where
  "google_cfg = sample_cfg\<lparr>cfg_google := Some \<lparr>op_client_id = ''id'', op_client_secret = Secret ''cs'',
     op_redirect_url = ''https://app/cb''\<rparr>\<rparr>"

definition sample_request :: oauth_request_row where
  "sample_request = \<lparr>o_state_hash = sha256_hex toy_ext ''x'', o_provider = ''google'', o_pkce_verifier = ''ve'',
     o_redirect_to = None, o_expires_at = minutes 10, o_consumed_at = None\<rparr>"

definition oauth_store :: store where
  "oauth_store = sample_store\<lparr>oauth_requests := [sample_request]\<rparr>"

definition google_profile_of_ann :: oauth_profile where
  "google_profile_of_ann = \<lparr>pf_email = ''ann@example.com'', pf_name = ''Google User'', pf_image = None,
     pf_provider = ''google'', pf_account = ''sub'', pf_token = Some ''tk''\<rparr>"

lemma oauth_store_inv: "oauth_inv oauth_store"
  using sample_inv by (simp add: oauth_inv_def oauth_store_def identity_inv_def no_clash_def)

lemma ann_normal: "normalize_email ''ann@example.com'' = ''ann@example.com''"
  using sample_normalize by (simp add: sample_sign_in_def)

lemma sample_google_profile: "provider_profile sample_web google_cfg Google code ''ve'' = Inr google_profile_of_ann"
  by (simp add: google_profile_def get_google_client_def google_cfg_def redirect_uri_def sample_web_def
      exchange_code_def google_profile_of_ann_def)

lemma sample_consume:
  "oauth_requests st = [sample_request] \<Longrightarrow> consume_auth_request toy_ext 5 ''google'' ''x'' st =
     Inr (''ve'', st\<lparr>oauth_requests := [sample_request\<lparr>o_consumed_at := Some 5\<rparr>]\<rparr>)"
  by (simp add: consume_auth_request_def pending_request_def sample_request_def Let_def minutes_def)

lemma sample_seal: "\<exists>c. seal_token toy_ext google_cfg k (Some ''tk'') = Inr (Some c)"
proof -
  have "\<exists>c. encrypt toy_ext (c_nonce k 0) (encryption_key google_cfg) ''tk'' = Inr c"
    by (simp add: encrypt_def toy_ext_def bytes_of_def)
  then show ?thesis by (auto simp: seal_token_def)
qed

text \<open>Signing in with Google as the sample user, with whatever accounts there are besides.\<close>

lemma sample_callback:
  assumes "users st = u # us" "u_email u = ''ann@example.com''" "u_deleted_at u = None" "\<not> u_banned u"
    and "sessions st = [sample_session]" "oauth_requests st = [sample_request]"
    and "\<forall>a\<in>set (accounts st). a_id a < 60"
  shows "\<exists>r st'. callback toy_ext sample_web google_cfg Google (sample_call 5 (CHR ''a'')) ''code'' ''x'' sample_ctx st = (Inr r, st') \<and>
    ar_user r = user_response_of (user_of_row (confirm_email 5 None u)) \<and>
    sessions st' = [sample_session, new_session_row toy_ext google_cfg 5 62 (sample_token (CHR ''a'')) (u_id u) sample_ctx]"
proof -
  let ?k = "sample_call 5 (CHR ''a'')"
  let ?st1 = "st\<lparr>oauth_requests := [sample_request\<lparr>o_consumed_at := Some 5\<rparr>]\<rparr>"
  note c = sample_consume [OF assms(6)]
  let ?u = "confirm_email 5 None u"
  let ?st2 = "?st1\<lparr>users := sql_update (\<lambda>x. u_id x = u_id u) (confirm_email 5 None) (users st)\<rparr>"
  have ou: "oauth_user ?k google_profile_of_ann ?st1 = Inr (?u, ?st2)"
    using assms(1-4) by (simp add: oauth_user_def google_profile_of_ann_def ann_normal live_user_by_email_def Let_def)
  obtain sealed where s: "seal_token toy_ext google_cfg ?k (Some ''tk'') = Inr (Some sealed)" using sample_seal by blast
  have "\<exists>st3. link_account ?k (u_id u) google_profile_of_ann (Some sealed) ?st2 = Inr st3"
    using assms(7) by (fastforce simp: link_account_def Let_def sql_exists_iff sql_insert_None account_clash_def
        new_account_row_def split: option.split)
  then obtain st3 where l: "link_account ?k (u_id u) google_profile_of_ann (Some sealed) ?st2 = Inr st3" by blast
  have ss: "sessions st3 = [sample_session]" using link_account_frame [OF l] assms(5) by simp
  let ?s = "new_session_row toy_ext google_cfg 5 62 (sample_token (CHR ''a'')) (u_id u) sample_ctx"
  have "\<not> session_clash ?s sample_session"
    using sample_hash_neq [of "CHR ''a''"] by (simp add: session_clash_def sample_session_def)
  then have cs: "create_session toy_ext google_cfg 5 62 (c_rand ?k 0) (u_id u) sample_ctx st3 =
      Inr ((62, sample_token (CHR ''a'')), st3\<lparr>sessions := [sample_session, ?s]\<rparr>)"
    by (simp add: create_session_def sql_insert_def ss Let_def)
  obtain a where a: "generate_access_token toy_ext google_cfg 5 (user_of_row ?u) 62 = Inr a"
    using sample_jwt by blast
  have "pf_token google_profile_of_ann = Some ''tk''" by (simp add: google_profile_of_ann_def)
  then have "upsert_oauth_tx toy_ext google_cfg ?k google_profile_of_ann sample_ctx ?st1 =
      Inr ((?u, 62, sample_token (CHR ''a'')), st3\<lparr>sessions := [sample_session, ?s]\<rparr>)"
    using cs by (simp add: upsert_oauth_tx_def ou s l)
  then show ?thesis
    using a sample_google_profile [of "''code''"]
    by (simp add: callback_alt c upsert_oauth_user_def Let_def auth_response_of_def del: callback.simps)
qed

lemma sample_sign_in_google:
  "\<exists>r st'. callback toy_ext sample_web google_cfg Google (sample_call 5 (CHR ''a'')) ''code'' ''x'' sample_ctx oauth_store = (Inr r, st') \<and>
    ar_user r = user_response_of (user_of_row (confirm_email 5 None sample_user)) \<and>
    sessions st' = [sample_session, new_session_row toy_ext google_cfg 5 62 (sample_token (CHR ''a'')) (u_id sample_user) sample_ctx]"
  by (rule sample_callback) (simp_all add: oauth_store_def sample_defs)


theorem oauth_sign_in_is_grounded_witness:
  "\<exists>r st' usr. callback toy_ext sample_web google_cfg Google (sample_call 5 (CHR ''a'')) ''code'' ''x'' sample_ctx oauth_store = (Inr r, st') \<and>
     resolve_session 6 (ur_id (ar_user r)) (ar_session_id r) st' = Inr usr \<and> ur_email_verified (ar_user r)"
proof -
  obtain r st' where r: "callback toy_ext sample_web google_cfg Google (sample_call 5 (CHR ''a'')) ''code'' ''x'' sample_ctx oauth_store = (Inr r, st')"
    using sample_sign_in_google by blast
  have "6 < c_now (sample_call 5 (CHR ''a'')) + days (refresh_token_ttl_days google_cfg)"
    by (simp add: google_cfg_def days_def)
  with oauth_sign_in_is_grounded [OF oauth_store_inv r] r show ?thesis by blast
qed

text \<open>Somebody registered the address with the password \<open>secret\<close> and never confirmed it.\<close>

definition squatter :: user_row where
  "squatter = sample_user\<lparr>u_email_verified := False\<rparr>"

theorem oauth_adopts_unproven_account_witness:
  "\<exists>r st' r' st''. callback toy_ext sample_web google_cfg Google (sample_call 5 (CHR ''a'')) ''code'' ''x'' sample_ctx
       (oauth_store\<lparr>users := [squatter]\<rparr>) = (Inr r, st') \<and>
     sign_in_email toy_ext google_cfg (sample_call 7 (CHR ''b'')) (sample_sign_in ''secret'') sample_ctx st' = (Inr r', st'') \<and>
     ur_id (ar_user r') = ur_id (ar_user r) \<and> ur_email_verified (ar_user r')"
proof -
  let ?st = "oauth_store\<lparr>users := [squatter]\<rparr>"
  have u: "u_id squatter = 1" "u_email squatter = ''ann@example.com''" "u_deleted_at squatter = None" "\<not> u_banned squatter"
    "u_locked_until squatter = None"
    by (simp_all add: squatter_def sample_user_def new_user_row_def)
  have "\<exists>r st'. callback toy_ext sample_web google_cfg Google (sample_call 5 (CHR ''a'')) ''code'' ''x'' sample_ctx ?st = (Inr r, st') \<and>
    ar_user r = user_response_of (user_of_row (confirm_email 5 None squatter)) \<and>
    sessions st' = [sample_session, new_session_row toy_ext google_cfg 5 62 (sample_token (CHR ''a'')) (u_id squatter) sample_ctx]"
    by (rule sample_callback) (simp_all add: oauth_store_def sample_defs u)
  then obtain r st' where r: "callback toy_ext sample_web google_cfg Google (sample_call 5 (CHR ''a'')) ''code'' ''x'' sample_ctx ?st = (Inr r, st')"
    "ar_user r = user_response_of (user_of_row (confirm_email 5 None squatter))"
    "sessions st' = [sample_session, new_session_row toy_ext google_cfg 5 62 (sample_token (CHR ''a'')) (u_id squatter) sample_ctx]"
    by blast
  have inv: "oauth_inv ?st"
    using oauth_store_inv by (simp add: oauth_inv_def identity_inv_def no_clash_def u oauth_store_def sample_defs)
  have live: "live_user_by_email ''ann@example.com'' ?st = Some squatter" by (simp add: live_user_by_email_def u)
  have cred: "credential_password (u_id squatter) ?st = Some ''secret$salt''"
    by (simp add: credential_password_def credential_of_def oauth_store_def sample_defs squatter_def)
  have em: "ur_email (ar_user r) = ''ann@example.com''"
    by (simp add: r(2) user_response_of_def user.truncate_def u)
  have arg: "argon2_parse toy_ext ''secret$salt''" "argon2_verify toy_ext ''secret$salt'' (si_password (sample_sign_in ''secret''))"
    by (simp_all add: toy_ext_def)
  have jwt: "\<forall>c. jwt_encode toy_ext (expose (jwt_secret google_cfg)) c \<noteq> None"
    by (simp add: toy_ext_def toy_jwt_encode_def)
  have "sha256_hex toy_ext (sample_token (CHR ''a'')) \<noteq> sha256_hex toy_ext (sample_token (CHR ''b''))"
    by (rule toy_sha256_hex_neq) (simp_all add: sample_token_def TOKEN_LEN_def)
  then have fresh: "\<forall>s\<in>set (sessions st'). s_id s \<noteq> c_uuid (sample_call 7 (CHR ''b'')) 0 \<and>
      s_refresh_token_hash s \<noteq> sha256_hex toy_ext (random_token (c_rand (sample_call 7 (CHR ''b'')) 0) TOKEN_LEN)"
    using sample_hash_neq [of "CHR ''b''"] by (auto simp: r(3) sample_session_def)
  have "\<not> is_locked (c_now (sample_call 7 (CHR ''b''))) squatter" by (simp add: is_locked_def u)
  from oauth_adopts_unproven_account [OF inv live cred arg r(1) em sample_normalize this jwt fresh] r(1)
  show ?thesis by blast
qed

text \<open>The provider account was linked to user 7 before.\<close>

definition linked_store :: store where
  "linked_store = oauth_store\<lparr>users := [sample_user, new_user_row 0 7 ''Bob'' ''bob@example.com'' True None],
     accounts := [sample_account, new_account_row 0 8 7 ''sub'' ''google'' None]\<rparr>"

theorem provider_link_is_not_followed_witness:
  "\<exists>r st'. callback toy_ext sample_web google_cfg Google (sample_call 5 (CHR ''a'')) ''code'' ''x'' sample_ctx linked_store = (Inr r, st') \<and>
     ur_id (ar_user r) = 1 \<and> (\<exists>a'\<in>set (accounts st'). a_id a' = 8 \<and> a_user_id a' = 7 \<and> a_access_token a' \<noteq> None)"
proof -
  let ?a = "new_account_row 0 8 7 ''sub'' ''google'' None"
  have "\<exists>r st'. callback toy_ext sample_web google_cfg Google (sample_call 5 (CHR ''a'')) ''code'' ''x'' sample_ctx linked_store = (Inr r, st') \<and>
    ar_user r = user_response_of (user_of_row (confirm_email 5 None sample_user)) \<and>
    sessions st' = [sample_session, new_session_row toy_ext google_cfg 5 62 (sample_token (CHR ''a'')) (u_id sample_user) sample_ctx]"
    by (rule sample_callback) (simp_all add: linked_store_def oauth_store_def sample_defs)
  then obtain r st' where r: "callback toy_ext sample_web google_cfg Google (sample_call 5 (CHR ''a'')) ''code'' ''x'' sample_ctx linked_store = (Inr r, st')"
    by blast
  have inv: "oauth_inv linked_store"
    by (simp add: oauth_inv_def identity_inv_def no_clash_def linked_store_def oauth_store_def sample_defs clash_defs new_session_row_def)
  have c: "\<exists>st1. consume_auth_request toy_ext (c_now (sample_call 5 (CHR ''a''))) (provider_name Google) ''x'' linked_store = Inr (''ve'', st1)"
    by (simp add: sample_consume linked_store_def oauth_store_def)
  then obtain st1 where c: "consume_auth_request toy_ext (c_now (sample_call 5 (CHR ''a''))) (provider_name Google) ''x'' linked_store = Inr (''ve'', st1)"
    by blast
  have a: "?a \<in> set (accounts linked_store)"
    "(a_provider_id ?a, a_account_id ?a) = (pf_provider google_profile_of_ann, pf_account google_profile_of_ann)"
    by (simp_all add: linked_store_def new_account_row_def google_profile_of_ann_def)
  have l: "live_user_by_email (normalize_email (pf_email google_profile_of_ann)) linked_store = Some sample_user"
    by (simp add: google_profile_of_ann_def ann_normal live_user_by_email_def linked_store_def sample_defs)
  have n: "u_id sample_user \<noteq> a_user_id ?a" "u_id sample_user = 1" "a_id ?a = 8" "a_user_id ?a = 7"
    by (simp_all add: sample_defs)
  obtain t where "seal_token toy_ext google_cfg (sample_call 5 (CHR ''a'')) (pf_token google_profile_of_ann) = Inr (Some t)"
    using sample_seal by (auto simp: google_profile_of_ann_def)
  with provider_link_is_not_followed [OF inv r c sample_google_profile a l n(1)] r n show ?thesis by force
qed

end
