(* ===== verification/Realtime.thy ===== *)
theory Realtime
  imports Extractors
begin

text \<open>
  Realtime delivery (\<open>src/services/realtime.rs\<close>, \<open>src/routes/v1/realtime.rs\<close>) and the
  notifications that use it (\<open>src/services/notification.rs\<close>): events go through Postgres
  \<open>NOTIFY\<close>, every replica's listener puts what it hears on its local channel, and a client's
  stream lets through what is meant for it.  The JSON text of an event and its parser are
  parameters; the channel is the list of payloads notified so far.
\<close>

section \<open>Publishing\<close>

record realtime_event =
  ev_id :: uuid
  ev_type :: string
  ev_target :: "uuid option"
  ev_payload :: json
  ev_timestamp :: time

text \<open>\<open>serde_json::to_string\<close> (or its error text) and \<open>from_str\<close>.\<close>

record event_json =
  ej_print :: "realtime_event \<Rightarrow> string + string"
  ej_parse :: "string \<Rightarrow> realtime_event option"

definition MAX_NOTIFY_PAYLOAD :: nat where "MAX_NOTIFY_PAYLOAD = 7500"

text \<open>\<open>SELECT pg_notify\<close>: PostgreSQL refuses a payload of 8000 bytes or more.\<close>

definition pg_notify :: "string \<Rightarrow> string list \<Rightarrow> string list result" where
  "pg_notify payload ch =
     (if 8000 \<le> length payload then Inl (DatabaseError (Database OtherDbError)) else Inr (ch @ [payload]))"

definition encode_event :: "event_json \<Rightarrow> realtime_event \<Rightarrow> string result" where
  "encode_event J ev =
     (case ej_print J ev of
        Inl e \<Rightarrow> Inl (Internal (''Failed to encode realtime event: '' @ e))
      | Inr s \<Rightarrow> Inr s)"

definition slim_event :: "realtime_event \<Rightarrow> realtime_event" where
  "slim_event ev = ev\<lparr>ev_payload := JObj [(''truncated'', JBool True)]\<rparr>"

definition publish :: "event_json \<Rightarrow> realtime_event \<Rightarrow> string list \<Rightarrow> string list result" where
  "publish J ev ch =
     and_then (encode_event J ev) (\<lambda>payload.
       if length payload > MAX_NOTIFY_PAYLOAD
       then and_then (encode_event J (slim_event ev)) (\<lambda>slim_payload. pg_notify slim_payload ch)
       else pg_notify payload ch)"

definition publish_best_effort :: "event_json \<Rightarrow> realtime_event \<Rightarrow> string list \<Rightarrow> string list" where
  "publish_best_effort J ev ch = (case publish J ev ch of Inl e \<Rightarrow> ch | Inr ch' \<Rightarrow> ch')"

section \<open>Listening\<close>

text \<open>
  What the listener task meets: a failed connection, a failed \<open>LISTEN\<close>, a connection, a
  notification, a dropped connection.  Its state: whether it listens, the pause it takes
  next, the pauses taken, and what it has put on the local channel.
\<close>

datatype listener_event = ConnectFailed | ListenFailed | Connected | Received string | Dropped

record listener =
  ls_listening :: bool
  ls_backoff :: nat
  ls_pauses :: "nat list"
  ls_sent :: "realtime_event list"

definition new_listener :: listener where
  "new_listener = \<lparr>ls_listening = False, ls_backoff = 1, ls_pauses = [], ls_sent = []\<rparr>"

definition pause :: "listener \<Rightarrow> listener" where
  "pause l = l\<lparr>ls_listening := False, ls_pauses := ls_pauses l @ [ls_backoff l],
               ls_backoff := min (ls_backoff l * 2) 30\<rparr>"

text \<open>Events that cannot happen in a state leave it alone.\<close>

fun run_listener :: "event_json \<Rightarrow> listener_event \<Rightarrow> listener \<Rightarrow> listener" where
  "run_listener J ConnectFailed l = (if ls_listening l then l else pause l)"
| "run_listener J ListenFailed l = (if ls_listening l then l else pause l)"
| "run_listener J Connected l = (if ls_listening l then l else l\<lparr>ls_listening := True, ls_backoff := 1\<rparr>)"
| "run_listener J (Received payload) l =
     (if \<not> ls_listening l then l
      else (case ej_parse J payload of
              None \<Rightarrow> l
            | Some ev \<Rightarrow> l\<lparr>ls_sent := ls_sent l @ [ev]\<rparr>))"
| "run_listener J Dropped l = (if ls_listening l then pause l else l)"

section \<open>A client's stream\<close>

datatype stream_item = Item realtime_event | Lagged nat

record sse_event =
  se_id :: "string option"
  se_event :: string
  se_data :: string

definition for_me :: "uuid \<Rightarrow> realtime_event \<Rightarrow> bool" where
  "for_me user_id ev \<longleftrightarrow> ev_target ev = None \<or> ev_target ev = Some user_id"

fun sse_item :: "ext \<Rightarrow> event_json \<Rightarrow> uuid \<Rightarrow> stream_item \<Rightarrow> sse_event option" where
  "sse_item P J user_id (Item ev) =
     (if \<not> for_me user_id ev then None
      else (case ej_print J ev of
              Inl e \<Rightarrow> None
            | Inr text \<Rightarrow> Some \<lparr>se_id = Some (uuid_str P (ev_id ev)), se_event = ev_type ev, se_data = text\<rparr>))"
| "sse_item P J user_id (Lagged skipped) =
     Some \<lparr>se_id = None, se_event = ''lagged'',
           se_data = ''{'' @ quoted ''skipped'' @ '':'' @ nat_str skipped @ '','' @ quoted ''action'' @ '':''
                     @ quoted ''resync'' @ ''}''\<rparr>"

definition sse_stream :: "ext \<Rightarrow> event_json \<Rightarrow> auth_user \<Rightarrow> stream_item list \<Rightarrow> sse_event list" where
  "sse_stream P J au items = List.map_filter (sse_item P J (au_id au)) items"

section \<open>Notifications\<close>

text \<open>
  \<open>notif_json\<close> prints a row as JSON.  The insertion checks the references of the row.
\<close>

definition create_scoped ::
  "event_json \<Rightarrow> (notification_row \<Rightarrow> json) \<Rightarrow> call \<Rightarrow> uuid \<Rightarrow> uuid option \<Rightarrow> string \<Rightarrow> string \<Rightarrow> json option
     \<Rightarrow> store \<Rightarrow> string list \<Rightarrow> notification_row result \<times> store \<times> string list" where
  "create_scoped J notif_json k user_id org_id title body data st ch =
     (let n = \<lparr>n_id = c_uuid k 0, n_user_id = user_id, n_org_id = org_id, n_title = title, n_body = body,
               n_read = False, n_data = data, n_created_at = c_now k\<rparr> in
      if \<not> sql_exists (\<lambda>u. u_id u = user_id) (users st) \<or>
         \<not> fk_ok (\<lambda>g. sql_exists (\<lambda>r. og_id r = g) (organizations st)) org_id
      then (Inl fk_violation, st, ch)
      else (case sql_insert notification_clash n (notifications st) of
              None \<Rightarrow> (Inl unique_violation, st, ch)
            | Some ns \<Rightarrow>
                (Inr n, st\<lparr>notifications := ns\<rparr>,
                 publish_best_effort J
                   \<lparr>ev_id = c_uuid k 1, ev_type = ''notification.created'', ev_target = Some user_id,
                    ev_payload = notif_json n, ev_timestamp = c_now k\<rparr> ch)))"

definition create_notification ::
  "event_json \<Rightarrow> (notification_row \<Rightarrow> json) \<Rightarrow> call \<Rightarrow> uuid \<Rightarrow> string \<Rightarrow> string \<Rightarrow> json option
     \<Rightarrow> store \<Rightarrow> string list \<Rightarrow> notification_row result \<times> store \<times> string list" where
  "create_notification J notif_json k user_id title body data =
     create_scoped J notif_json k user_id None title body data"

definition mark_as_read :: "uuid \<Rightarrow> uuid \<Rightarrow> store \<Rightarrow> string result \<times> store" where
  "mark_as_read user_id notification_id st =
     (let w = (\<lambda>n. n_id n = notification_id \<and> n_user_id n = user_id) in
      if sql_count w (notifications st) = 0 then (Inl (NotFound ''Notification not found''), st)
      else (Inr ''Notification marked as read'',
            st\<lparr>notifications := sql_update w (\<lambda>n. n\<lparr>n_read := True\<rparr>) (notifications st)\<rparr>))"

definition mark_all_as_read :: "uuid \<Rightarrow> store \<Rightarrow> string result \<times> store" where
  "mark_all_as_read user_id st =
     (let w = (\<lambda>n. n_user_id n = user_id \<and> \<not> n_read n) in
      (Inr (''Marked '' @ nat_str (sql_count w (notifications st)) @ '' notification(s) as read''),
       st\<lparr>notifications := sql_update w (\<lambda>n. n\<lparr>n_read := True\<rparr>) (notifications st)\<rparr>))"

section \<open>The listener\<close>

text \<open>The pause is at least a second and at most thirty, and doubles while nothing succeeds.\<close>

definition listener_ok :: "listener \<Rightarrow> bool" where
  "listener_ok l \<longleftrightarrow> 1 \<le> ls_backoff l \<and> ls_backoff l \<le> 30 \<and> (\<forall>p\<in>set (ls_pauses l). 1 \<le> p \<and> p \<le> 30)"

lemma listener_ok_step: "listener_ok l \<Longrightarrow> listener_ok (run_listener J e l)"
  by (cases e) (auto simp: listener_ok_def pause_def split: option.split)

interpretation listening: step_system listener_ok "run_listener J" for J
  by unfold_locales (rule listener_ok_step)

text \<open>What reaches the local channel while the listener stays connected.\<close>

lemma listening_run:
  "ls_listening l \<Longrightarrow>
   fold (run_listener J) (map Received ps) l = l\<lparr>ls_sent := ls_sent l @ List.map_filter (ej_parse J) ps\<rparr>"
  by (induction ps arbitrary: l) (auto simp: List.map_filter_def split: option.split)

section \<open>Who sees what\<close>

text \<open>The two texts of an event read back, and a reference is short.\<close>

definition event_json_ok :: "event_json \<Rightarrow> bool" where
  "event_json_ok J \<longleftrightarrow> (\<forall>ev s. ej_print J ev = Inr s \<longrightarrow> ej_parse J s = Some ev)"

lemma publish_effect:
  assumes "event_json_ok J" "publish J ev ch = Inr ch'"
  shows "\<exists>p ev'. ch' = ch @ [p] \<and> ej_parse J p = Some ev' \<and> ej_print J ev' = Inr p \<and> (ev' = ev \<or> ev' = slim_event ev)"
proof -
  obtain s where s: "ej_print J ev = Inr s"
    using assms(2) by (auto simp: publish_def encode_event_def and_then_Inr split: sum.splits)
  have parse: "ej_print J e = Inr t \<Longrightarrow> ej_parse J t = Some e" for e t
    using assms(1) by (simp add: event_json_ok_def)
  show ?thesis
  proof (cases "length s > MAX_NOTIFY_PAYLOAD")
    case True
    then obtain t where t: "ej_print J (slim_event ev) = Inr t" "ch' = ch @ [t]"
      using assms(2) s by (auto simp: publish_def encode_event_def and_then_Inr pg_notify_def split: sum.splits if_splits)
    show ?thesis using t parse [OF t(1)] by (intro exI [of _ t] exI [of _ "slim_event ev"]) auto
  next
    case False
    then have "ch' = ch @ [s]" using assms(2) s
      by (auto simp: publish_def encode_event_def and_then_Inr pg_notify_def split: sum.splits if_splits)
    with parse [OF s] s show ?thesis by (intro exI [of _ s] exI [of _ ev]) auto
  qed
qed

lemma create_scoped_ok:
  assumes "create_scoped J nj k v g title body data st ch = (Inr n, st', ch')"
  shows "ch' = publish_best_effort J \<lparr>ev_id = c_uuid k 1, ev_type = ''notification.created'', ev_target = Some v,
           ev_payload = nj n, ev_timestamp = c_now k\<rparr> ch"
    "notifications st' = notifications st @ [n]" "n_user_id n = v" "\<not> n_read n" "n_org_id n = g"
    "n_created_at n = c_now k" "n_id n = c_uuid k 0"
  using assms by (auto simp: create_scoped_def Let_def sql_insert_Some split: if_splits option.splits)

text \<open>
  C32. A notification reaches its user's open streams and nobody else's: once it is
  created, a connected listener of any replica puts at most one event more on its local
  channel; for the user notified each of them is one stream event of type
  \<open>notification.created\<close>, and every other caller's stream shows nothing of it.
\<close>

theorem notification_reaches_only_its_user:
  assumes "event_json_ok J" "create_scoped J nj k v g title body data st ch = (Inr n, st', ch')" "ls_listening l"
  shows "\<exists>ps evs. ch' = ch @ ps \<and> length ps \<le> 1 \<and> length evs = length ps \<and>
    fold (run_listener J) (map Received ps) l = l\<lparr>ls_sent := ls_sent l @ evs\<rparr> \<and>
    (\<forall>au. sse_stream P J au (map Item evs) =
       (if au_id au = v
        then map (\<lambda>(ev, p). \<lparr>se_id = Some (uuid_str P (c_uuid k 1)), se_event = ''notification.created'', se_data = p\<rparr>) (zip evs ps)
        else []))"
proof -
  let ?ev = "\<lparr>ev_id = c_uuid k 1, ev_type = ''notification.created'', ev_target = Some v,
           ev_payload = nj n, ev_timestamp = c_now k\<rparr>"
  have ch': "ch' = publish_best_effort J ?ev ch" by (rule create_scoped_ok(1) [OF assms(2)])
  show ?thesis
  proof (cases "publish J ?ev ch")
    case (Inl e)
    then show ?thesis
      by (intro exI [of _ "[]"] conjI) (simp_all add: ch' publish_best_effort_def sse_stream_def List.map_filter_def)
  next
    case (Inr ch1)
    from publish_effect [OF assms(1) this] obtain p ev' where p: "ch1 = ch @ [p]" "ej_parse J p = Some ev'"
      "ej_print J ev' = Inr p" "ev' = ?ev \<or> ev' = slim_event ?ev" by blast
    have f: "ev_target ev' = Some v" "ev_type ev' = ''notification.created''" "ev_id ev' = c_uuid k 1"
      using p(4) by (auto simp: slim_event_def)
    show ?thesis
      by (intro exI [of _ "[p]"] exI [of _ "[ev']"] conjI allI)
        (use Inr p f listening_run [OF assms(3), of J "[p]"] in
          \<open>auto simp: ch' publish_best_effort_def sse_stream_def List.map_filter_def for_me_def\<close>)
  qed
qed

definition sample_event :: realtime_event where
  "sample_event = \<lparr>ev_id = 51, ev_type = ''notification.created'', ev_target = Some 1, ev_payload = JNull, ev_timestamp = 5\<rparr>"

definition one_event_json :: event_json where
  "one_event_json = \<lparr>ej_print = (\<lambda>ev. if ev = sample_event then Inr ''e'' else Inl ''no''),
     ej_parse = (\<lambda>s. if s = ''e'' then Some sample_event else None)\<rparr>"

theorem notification_reaches_only_its_user_witness:
  "\<exists>n st' ps evs. create_scoped one_event_json (\<lambda>_. JNull) \<lparr>c_now = 5, c_uuid = (\<lambda>i. 50 + i), c_rand = (\<lambda>_ _. CHR ''a''),
       c_salt = [], c_nonce = (\<lambda>_. []), c_audit_ok = True\<rparr> 1 None ''Hi'' ''there'' None
       (empty_store\<lparr>users := [new_user_row 0 1 ''Ann'' ''ann@example.com'' True None]\<rparr>) [] = (Inr n, st', ps) \<and>
     ps = [''e''] \<and> length evs = 1 \<and>
     sse_stream toy_ext one_event_json \<lparr>au_id = 2, au_email = [], au_role = [], au_email_verified = True,
       au_credential = Session 9\<rparr> (map Item evs) = []"
proof -
  let ?k = "\<lparr>c_now = 5, c_uuid = (\<lambda>i. 50 + i), c_rand = (\<lambda>_ _. CHR ''a''),
       c_salt = [], c_nonce = (\<lambda>_. []), c_audit_ok = True\<rparr> :: call"
  let ?st = "empty_store\<lparr>users := [new_user_row 0 1 ''Ann'' ''ann@example.com'' True None]\<rparr>"
  have law: "event_json_ok one_event_json" by (auto simp: event_json_ok_def one_event_json_def split: if_splits)
  obtain n st' where c: "create_scoped one_event_json (\<lambda>_. JNull) ?k 1 None ''Hi'' ''there'' None ?st [] = (Inr n, st', [''e''])"
    by (simp add: create_scoped_def Let_def empty_store_def sql_exists_def new_user_row_def sql_insert_def
        publish_best_effort_def publish_def encode_event_def one_event_json_def sample_event_def pg_notify_def
        MAX_NOTIFY_PAYLOAD_def)
  have "ls_listening (run_listener one_event_json Connected new_listener)" by (simp add: new_listener_def)
  from notification_reaches_only_its_user [OF law c this, of toy_ext] obtain evs where
    "length evs = 1" "\<forall>au. au_id au \<noteq> 1 \<longrightarrow> sse_stream toy_ext one_event_json au (map Item evs) = []" by auto
  with c show ?thesis by (intro exI [of _ n] exI [of _ st'] exI [of _ "[''e'']"] exI [of _ evs]) auto
qed

end
