(* ===== verification/Feeds.thy ===== *)
theory Feeds
  imports Pagination Realtime "HOL-Library.Product_Lexorder"
begin

text \<open>
  The two keyset-paginated feeds: notifications (\<open>src/routes/v1/notifications.rs\<close>) and the
  audit trail (\<open>src/routes/v1/audit.rs\<close>).  A page is selected after the cursor of the last
  row seen, with one row more than asked for to know whether another page follows.
\<close>

section \<open>One page of a feed\<close>

text \<open>\<open>$c IS NULL OR (created_at, id) < $c \<dots> ORDER BY created_at DESC, id DESC LIMIT n\<close>.\<close>

definition after_cursor :: "('r \<Rightarrow> time) \<Rightarrow> ('r \<Rightarrow> uuid) \<Rightarrow> cursor option \<Rightarrow> 'r \<Rightarrow> bool" where
  "after_cursor at i c r =
     (case c of None \<Rightarrow> True | Some cu \<Rightarrow> (at r, i r) < (cu_created_at cu, cu_id cu))"

definition feed_rows ::
  "('r \<Rightarrow> time) \<Rightarrow> ('r \<Rightarrow> uuid) \<Rightarrow> ('r \<Rightarrow> bool) \<Rightarrow> cursor option \<Rightarrow> nat \<Rightarrow> 'r list \<Rightarrow> 'r list" where
  "feed_rows at i w c n rs =
     take n (rev (sort_key (\<lambda>r. (at r, i r)) (filter (\<lambda>r. w r \<and> after_cursor at i c r) rs)))"

definition decode_cursor :: "ext \<Rightarrow> string option \<Rightarrow> cursor option result" where
  "decode_cursor P raw =
     (case raw of
        None \<Rightarrow> Inr None
      | Some s \<Rightarrow> and_then (ok_or (BadRequest ''Malformed cursor'') (cursor_decode P s)) (\<lambda>c. Inr (Some c)))"

definition feed_page ::
  "ext \<Rightarrow> ('r \<Rightarrow> time) \<Rightarrow> ('r \<Rightarrow> uuid) \<Rightarrow> ('r \<Rightarrow> bool) \<Rightarrow> cursor_params \<Rightarrow> 'r list
     \<Rightarrow> ('r list \<times> cursor_meta) result" where
  "feed_page P at i w params rs =
     (let lim = cp_get_limit params in
      and_then (decode_cursor P (cp_cursor params)) (\<lambda>c.
        let fetched = feed_rows at i w c (nat (as_i64 lim + 1)) rs;
            has_next = length fetched > unat lim;
            page = take (unat lim) fetched;
            last_row = (if page = [] then None
                        else Some \<lparr>cu_created_at = at (last page), cu_id = i (last page)\<rparr>) in
        Inr (page, cursor_meta_from_page P lim has_next last_row)))"

fun opt_entry :: "string \<Rightarrow> string option \<Rightarrow> (string \<times> json) list" where
  "opt_entry k None = []"
| "opt_entry k (Some s) = [(k, JStr s)]"

text \<open>\<open>serde_json::to_value(CursorMeta)\<close>; absent cursors are skipped.\<close>

definition cursor_meta_json :: "cursor_meta \<Rightarrow> (string \<times> json) list" where
  "cursor_meta_json m =
     [(''limit'', JNum (uint (cm_limit m))), (''has_next'', JBool (cm_has_next m))]
     @ opt_entry ''next_cursor'' (cm_next_cursor m) @ opt_entry ''previous_cursor'' (cm_previous_cursor m)"

section \<open>Notifications\<close>

definition my_notification :: "uuid \<Rightarrow> uuid option \<Rightarrow> notification_row \<Rightarrow> bool" where
  "my_notification user_id org_id n \<longleftrightarrow>
     n_user_id n = user_id \<and> (case org_id of None \<Rightarrow> True | Some g \<Rightarrow> n_org_id n = Some g)"

definition list_notifications ::
  "ext \<Rightarrow> auth_user \<Rightarrow> cursor_params \<Rightarrow> uuid option \<Rightarrow> store \<Rightarrow> notification_row list api_response result" where
  "list_notifications P au params org_filter st =
     and_then (require_scope au NotificationsRead) (\<lambda>_.
     and_then (case org_filter of
                 None \<Rightarrow> Inr ()
               | Some g \<Rightarrow> and_then (require_membership g (au_id au) st) (\<lambda>_. Inr ())) (\<lambda>_.
     and_then (feed_page P n_created_at n_id (my_notification (au_id au) org_filter) params (notifications st))
       (\<lambda>(page, meta).
          let unread = sql_count (\<lambda>n. my_notification (au_id au) org_filter n \<and> \<not> n_read n) (notifications st) in
          Inr (api_with_meta page (JObj (cursor_meta_json meta @ [(''unread_count'', JNum (int unread))]))))))"

definition mark_notification_read :: "auth_user \<Rightarrow> uuid \<Rightarrow> store \<Rightarrow> string api_response result \<times> store" where
  "mark_notification_read au i st =
     (case require_scope au NotificationsWrite of
        Inl e \<Rightarrow> (Inl e, st)
      | Inr _ \<Rightarrow>
          (case mark_as_read (au_id au) i st of
             (Inl e, st') \<Rightarrow> (Inl e, st')
           | (Inr msg, st') \<Rightarrow> (Inr (api_success msg), st')))"

definition mark_all_notifications_read :: "auth_user \<Rightarrow> store \<Rightarrow> string api_response result \<times> store" where
  "mark_all_notifications_read au st =
     (case require_scope au NotificationsWrite of
        Inl e \<Rightarrow> (Inl e, st)
      | Inr _ \<Rightarrow>
          (case mark_all_as_read (au_id au) st of
             (Inl e, st') \<Rightarrow> (Inl e, st')
           | (Inr msg, st') \<Rightarrow> (Inr (api_success msg), st')))"

section \<open>The audit trail\<close>

record audit_filter =
  af_user_id :: "uuid option"
  af_action :: "string option"

definition audit_matches :: "audit_filter \<Rightarrow> audit_row \<Rightarrow> bool" where
  "audit_matches f l \<longleftrightarrow>
     (case af_user_id f of None \<Rightarrow> True | Some u \<Rightarrow> l_user_id l = Some u) \<and>
     (case af_action f of None \<Rightarrow> True | Some a \<Rightarrow> l_action l = a)"

definition list_audit_logs ::
  "ext \<Rightarrow> admin_user \<Rightarrow> cursor_params \<Rightarrow> audit_filter \<Rightarrow> store \<Rightarrow> audit_row list api_response result" where
  "list_audit_logs P admin params f st =
     and_then (admin_require_scope admin AuditRead) (\<lambda>_.
     and_then (feed_page P l_created_at l_id (audit_matches f) params (audit_logs st)) (\<lambda>(page, meta).
       Inr (api_with_meta page (JObj (cursor_meta_json meta)))))"

section \<open>Walking a feed\<close>

lemma as_i64_cp_limit: "nat (as_i64 (cp_get_limit p) + 1) = Suc (unat (cp_get_limit p))"
proof -
  have "unat (cp_get_limit p) \<le> 100" using unat_clamp by (simp add: cp_get_limit_def)
  then have e: "as_i64 (cp_get_limit p) = int (unat (cp_get_limit p))" by (intro as_i64_small) simp
  have "nat (int n + 1) = Suc n" for n by simp
  then show ?thesis unfolding e .
qed

lemma cp_limit_bounds: "1 \<le> unat (cp_get_limit p)" "unat (cp_get_limit p) \<le> 100"
  using unat_clamp by (auto simp: cp_get_limit_def)

text \<open>Of a strictly descending list, the elements below one of them are those after it.\<close>

lemma filter_below:
  assumes "sorted_wrt (\<lambda>a b. f b < f a) xs" "m < length xs"
  shows "filter (\<lambda>r. (f r :: 'k::linorder) < f (xs ! m)) xs = drop (Suc m) xs"
  using assms
proof (induction xs arbitrary: m)
  case (Cons x xs)
  show ?case
  proof (cases m)
    case 0
    have "\<forall>b\<in>set xs. f b < f x" using Cons.prems(1) by simp
    then show ?thesis using 0 by (simp add: filter_id_conv)
  next
    case (Suc j)
    then have "xs ! j \<in> set xs" using Cons.prems(2) by simp
    then have "\<not> f x < f (xs ! j)" using Cons.prems(1) by (auto dest: less_asym)
    with Suc Cons show ?thesis by simp
  qed
qed simp

text \<open>
  A table with a moment for every row: the feed in full is its rows by moment and key,
  newest first.
\<close>

locale keyset_feed = sql_table clash pk
  for clash :: "'r \<Rightarrow> 'r \<Rightarrow> bool" and pk :: "'r \<Rightarrow> uuid" +
  fixes at :: "'r \<Rightarrow> time"
begin

definition feed :: "('r \<Rightarrow> bool) \<Rightarrow> 'r list \<Rightarrow> 'r list" where
  "feed w rs = rev (sort_key (\<lambda>r. (at r, pk r)) (filter w rs))"

lemma feed_strict:
  assumes "no_clash clash rs"
  shows "sorted_wrt (\<lambda>a b. (at b, pk b) < (at a, pk a)) (feed w rs)"
proof -
  let ?k = "\<lambda>r. (at r, pk r)"
  have "distinct (map pk (filter w rs))" using distinct_map_filter distinct_pk [OF assms] by blast
  then have "distinct (map ?k (sort_key ?k (filter w rs)))"
    by (auto simp: distinct_map inj_on_def)
  moreover have "sorted (map ?k (sort_key ?k (filter w rs)))" by simp
  ultimately have "sorted_wrt (<) (map ?k (sort_key ?k (filter w rs)))"
    using strict_sorted_iff by blast
  then show ?thesis by (simp add: feed_def sorted_wrt_rev sorted_wrt_map)
qed

text \<open>
  The walk: page after page along the cursors, the \<open>j\<close>-th page read from the table as it is
  then; \<open>None\<close> when a page is refused or the walk has not come to its end.
\<close>

fun walk :: "ext \<Rightarrow> ('r \<Rightarrow> bool) \<Rightarrow> 64 word option \<Rightarrow> nat \<Rightarrow> (nat \<Rightarrow> 'r list) \<Rightarrow> string option \<Rightarrow> 'r list option" where
  "walk P w lim 0 tb raw = None"
| "walk P w lim (Suc n) tb raw =
     (case feed_page P at pk w \<lparr>cp_limit = lim, cp_cursor = raw\<rparr> (tb 0) of
        Inl e \<Rightarrow> None
      | Inr (page, meta) \<Rightarrow>
          (case cm_next_cursor meta of
             None \<Rightarrow> Some page
           | Some c \<Rightarrow> map_option ((@) page) (walk P w lim n (\<lambda>j. tb (Suc j)) (Some c))))"

definition decodes :: "ext \<Rightarrow> 'r list \<Rightarrow> bool" where
  "decodes P rs \<longleftrightarrow> (\<forall>r\<in>set rs. cursor_decode P (cursor_encode P \<lparr>cu_created_at = at r, cu_id = pk r\<rparr>)
      = Some \<lparr>cu_created_at = at r, cu_id = pk r\<rparr>)"

lemma below_eq:
  assumes "no_clash clash rs0" "m < length (feed w rs0)"
    and "\<forall>n\<in>set new. \<forall>r\<in>set rs0. (at r, pk r) < (at n, pk n)"
  shows "rev (sort_key (\<lambda>r. (at r, pk r)) (filter (\<lambda>r. w r \<and>
      (at r, pk r) < (at (feed w rs0 ! m), pk (feed w rs0 ! m))) (rs0 @ new))) = drop (Suc m) (feed w rs0)"
proof -
  let ?k = "\<lambda>r. (at r, pk r)" and ?x = "feed w rs0 ! m"
  have "?x \<in> set rs0" using nth_mem [OF assms(2)] by (simp add: feed_def)
  then have "\<not> (w r \<and> ?k r < ?k ?x)" if "r \<in> set new" for r
    using assms(3) that less_asym [of "?k ?x" "?k r"] by blast
  then have none: "filter (\<lambda>r. w r \<and> ?k r < ?k ?x) new = []" unfolding filter_empty_conv by blast
  have "filter (\<lambda>r. ?k r < ?k ?x) (feed w rs0) = drop (Suc m) (feed w rs0)"
    using filter_below [OF feed_strict [OF assms(1)] assms(2)] by simp
  moreover have "filter (\<lambda>r. ?k r < ?k ?x) (feed w rs0)
      = rev (sort_key ?k (filter (\<lambda>r. ?k r < ?k ?x) (filter w rs0)))"
    by (simp only: feed_def rev_filter [symmetric] filter_sort)
  moreover have "filter (\<lambda>r. ?k r < ?k ?x) (filter w rs0) = filter (\<lambda>r. w r \<and> ?k r < ?k ?x) (rs0 @ new)"
    using none by (simp add: conj_commute)
  ultimately show ?thesis by simp
qed

lemma page_after:
  fixes lim :: "64 word option"
  assumes "decodes P rs0" "no_clash clash rs0" "m < length (feed w rs0)"
    and "\<forall>n\<in>set new. \<forall>r\<in>set rs0. (at r, pk r) < (at n, pk n)"
    and "x = feed w rs0 ! m"
  defines "l \<equiv> unat (cp_get_limit \<lparr>cp_limit = lim, cp_cursor = None\<rparr>)"
  shows "\<exists>meta. feed_page P at pk w \<lparr>cp_limit = lim, cp_cursor = Some (cursor_encode P \<lparr>cu_created_at = at x, cu_id = pk x\<rparr>)\<rparr>
       (rs0 @ new) = Inr (take l (drop (Suc m) (feed w rs0)), meta) \<and>
     cm_next_cursor meta = (if length (feed w rs0) - Suc m \<le> l then None
       else Some (cursor_encode P \<lparr>cu_created_at = at (feed w rs0 ! (m + l)), cu_id = pk (feed w rs0 ! (m + l))\<rparr>))"
proof -
  let ?L = "feed w rs0" and ?p = "\<lparr>cp_limit = lim, cp_cursor = Some (cursor_encode P \<lparr>cu_created_at = at x, cu_id = pk x\<rparr>)\<rparr>"
  have lim: "cp_get_limit ?p = cp_get_limit \<lparr>cp_limit = lim, cp_cursor = None\<rparr>" by (simp add: cp_get_limit_def)
  then have l: "unat (cp_get_limit ?p) = l" "1 \<le> l" using cp_limit_bounds [of ?p] by (simp_all add: l_def)
  have "x \<in> set rs0" using nth_mem [OF assms(3)] by (simp add: assms(5) feed_def)
  then have dec: "decode_cursor P (cp_cursor ?p) = Inr (Some \<lparr>cu_created_at = at x, cu_id = pk x\<rparr>)"
    using assms(1) by (simp add: decode_cursor_def decodes_def)
  have rows: "feed_rows at pk w (Some \<lparr>cu_created_at = at x, cu_id = pk x\<rparr>) n (rs0 @ new) = take n (drop (Suc m) ?L)" for n
    unfolding feed_rows_def after_cursor_def using below_eq [OF assms(2,3,4)] by (simp add: assms(5))
  let ?page = "take l (drop (Suc m) ?L)"
  have page: "take l (take (Suc l) (drop (Suc m) ?L)) = ?page" by (simp add: min_def)
  have nxt: "?page \<noteq> [] \<and> last ?page = ?L ! (m + l)" if "\<not> length ?L - Suc m \<le> l"
  proof -
    have len: "length ?page = l" using that by simp
    then have "?page \<noteq> []" using l(2) by auto
    moreover have "?page ! (l - 1) = ?L ! (m + l)" using that l(2) by simp
    ultimately show ?thesis using len by (simp add: last_conv_nth)
  qed
  have "feed_page P at pk w ?p (rs0 @ new) = Inr (?page, cursor_meta_from_page P (cp_get_limit ?p)
      (l < length ?L - Suc m)
      (if ?page = [] then None else Some \<lparr>cu_created_at = at (last ?page), cu_id = pk (last ?page)\<rparr>))"
    unfolding feed_page_def Let_def dec and_then.simps as_i64_cp_limit l(1) rows page by (simp add: min_def)
  then show ?thesis
    by (cases "length ?L - Suc m \<le> l") (use nxt in \<open>simp_all add: cursor_meta_from_page_def\<close>)
qed

lemma walk_after:
  assumes "decodes P rs0" "no_clash clash rs0"
    and "\<And>j. \<exists>new. tb j = rs0 @ new \<and> (\<forall>n\<in>set new. \<forall>r\<in>set rs0. (at r, pk r) < (at n, pk n))"
    and "m < length (feed w rs0)" "length (feed w rs0) - m \<le> n" "x = feed w rs0 ! m"
  shows "walk P w lim n tb (Some (cursor_encode P \<lparr>cu_created_at = at x, cu_id = pk x\<rparr>))
    = Some (drop (Suc m) (feed w rs0))"
  using assms(3-6)
proof (induction n arbitrary: m tb x)
  case 0
  then show ?case by simp
next
  case (Suc n)
  define l where "l = unat (cp_get_limit \<lparr>cp_limit = lim, cp_cursor = None\<rparr>)"
  have l: "1 \<le> l" using cp_limit_bounds by (simp add: l_def)
  obtain new where new: "tb 0 = rs0 @ new" "\<forall>n\<in>set new. \<forall>r\<in>set rs0. (at r, pk r) < (at n, pk n)"
    using Suc.prems(1) by blast
  obtain meta where pg: "feed_page P at pk w \<lparr>cp_limit = lim, cp_cursor = Some (cursor_encode P \<lparr>cu_created_at = at x, cu_id = pk x\<rparr>)\<rparr>
       (tb 0) = Inr (take l (drop (Suc m) (feed w rs0)), meta)"
     "cm_next_cursor meta = (if length (feed w rs0) - Suc m \<le> l then None
       else Some (cursor_encode P \<lparr>cu_created_at = at (feed w rs0 ! (m + l)), cu_id = pk (feed w rs0 ! (m + l))\<rparr>))"
    using page_after [OF assms(1,2) Suc.prems(2) new(2) Suc.prems(4), of lim] unfolding new(1) l_def [symmetric] by blast
  show ?case
  proof (cases "length (feed w rs0) - Suc m \<le> l")
    case True
    then show ?thesis using pg by simp
  next
    case False
    then have "m + l < length (feed w rs0)" "length (feed w rs0) - (m + l) \<le> n" using Suc.prems(3) l by linarith+
    from Suc.IH [OF _ this refl, of "\<lambda>j. tb (Suc j)"] Suc.prems(1)
    have "walk P w lim n (\<lambda>j. tb (Suc j)) (Some (cursor_encode P \<lparr>cu_created_at = at (feed w rs0 ! (m + l)), cu_id = pk (feed w rs0 ! (m + l))\<rparr>))
        = Some (drop (Suc (m + l)) (feed w rs0))" by simp
    moreover have "take l (drop (Suc m) (feed w rs0)) @ drop (Suc (m + l)) (feed w rs0) = drop (Suc m) (feed w rs0)"
      using append_take_drop_id [of l "drop (Suc m) (feed w rs0)"] by (simp add: add.commute)
    ultimately show ?thesis using pg False by simp
  qed
qed

text \<open>
  From the first page on, the walk gives exactly the feed as it was when the walk began,
  whatever newer rows arrive between its pages.
\<close>

lemma walk_feed:
  assumes "decodes P rs0" "no_clash clash rs0" "tb 0 = rs0"
    and "\<And>j. \<exists>new. tb j = rs0 @ new \<and> (\<forall>n\<in>set new. \<forall>r\<in>set rs0. (at r, pk r) < (at n, pk n))"
    and "length rs0 < n"
  shows "walk P w lim n tb None = Some (feed w rs0)"
proof -
  define l where "l = unat (cp_get_limit \<lparr>cp_limit = lim, cp_cursor = None\<rparr>)"
  have l: "1 \<le> l" using cp_limit_bounds by (simp add: l_def)
  let ?L = "feed w rs0"
  have len: "length ?L \<le> length rs0" by (simp add: feed_def)
  obtain k where n: "n = Suc k" "length rs0 \<le> k" using assms(5) by (cases n) auto
  have rows: "feed_rows at pk w None i rs0 = take i ?L" for i
    by (simp add: feed_rows_def after_cursor_def feed_def)
  let ?page = "take l ?L"
  have pg: "feed_page P at pk w \<lparr>cp_limit = lim, cp_cursor = None\<rparr> rs0 =
      Inr (?page, cursor_meta_from_page P (cp_get_limit \<lparr>cp_limit = lim, cp_cursor = None\<rparr>) (l < length ?L)
        (if ?page = [] then None else Some \<lparr>cu_created_at = at (last ?page), cu_id = pk (last ?page)\<rparr>))"
    unfolding feed_page_def Let_def by (simp add: decode_cursor_def as_i64_cp_limit rows l_def [symmetric] min_def)
  show ?thesis
  proof (cases "length ?L \<le> l")
    case True
    then show ?thesis using pg by (simp add: n assms(3) cursor_meta_from_page_def)
  next
    case False
    have "length ?page = l" using False by simp
    then have "?page \<noteq> []" using l by auto
    then have "last ?page = ?page ! (l - 1)" using \<open>length ?page = l\<close> by (simp add: last_conv_nth)
    also have "\<dots> = ?L ! (l - 1)" using l by simp
    finally have "last ?page = ?L ! (l - 1)" .
    moreover note \<open>?page \<noteq> []\<close>
    moreover have "walk P w lim k (\<lambda>j. tb (Suc j)) (Some (cursor_encode P \<lparr>cu_created_at = at (?L ! (l - 1)), cu_id = pk (?L ! (l - 1))\<rparr>))
        = Some (drop (Suc (l - 1)) ?L)"
      by (rule walk_after [OF assms(1,2)]) (use assms(4) False l len n in auto)
    ultimately show ?thesis using pg False l by (simp add: n assms(3) cursor_meta_from_page_def)
  qed
qed

end

interpretation notification_feed: keyset_feed notification_clash n_id n_created_at
  by unfold_locales
interpretation audit_feed: keyset_feed audit_clash l_id l_created_at
  by unfold_locales

section \<open>What a client sees\<close>

text \<open>
  A client that asks for page after page, passing on the \<open>next_cursor\<close> of the metadata, the
  \<open>j\<close>-th request answered by \<open>page j\<close>.
\<close>

fun follow ::
  "nat \<Rightarrow> (nat \<Rightarrow> cursor_params \<Rightarrow> 'r list api_response result) \<Rightarrow> 64 word option \<Rightarrow> string option
     \<Rightarrow> 'r list option" where
  "follow 0 page lim raw = None"
| "follow (Suc n) page lim raw =
     (case page 0 \<lparr>cp_limit = lim, cp_cursor = raw\<rparr> of
        Inl e \<Rightarrow> None
      | Inr r \<Rightarrow>
          (case json_index (unwrap_or (ar_meta r) JNull) ''next_cursor'' of
             JStr c \<Rightarrow> map_option ((@) (ar_data r)) (follow n (\<lambda>j. page (Suc j)) lim (Some c))
           | _ \<Rightarrow> Some (ar_data r)))"

lemma next_cursor_json:
  "map_of extra ''next_cursor'' = None \<Longrightarrow>
   json_index (JObj (cursor_meta_json meta @ extra)) ''next_cursor'' =
     (case cm_next_cursor meta of None \<Rightarrow> JNull | Some c \<Rightarrow> JStr c)"
  by (cases "cm_next_cursor meta"; cases "cm_previous_cursor meta")
    (auto simp: cursor_meta_json_def split: option.split)

context keyset_feed
begin

lemma follow_walk:
  assumes "\<And>j p. page j p = and_then (feed_page P at pk w p (tb j))
      (\<lambda>(pg, meta). Inr (api_with_meta pg (JObj (cursor_meta_json meta @ extra j))))"
    and "\<And>j. map_of (extra j) ''next_cursor'' = None"
  shows "follow n page lim raw = walk P w lim n tb raw"
  using assms
proof (induction n arbitrary: page tb extra raw)
  case (Suc n)
  have ih: "follow n (\<lambda>j. page (Suc j)) lim c = walk P w lim n (\<lambda>j. tb (Suc j)) c" for c
    by (rule Suc.IH [of _ _ "\<lambda>j. extra (Suc j)"]) (rule Suc.prems)+
  show ?case
  proof (cases "feed_page P at pk w \<lparr>cp_limit = lim, cp_cursor = raw\<rparr> (tb 0)")
    case (Inr r)
    obtain pg meta where r: "r = (pg, meta)" by (cases r)
    have "page 0 \<lparr>cp_limit = lim, cp_cursor = raw\<rparr> = Inr (api_with_meta pg (JObj (cursor_meta_json meta @ extra 0)))"
      by (simp add: Suc.prems(1) Inr r)
    then show ?thesis
      using next_cursor_json [OF Suc.prems(2) [of 0], of meta]
      by (simp add: Inr r api_with_meta_def ih split: option.split)
  qed (simp add: Suc.prems(1))
qed simp

end

definition representable :: "ext \<Rightarrow> time \<Rightarrow> bool" where
  "representable P t \<longleftrightarrow> chrono_min P \<le> t \<and> t \<le> chrono_max P"

definition cursors_ok :: "ext \<Rightarrow> bool" where
  "cursors_ok P \<longleftrightarrow> b64url_ok P \<and> uuid_ok P \<and> - (2 ^ 63) \<le> chrono_min P \<and> chrono_max P < 2 ^ 63"

lemma cursors_decode:
  "cursors_ok P \<Longrightarrow> representable P t \<Longrightarrow>
   cursor_decode P (cursor_encode P \<lparr>cu_created_at = t, cu_id = i\<rparr>) = Some \<lparr>cu_created_at = t, cu_id = i\<rparr>"
  using cursor_round_trip [of P "\<lparr>cu_created_at = t, cu_id = i\<rparr>"] by (simp add: cursors_ok_def representable_def)

text \<open>
  C33. Nothing of the audit trail is lost or repeated by paging: an administrator who follows
  the cursors from the first page on, at any page size, receives exactly the entries that
  match the filter and were there at the start, newest first, even though new entries are
  written between the pages.
\<close>

theorem audit_pages_cover_trail:
  assumes "cursors_ok P" "admin_require_scope admin AuditRead = Inr ()"
    and "no_clash audit_clash (audit_logs (st 0))" "\<forall>l\<in>set (audit_logs (st 0)). representable P (l_created_at l)"
    and "\<forall>j. \<exists>new. audit_logs (st j) = audit_logs (st 0) @ new \<and>
           (\<forall>n\<in>set new. \<forall>l\<in>set (audit_logs (st 0)). l_created_at l < l_created_at n)"
  shows "follow (Suc (length (audit_logs (st 0)))) (\<lambda>j p. list_audit_logs P admin p f (st j)) lim None =
    Some (rev (sort_key (\<lambda>l. (l_created_at l, l_id l)) (filter (audit_matches f) (audit_logs (st 0)))))"
proof -
  have "audit_feed.walk P (audit_matches f) lim (Suc (length (audit_logs (st 0)))) (\<lambda>j. audit_logs (st j)) None =
      Some (audit_feed.feed (audit_matches f) (audit_logs (st 0)))"
  proof (rule audit_feed.walk_feed)
    show "audit_feed.decodes P (audit_logs (st 0))"
      unfolding audit_feed.decodes_def using assms(1,4) by (blast intro: cursors_decode)
    show "\<exists>new. audit_logs (st j) = audit_logs (st 0) @ new \<and>
        (\<forall>n\<in>set new. \<forall>r\<in>set (audit_logs (st 0)). (l_created_at r, l_id r) < (l_created_at n, l_id n))" for j
      using assms(5) by (auto simp: less_prod_simp) metis
  qed (use assms in simp_all)
  moreover have "follow n (\<lambda>j p. list_audit_logs P admin p f (st j)) lim None =
      audit_feed.walk P (audit_matches f) lim n (\<lambda>j. audit_logs (st j)) None" for n
    by (rule audit_feed.follow_walk [where extra = "\<lambda>_. []"]) (simp_all add: list_audit_logs_def assms(2))
  ultimately show ?thesis by (simp only: audit_feed.feed_def)
qed

text \<open>
  The same holds of a user's notifications, of all or of one organization the user
  belongs to; the pages hold nobody else's.
\<close>

theorem notification_pages_cover_feed:
  assumes "cursors_ok P" "require_scope au NotificationsRead = Inr ()"
    and "\<forall>j g. org = Some g \<longrightarrow> is_ok (require_membership g (au_id au) (st j))"
    and "no_clash notification_clash (notifications (st 0))"
    and "\<forall>n\<in>set (notifications (st 0)). representable P (n_created_at n)"
    and "\<forall>j. \<exists>new. notifications (st j) = notifications (st 0) @ new \<and>
           (\<forall>n\<in>set new. \<forall>m\<in>set (notifications (st 0)). n_created_at m < n_created_at n)"
  shows "follow (Suc (length (notifications (st 0)))) (\<lambda>j p. list_notifications P au p org (st j)) lim None =
    Some (rev (sort_key (\<lambda>n. (n_created_at n, n_id n)) (filter (my_notification (au_id au) org) (notifications (st 0)))))"
proof -
  let ?w = "my_notification (au_id au) org"
  let ?extra = "\<lambda>j. [(''unread_count'', JNum (int (sql_count (\<lambda>n. ?w n \<and> \<not> n_read n) (notifications (st j)))))]"
  have "notification_feed.walk P ?w lim (Suc (length (notifications (st 0)))) (\<lambda>j. notifications (st j)) None =
      Some (notification_feed.feed ?w (notifications (st 0)))"
  proof (rule notification_feed.walk_feed)
    show "notification_feed.decodes P (notifications (st 0))"
      unfolding notification_feed.decodes_def using assms(1,5) by (blast intro: cursors_decode)
    show "\<exists>new. notifications (st j) = notifications (st 0) @ new \<and>
        (\<forall>n\<in>set new. \<forall>r\<in>set (notifications (st 0)). (n_created_at r, n_id r) < (n_created_at n, n_id n))" for j
      using assms(6) by (auto simp: less_prod_simp) metis
  qed (use assms in simp_all)
  moreover have "follow n (\<lambda>j p. list_notifications P au p org (st j)) lim None =
      notification_feed.walk P ?w lim n (\<lambda>j. notifications (st j)) None" for n
  proof (rule notification_feed.follow_walk [where extra = ?extra])
    fix j p
    have "(case org of None \<Rightarrow> Inr () | Some g \<Rightarrow> and_then (require_membership g (au_id au) (st j)) (\<lambda>_. Inr ())) = (Inr () :: unit result)"
    proof (cases org)
      case (Some g)
      then obtain r where "require_membership g (au_id au) (st j) = Inr r" using assms(3) by (auto simp: is_ok_iff)
      with Some show ?thesis by simp
    qed simp
    then show "list_notifications P au p org (st j) = and_then (feed_page P n_created_at n_id ?w p (notifications (st j)))
        (\<lambda>(pg, meta). Inr (api_with_meta pg (JObj (cursor_meta_json meta @ ?extra j))))"
      by (simp add: list_notifications_def assms(2) Let_def)
  qed simp
  ultimately show ?thesis by (simp only: notification_feed.feed_def)
qed

section \<open>Concrete feeds\<close>

definition sample_log :: "nat \<Rightarrow> audit_row" where
  "sample_log i = \<lparr>l_id = i, l_user_id = None, l_action = ''a'', l_resource = ''r'', l_resource_id = None,
     l_ip_address = None, l_user_agent = None, l_metadata = None, l_created_at = int i\<rparr>"

definition growing_trail :: "nat \<Rightarrow> store" where
  "growing_trail j = empty_store\<lparr>audit_logs := map sample_log [1, 2, 3] @ map sample_log [4..<4 + j]\<rparr>"

definition auditor :: admin_user where
  "auditor = \<lparr>ad_id = 1, ad_email = ''root@example.com'', ad_credential = Session 9\<rparr>"

lemma toy_cursors: "cursors_ok toy_ext"
  using toy_ext_laws(1) toy_uuid_ok by (simp add: cursors_ok_def) (simp add: toy_ext_def)

theorem audit_pages_cover_trail_witness:
  "follow 4 (\<lambda>j p. list_audit_logs toy_ext auditor p \<lparr>af_user_id = None, af_action = None\<rparr> (growing_trail j)) (Some 2) None =
    Some [sample_log 3, sample_log 2, sample_log 1]"
proof -
  have logs: "audit_logs (growing_trail 0) = [sample_log 1, sample_log 2, sample_log 3]"
    by (simp add: growing_trail_def)
  have grow: "\<exists>new. audit_logs (growing_trail j) = audit_logs (growing_trail 0) @ new \<and>
      (\<forall>n\<in>set new. \<forall>l\<in>set (audit_logs (growing_trail 0)). l_created_at l < l_created_at n)" for j
    by (intro exI [of _ "map sample_log [4..<4 + j]"]) (auto simp: growing_trail_def sample_log_def)
  have "audit_matches \<lparr>af_user_id = None, af_action = None\<rparr> (sample_log i)" for i by (simp add: audit_matches_def)
  then have "rev (sort_key (\<lambda>l. (l_created_at l, l_id l)) (filter (audit_matches \<lparr>af_user_id = None, af_action = None\<rparr>) (audit_logs (growing_trail 0))))
      = [sample_log 3, sample_log 2, sample_log 1]"
    by (simp add: logs) (simp add: sample_log_def less_prod_simp)
  moreover have "follow (Suc (length (audit_logs (growing_trail 0)))) (\<lambda>j p. list_audit_logs toy_ext auditor p \<lparr>af_user_id = None, af_action = None\<rparr> (growing_trail j)) (Some 2) None =
    Some (rev (sort_key (\<lambda>l. (l_created_at l, l_id l)) (filter (audit_matches \<lparr>af_user_id = None, af_action = None\<rparr>) (audit_logs (growing_trail 0)))))"
  proof (rule audit_pages_cover_trail)
    show "\<forall>l\<in>set (audit_logs (growing_trail 0)). representable toy_ext (l_created_at l)"
      by (simp add: logs) (simp add: sample_log_def representable_def toy_ext_def)
    show "no_clash audit_clash (audit_logs (growing_trail 0))"
      by (simp add: logs no_clash_def) (simp add: sample_log_def audit_clash_def)
  qed (use toy_cursors grow in \<open>auto simp: admin_require_scope_def auditor_def\<close>)
  moreover have "Suc (length (audit_logs (growing_trail 0))) = 4" by (simp add: logs)
  ultimately show ?thesis by (simp only:)
qed

definition sample_notification :: "nat \<Rightarrow> uuid \<Rightarrow> notification_row" where
  "sample_notification i u = \<lparr>n_id = i, n_user_id = u, n_org_id = None, n_title = ''t'', n_body = ''b'', n_read = False,
     n_data = None, n_created_at = int i\<rparr>"

theorem notification_pages_cover_feed_witness:
  "follow 4 (\<lambda>j p. list_notifications toy_ext \<lparr>au_id = 1, au_email = [], au_role = ''user'', au_email_verified = True,
      au_credential = Session 9\<rparr> p None
      (empty_store\<lparr>notifications := [sample_notification 1 1, sample_notification 2 7, sample_notification 3 1]\<rparr>)) (Some 1) None =
    Some [sample_notification 3 1, sample_notification 1 1]"
proof -
  let ?au = "\<lparr>au_id = 1, au_email = [], au_role = ''user'', au_email_verified = True, au_credential = Session 9\<rparr>"
  let ?st = "empty_store\<lparr>notifications := [sample_notification 1 1, sample_notification 2 7, sample_notification 3 1]\<rparr>"
  have "rev (sort_key (\<lambda>n. (n_created_at n, n_id n)) (filter (my_notification (au_id ?au) None) (notifications ?st)))
      = [sample_notification 3 1, sample_notification 1 1]"
    by (simp add: my_notification_def sample_notification_def less_prod_simp)
  moreover have "follow (Suc (length (notifications ?st))) (\<lambda>j p. list_notifications toy_ext ?au p None ?st) (Some 1) None =
    Some (rev (sort_key (\<lambda>n. (n_created_at n, n_id n)) (filter (my_notification (au_id ?au) None) (notifications ?st))))"
    by (rule notification_pages_cover_feed [where st = "\<lambda>_. ?st"])
      (use toy_cursors in \<open>auto simp: require_scope_def representable_def toy_ext_def sample_notification_def
         no_clash_def notification_clash_def\<close>)
  moreover have "Suc (length (notifications ?st)) = 4" by simp
  ultimately show ?thesis by (simp only:)
qed

end
