(* ===== verification/Account_Routes.thy ===== *)
theory Account_Routes
  imports OAuth Extractors
begin

text \<open>
  The HTTP handlers of accounts: \<open>src/routes/v1/auth.rs\<close> and \<open>src/routes/v1/users.rs\<close>, with
  the validation rules of \<open>src/models/user.rs\<close>.  A handler gets what its extractors made of the
  request (the caller, the client's address and agent, the parsed body).  The checks for
  e-mail addresses and URLs and the text of failed rules come from the validation crate and
  are parameters.
\<close>

section \<open>Validation\<close>

record validators =
  is_email :: "string \<Rightarrow> bool"
  is_url :: "string \<Rightarrow> bool"
  errors_message :: "(string \<times> string) list \<Rightarrow> string"

definition validated :: "validators \<Rightarrow> (string \<times> string) list \<Rightarrow> unit result" where
  "validated V errs = (if errs \<noteq> [] then Inl (ValidationError (errors_message V errs)) else Inr ())"

definition strength_errors :: "string \<Rightarrow> string \<Rightarrow> (string \<times> string) list" where
  "strength_errors field password =
     (case validate_password_strength password of
        Inl (code, message) \<Rightarrow> [(field, message)]
      | Inr _ \<Rightarrow> [])"

definition opt_check :: "('a \<Rightarrow> (string \<times> string) list) \<Rightarrow> 'a option \<Rightarrow> (string \<times> string) list" where
  "opt_check f x = (case x of None \<Rightarrow> [] | Some v \<Rightarrow> f v)"

definition name_errors :: "string \<Rightarrow> (string \<times> string) list" where
  "name_errors n = check_field ''name'' ''Name must be between 2 and 100 characters'' (length_between 2 100 n)"

definition image_errors :: "validators \<Rightarrow> string \<Rightarrow> (string \<times> string) list" where
  "image_errors V u = check_field ''image'' ''Image must be a valid URL'' (is_url V u)
     @ check_field ''image'' [] (length_between 0 512 u)"

definition email_errors :: "validators \<Rightarrow> string \<Rightarrow> (string \<times> string) list" where
  "email_errors V e = check_field ''email'' ''Invalid email format'' (is_email V e)"

definition validate_sign_up :: "validators \<Rightarrow> sign_up_request \<Rightarrow> (string \<times> string) list" where
  "validate_sign_up V r =
     name_errors (su_name r) @ email_errors V (su_email r)
     @ check_field ''email'' [] (length_between 0 254 (su_email r))
     @ strength_errors ''password'' (su_password r) @ opt_check (image_errors V) (su_image r)"

definition validate_sign_in :: "validators \<Rightarrow> sign_in_request \<Rightarrow> (string \<times> string) list" where
  "validate_sign_in V r = email_errors V (si_email r)"

definition validate_update_user :: "validators \<Rightarrow> update_user_request \<Rightarrow> (string \<times> string) list" where
  "validate_update_user V r = opt_check name_errors (uu_name r) @ opt_check (image_errors V) (uu_image r)"

record reset_password_request =
  rp_token :: string
  rp_new_password :: string

record change_password_request =
  cp_current_password :: string
  cp_new_password :: string

definition validate_reset_password :: "reset_password_request \<Rightarrow> (string \<times> string) list" where
  "validate_reset_password r = strength_errors ''new_password'' (rp_new_password r)"

definition validate_change_password :: "change_password_request \<Rightarrow> (string \<times> string) list" where
  "validate_change_password r = strength_errors ''new_password'' (cp_new_password r)"

section \<open>Answers\<close>

text \<open>What a handler wraps a service's answer in.\<close>

definition reply :: "'a result \<times> 's \<Rightarrow> 'a api_response result \<times> 's" where
  "reply r = (map_sum id api_success (fst r), snd r)"

definition reply_created :: "'a result \<times> 's \<Rightarrow> (nat \<times> 'a api_response) result \<times> 's" where
  "reply_created r = (map_sum id (\<lambda>x. (201, api_success x)) (fst r), snd r)"

text \<open>An early return leaves the state alone.\<close>

definition guarded :: "unit result \<Rightarrow> ('s \<Rightarrow> 'a result \<times> 's) \<Rightarrow> 's \<Rightarrow> 'a result \<times> 's" where
  "guarded g h st = (case g of Inl e \<Rightarrow> (Inl e, st) | Inr _ \<Rightarrow> h st)"

section \<open>\<open>/auth\<close>\<close>

definition sign_up_route ::
  "validators \<Rightarrow> ext \<Rightarrow> app_config \<Rightarrow> call \<Rightarrow> request_context \<Rightarrow> sign_up_request \<Rightarrow> store
     \<Rightarrow> (nat \<times> auth_response api_response) result \<times> store" where
  "sign_up_route V P cfg k ctx payload =
     guarded (validated V (validate_sign_up V payload))
       (\<lambda>st. reply_created (sign_up_email P cfg k payload ctx st))"

definition sign_in_route ::
  "validators \<Rightarrow> ext \<Rightarrow> app_config \<Rightarrow> call \<Rightarrow> request_context \<Rightarrow> sign_in_request \<Rightarrow> store
     \<Rightarrow> auth_response api_response result \<times> store" where
  "sign_in_route V P cfg k ctx payload =
     guarded (validated V (validate_sign_in V payload))
       (\<lambda>st. reply (sign_in_email P cfg k payload ctx st))"

definition refresh_route ::
  "ext \<Rightarrow> app_config \<Rightarrow> call \<Rightarrow> request_context \<Rightarrow> string \<Rightarrow> store
     \<Rightarrow> auth_response api_response result \<times> store" where
  "refresh_route P cfg k ctx token st = reply (refresh_session P cfg k token ctx st)"

definition sign_out_route ::
  "ext \<Rightarrow> call \<Rightarrow> session_caller \<Rightarrow> request_context \<Rightarrow> store \<Rightarrow> string api_response result \<times> store" where
  "sign_out_route P k sc ctx st = reply (sign_out P k (sc_id sc) (sc_session_id sc) ctx st)"

definition sign_out_all_route ::
  "call \<Rightarrow> session_caller \<Rightarrow> request_context \<Rightarrow> store \<Rightarrow> string api_response result \<times> store" where
  "sign_out_all_route k sc ctx st = reply (sign_out_all k (sc_id sc) ctx st)"

definition verify_email_route ::
  "ext \<Rightarrow> call \<Rightarrow> request_context \<Rightarrow> string \<Rightarrow> store \<Rightarrow> string api_response result \<times> store" where
  "verify_email_route P k ctx token st = reply (verify_email P k token ctx st)"

definition forget_password_route ::
  "validators \<Rightarrow> ext \<Rightarrow> app_config \<Rightarrow> call \<Rightarrow> string \<Rightarrow> store \<Rightarrow> string api_response result \<times> store" where
  "forget_password_route V P cfg k email =
     guarded (validated V (email_errors V email)) (\<lambda>st. reply (forget_password P cfg k email st))"

definition reset_password_route ::
  "validators \<Rightarrow> ext \<Rightarrow> app_config \<Rightarrow> call \<Rightarrow> request_context \<Rightarrow> reset_password_request \<Rightarrow> store
     \<Rightarrow> string api_response result \<times> store" where
  "reset_password_route V P cfg k ctx payload =
     guarded (validated V (validate_reset_password payload))
       (\<lambda>st. reply (reset_password P cfg k (rp_token payload) (rp_new_password payload) ctx st))"

definition load_user :: "uuid \<Rightarrow> store \<Rightarrow> user_response result" where
  "load_user user_id st =
     and_then (ok_or (NotFound ''User not found'') (live_user_by_id user_id st))
       (\<lambda>u. Inr (user_response_of (user_of_row u)))"

definition get_session_route :: "auth_user \<Rightarrow> store \<Rightarrow> user_response api_response result" where
  "get_session_route au st = and_then (load_user (au_id au) st) (\<lambda>u. Inr (api_success u))"

definition auth_update_user ::
  "validators \<Rightarrow> call \<Rightarrow> auth_user \<Rightarrow> update_user_request \<Rightarrow> store
     \<Rightarrow> user_response api_response result \<times> store" where
  "auth_update_user V k au payload =
     guarded (validated V (validate_update_user V payload))
       (\<lambda>st. reply (update_profile k (au_id au) payload st))"

definition auth_change_password ::
  "validators \<Rightarrow> ext \<Rightarrow> app_config \<Rightarrow> call \<Rightarrow> session_caller \<Rightarrow> request_context \<Rightarrow> change_password_request
     \<Rightarrow> store \<Rightarrow> string api_response result \<times> store" where
  "auth_change_password V P cfg k sc ctx payload =
     guarded (validated V (validate_change_password payload))
       (\<lambda>st. reply (change_password P cfg k (sc_id sc) (sc_session_id sc) (cp_current_password payload)
                (cp_new_password payload) ctx st))"

definition auth_delete_user ::
  "ext \<Rightarrow> call \<Rightarrow> session_caller \<Rightarrow> request_context \<Rightarrow> store \<Rightarrow> string api_response result \<times> store" where
  "auth_delete_user P k sc ctx st = reply (delete_account P k (sc_id sc) ctx st)"

definition google_auth ::
  "ext \<Rightarrow> oauth_web \<Rightarrow> app_config \<Rightarrow> call \<Rightarrow> store \<Rightarrow> oauth_url_response api_response result \<times> store" where
  "google_auth P W cfg k st = reply (get_google_auth_url P W cfg k st)"

definition github_auth ::
  "ext \<Rightarrow> oauth_web \<Rightarrow> app_config \<Rightarrow> call \<Rightarrow> store \<Rightarrow> oauth_url_response api_response result \<times> store" where
  "github_auth P W cfg k st = reply (get_github_auth_url P W cfg k st)"

record oauth_callback_query =
  oq_code :: string
  oq_state :: string

definition google_callback ::
  "ext \<Rightarrow> oauth_web \<Rightarrow> app_config \<Rightarrow> call \<Rightarrow> request_context \<Rightarrow> oauth_callback_query \<Rightarrow> store
     \<Rightarrow> auth_response api_response result \<times> store" where
  "google_callback P W cfg k ctx q st = reply (handle_google_callback P W cfg k (oq_code q) (oq_state q) ctx st)"

definition github_callback ::
  "ext \<Rightarrow> oauth_web \<Rightarrow> app_config \<Rightarrow> call \<Rightarrow> request_context \<Rightarrow> oauth_callback_query \<Rightarrow> store
     \<Rightarrow> auth_response api_response result \<times> store" where
  "github_callback P W cfg k ctx q st = reply (handle_github_callback P W cfg k (oq_code q) (oq_state q) ctx st)"

section \<open>\<open>/users\<close>\<close>

definition get_me :: "auth_user \<Rightarrow> store \<Rightarrow> user_response api_response result" where
  "get_me au st =
     and_then (require_scope au UsersRead) (\<lambda>_.
     and_then (load_user (au_id au) st) (\<lambda>u. Inr (api_success u)))"

definition update_me ::
  "validators \<Rightarrow> call \<Rightarrow> auth_user \<Rightarrow> update_user_request \<Rightarrow> store
     \<Rightarrow> user_response api_response result \<times> store" where
  "update_me V k au payload =
     guarded (require_scope au UsersWrite)
       (guarded (validated V (validate_update_user V payload))
         (\<lambda>st. reply (update_profile k (au_id au) payload st)))"

definition users_change_password ::
  "validators \<Rightarrow> ext \<Rightarrow> app_config \<Rightarrow> call \<Rightarrow> session_caller \<Rightarrow> request_context \<Rightarrow> change_password_request
     \<Rightarrow> store \<Rightarrow> string api_response result \<times> store" where
  "users_change_password V P cfg k sc ctx payload =
     guarded (validated V (validate_change_password payload))
       (\<lambda>st. reply (change_password P cfg k (sc_id sc) (sc_session_id sc) (cp_current_password payload)
                (cp_new_password payload) ctx st))"

definition delete_me ::
  "ext \<Rightarrow> call \<Rightarrow> session_caller \<Rightarrow> request_context \<Rightarrow> store \<Rightarrow> string api_response result \<times> store" where
  "delete_me P k sc ctx st = reply (delete_account P k (sc_id sc) ctx st)"

text \<open>\<open>serde_json::to_value(PageMeta)\<close>.\<close>

definition page_meta_json :: "page_meta \<Rightarrow> json" where
  "page_meta_json m =
     JObj [(''page'', JNum (uint (pm_page m))), (''page_size'', JNum (uint (pm_page_size m))),
           (''total_pages'', JNum (uint (pm_total_pages m))), (''total_count'', JNum (uint (pm_total_count m))),
           (''has_next'', JBool (pm_has_next m)), (''has_previous'', JBool (pm_has_previous m))]"

text \<open>The answer of a page-number listing.\<close>

definition page_reply :: "('a \<Rightarrow> 'b) \<Rightarrow> page_params \<Rightarrow> ('a list \<times> 64 word) result \<Rightarrow> 'b list api_response result" where
  "page_reply f params r =
     and_then r (\<lambda>(rows, cnt).
       Inr (api_with_meta (map f rows)
              (page_meta_json (page_meta_new (pp_get_page params) (pp_get_page_size params) cnt))))"

text \<open>The caller passed the admin extractor; nothing else of it is used.\<close>

definition list_users :: "admin_user \<Rightarrow> page_params \<Rightarrow> store \<Rightarrow> user_response list api_response result" where
  "list_users admin params st =
     page_reply (\<lambda>u. user_response_of (user_of_row u)) params
       (sql_page (\<lambda>u. u_deleted_at u = None) u_created_at params (users st))"

section \<open>Facts\<close>

lemma reply_simps [simp]:
  "snd (reply r) = snd r" "snd (reply_created r) = snd r"
  "fst (reply r) = Inl e \<longleftrightarrow> fst r = Inl e" "fst (reply_created r) = Inl e \<longleftrightarrow> fst r = Inl e"
  by (cases "fst r"; auto simp: reply_def reply_created_def)+

lemma snd_guarded: "snd (guarded g h st) = (if is_ok g then snd (h st) else st)"
  by (cases g) (simp_all add: guarded_def)

lemma guarded_step: "(\<And>u. g = Inr u \<Longrightarrow> Q (snd (h st))) \<Longrightarrow> Q st \<Longrightarrow> Q (snd (guarded g h st))"
  by (cases g) (simp_all add: guarded_def)

lemma strength_errors_Nil: "strength_errors f p = [] \<longleftrightarrow> validate_password_strength p = Inr ()"
  by (auto simp: strength_errors_def split: sum.split prod.split)

end
