(* ===== verification/Tenant_Routes.thy ===== *)
theory Tenant_Routes
  imports Account_Routes Webhooks
begin

text \<open>
  The HTTP handlers of applications and organizations (\<open>src/routes/v1/apps.rs\<close>), API keys
  (\<open>src/routes/v1/api_key.rs\<close>) and webhooks (\<open>src/routes/v1/webhooks.rs\<close>), on what their
  extractors made of the request.
\<close>

section \<open>\<open>/apps\<close>\<close>

definition create_app_route ::
  "validators \<Rightarrow> ext \<Rightarrow> call \<Rightarrow> auth_user \<Rightarrow> request_context \<Rightarrow> create_app_request \<Rightarrow> store
     \<Rightarrow> (nat \<times> app_row api_response) result \<times> store" where
  "create_app_route V P k au ctx payload =
     guarded (validated V (validate_create_app payload))
       (guarded (require_scope au AppsWrite)
         (\<lambda>st. reply_created (create_app P k (au_id au) payload ctx st)))"

definition list_apps :: "auth_user \<Rightarrow> page_params \<Rightarrow> store \<Rightarrow> app_row list api_response result" where
  "list_apps au params st = page_reply id params (list_user_apps (au_id au) params st)"

text \<open>The handler takes the application of the header; the one named in the path is not read.\<close>

definition get_app_details ::
  "ext \<Rightarrow> request \<Rightarrow> auth_user result \<Rightarrow> store \<Rightarrow> app_row api_response result" where
  "get_app_details P rq r st =
     and_then (app_context_of P rq r st) (\<lambda>ctx.
     and_then (ok_or (DatabaseError NotDatabase) (find (\<lambda>a. ap_id a = ac_app_id ctx) (apps st))) (\<lambda>app.
       Inr (api_success app)))"

definition create_org_route ::
  "validators \<Rightarrow> ext \<Rightarrow> call \<Rightarrow> uuid \<Rightarrow> auth_user \<Rightarrow> request_context \<Rightarrow> create_org_request \<Rightarrow> store
     \<Rightarrow> (nat \<times> org_row api_response) result \<times> store" where
  "create_org_route V P k app_id au ctx payload =
     guarded (validated V (validate_create_org payload))
       (guarded (require_scope au OrgsWrite)
         (\<lambda>st. reply_created (create_org P k app_id (au_id au) payload ctx st)))"

definition list_orgs ::
  "ext \<Rightarrow> uuid \<Rightarrow> auth_user \<Rightarrow> page_params \<Rightarrow> store \<Rightarrow> org_row list api_response result" where
  "list_orgs P app_id au params st = page_reply id params (list_app_orgs P app_id (au_id au) params st)"

text \<open>The request of \<open>add_member\<close> has no validation rules.\<close>

definition add_org_member ::
  "ext \<Rightarrow> call \<Rightarrow> uuid \<Rightarrow> auth_user \<Rightarrow> request_context \<Rightarrow> add_org_member_request \<Rightarrow> store
     \<Rightarrow> (nat \<times> member_row api_response) result \<times> store" where
  "add_org_member P k org_id au ctx payload =
     guarded (require_scope au OrgsWrite)
       (\<lambda>st. reply_created (add_member P k org_id (au_id au) payload ctx st))"

section \<open>\<open>/api-keys\<close>\<close>

text \<open>\<open>None\<close> where the service panics.\<close>

definition create_api_key_route ::
  "validators \<Rightarrow> ext \<Rightarrow> call \<Rightarrow> session_caller \<Rightarrow> request_context \<Rightarrow> create_api_key_request \<Rightarrow> store
     \<Rightarrow> ((nat \<times> create_api_key_response api_response) result \<times> store) option" where
  "create_api_key_route V P k sc ctx payload st =
     (case validated V (validate_create_api_key payload) of
        Inl e \<Rightarrow> Some (Inl e, st)
      | Inr _ \<Rightarrow> map_option reply_created (create_key P k (sc_id sc) payload ctx st))"

definition list_api_keys :: "session_caller \<Rightarrow> page_params \<Rightarrow> store \<Rightarrow> api_key_row list api_response result" where
  "list_api_keys sc params st = page_reply id params (list_keys (sc_id sc) params st)"

definition delete_api_key ::
  "ext \<Rightarrow> call \<Rightarrow> uuid \<Rightarrow> session_caller \<Rightarrow> request_context \<Rightarrow> store \<Rightarrow> string api_response result \<times> store" where
  "delete_api_key P k key_id sc ctx st =
     reply (case delete_key P k key_id (sc_id sc) ctx st of
              (Inl e, st') \<Rightarrow> (Inl e, st')
            | (Inr _, st') \<Rightarrow> (Inr ''API key revoked successfully'', st'))"

section \<open>\<open>/webhooks\<close>\<close>

definition create_webhook_route ::
  "validators \<Rightarrow> call \<Rightarrow> auth_user \<Rightarrow> create_webhook_request \<Rightarrow> store
     \<Rightarrow> (nat \<times> create_webhook_response api_response) result \<times> store" where
  "create_webhook_route V k au payload =
     guarded (validated V (validate_create_webhook (is_url V) payload))
       (\<lambda>st. reply_created (create_webhook k (au_id au) payload st))"

record list_webhook_query =
  lq_app_id :: "uuid option"
  lq_org_id :: "uuid option"

definition list_webhooks_route :: "auth_user \<Rightarrow> list_webhook_query \<Rightarrow> store \<Rightarrow> webhook_row list api_response result" where
  "list_webhooks_route au q st = Inr (api_success (list_webhooks (au_id au) (lq_app_id q) (lq_org_id q) st))"

definition delete_webhook_route :: "auth_user \<Rightarrow> uuid \<Rightarrow> store \<Rightarrow> string api_response result \<times> store" where
  "delete_webhook_route au i st =
     reply (case delete_webhook i (au_id au) st of
              (Inl e, st') \<Rightarrow> (Inl e, st')
            | (Inr _, st') \<Rightarrow> (Inr ''Webhook deleted successfully'', st'))"

definition list_deliveries_route :: "auth_user \<Rightarrow> uuid \<Rightarrow> store \<Rightarrow> delivery_row list api_response result" where
  "list_deliveries_route au i st = and_then (list_deliveries i (au_id au) st) (\<lambda>ds. Inr (api_success ds))"

section \<open>Facts\<close>

lemma app_context_ok:
  "app_context_of P rq r st = Inr ctx \<Longrightarrow> \<exists>au raw app. r = Inr au \<and> header_str ''x-application-id'' rq = Some raw \<and>
     uuid_parse P raw = Some (ac_app_id ctx) \<and> find (\<lambda>a. ap_id a = ac_app_id ctx) (apps st) = Some app \<and>
     (ap_owner_id app = au_id au \<or> is_admin au \<or> app_member (ac_app_id ctx) (au_id au) st)"
proof -
  assume "app_context_of P rq r st = Inr ctx"
  then obtain au raw i app where a: "r = Inr au" "header_str ''x-application-id'' rq = Some raw" "uuid_parse P raw = Some i"
    "find (\<lambda>a. ap_id a = i) (apps st) = Some app" "ac_app_id ctx = ap_id app"
    "ap_owner_id app = au_id au \<or> is_admin au \<or> app_member i (au_id au) st"
    by (auto simp: app_context_of_def and_then_Inr Let_def split: if_splits)
  moreover have "ac_app_id ctx = i" using find_Some_mem [OF a(4)] a(5) by simp
  ultimately show ?thesis by auto
qed

lemma app_context_granted:
  "header_str ''x-application-id'' rq = Some raw \<Longrightarrow> uuid_parse P raw = Some i \<Longrightarrow>
   find (\<lambda>a. ap_id a = i) (apps st) = Some app \<Longrightarrow>
   ap_owner_id app = au_id au \<or> is_admin au \<or> app_member i (au_id au) st \<Longrightarrow>
   \<exists>ctx. app_context_of P rq (Inr au) st = Inr ctx \<and> ac_app_id ctx = i"
  by (auto simp: app_context_of_def Let_def dest: find_Some_mem)

text \<open>
  \<open>GET /apps/{app_id}\<close> answers with the application its header names, to the owner, an
  administrator or a member of one of its organizations and to nobody else; the application
  named in the path has no influence.
\<close>

theorem app_details_follow_the_header:
  assumes "no_clash app_clash (apps st)"
  shows "(get_app_details P rq r st = Inr resp \<longleftrightarrow>
      (\<exists>au raw app. r = Inr au \<and> header_str ''x-application-id'' rq = Some raw \<and> uuid_parse P raw = Some (ap_id app) \<and>
         app \<in> set (apps st) \<and> (ap_owner_id app = au_id au \<or> is_admin au \<or> app_member (ap_id app) (au_id au) st) \<and>
         resp = api_success app)) \<and>
    get_app_details P (rq\<lparr>rq_path := other\<rparr>) r st = get_app_details P rq r st"
proof
  have found: "find (\<lambda>a. ap_id a = i) (apps st) = Some app \<longleftrightarrow> app \<in> set (apps st) \<and> ap_id app = i" for i app
    using apps.find_pk [OF assms] by (auto dest: find_Some_mem)
  show "get_app_details P rq r st = Inr resp \<longleftrightarrow>
      (\<exists>au raw app. r = Inr au \<and> header_str ''x-application-id'' rq = Some raw \<and> uuid_parse P raw = Some (ap_id app) \<and>
         app \<in> set (apps st) \<and> (ap_owner_id app = au_id au \<or> is_admin au \<or> app_member (ap_id app) (au_id au) st) \<and>
         resp = api_success app)"
    (is "?l = ?r")
  proof
    assume ?l
    then obtain ctx app where c: "app_context_of P rq r st = Inr ctx" "find (\<lambda>a. ap_id a = ac_app_id ctx) (apps st) = Some app"
      "resp = api_success app" by (auto simp: get_app_details_def and_then_Inr)
    obtain au raw where "r = Inr au" "header_str ''x-application-id'' rq = Some raw" "uuid_parse P raw = Some (ac_app_id ctx)"
      "ap_owner_id app = au_id au \<or> is_admin au \<or> app_member (ac_app_id ctx) (au_id au) st"
      using app_context_ok [OF c(1)] c(2) by auto
    moreover have "app \<in> set (apps st)" "ac_app_id ctx = ap_id app" using c(2) found by auto
    ultimately show ?r using c(3) by (intro exI [of _ au] exI [of _ raw] exI [of _ app]) simp
  next
    assume ?r
    then obtain au raw app where a: "r = Inr au" "header_str ''x-application-id'' rq = Some raw" "uuid_parse P raw = Some (ap_id app)"
      "find (\<lambda>a. ap_id a = ap_id app) (apps st) = Some app" "resp = api_success app"
      "ap_owner_id app = au_id au \<or> is_admin au \<or> app_member (ap_id app) (au_id au) st" using found by blast
    from app_context_granted [OF a(2-4,6)] a(1,4,5) show ?l by (auto simp: get_app_details_def)
  qed
  show "get_app_details P (rq\<lparr>rq_path := other\<rparr>) r st = get_app_details P rq r st"
    by (simp add: get_app_details_def app_context_of_def header_str_def)
qed

text \<open>
  The RPC-style aliases of the profile routes agree with their REST counterparts for a
  password change and a deletion, and for a profile update whenever the caller has the scope
  for it; a key without the scope is refused by \<open>PATCH /users/me\<close> and by \<open>GET /users/me\<close>, and
  reads and changes the same profile through \<open>/auth/get-session\<close> and \<open>/auth/update-user\<close>.
\<close>

theorem aliases_skip_the_scope:
  assumes "identity_inv st" "u \<in> set (users st)" "u_deleted_at u = None" "au_id au = u_id u"
    and "au_credential au = ApiKey i scopes" "UsersRead \<notin> scopes" "UsersWrite \<notin> scopes"
    and "validate_update_user V req = []" "uu_name req = Some n"
  shows "users_change_password V P cfg k sc ctx pw = auth_change_password V P cfg k sc ctx pw \<and>
    delete_me P k sc ctx = auth_delete_user P k sc ctx \<and>
    (\<forall>other. is_ok (require_scope other UsersWrite) \<longrightarrow> update_me V k other req = auth_update_user V k other req) \<and>
    update_me V k au req st = (Inl (scope_missing UsersWrite), st) \<and> get_me au st = Inl (scope_missing UsersRead) \<and>
    get_session_route au st = Inr (api_success (user_response_of (user_of_row u))) \<and>
    (\<exists>resp st'. auth_update_user V k au req st = (Inr resp, st') \<and>
       (\<exists>u'\<in>set (users st'). u_id u' = u_id u \<and> u_name u' = str_trim n))"
proof (intro conjI allI impI)
  let ?f = "\<lambda>u. u\<lparr>u_name := unwrap_or_else (u_name u) (map_option str_trim (uu_name req)),
                     u_image := coalesce (uu_image req) (u_image u), u_updated_at := c_now k\<rparr>"
  let ?w = "\<lambda>x. u_id x = u_id u \<and> u_deleted_at x = None"
  have live: "live_user_by_id (u_id u) st = Some u" using live_user_by_id_iff [OF assms(1)] assms(2,3) by blast
  then show "get_session_route au st = Inr (api_success (user_response_of (user_of_row u)))"
    by (simp add: get_session_route_def load_user_def assms(4))
  have f: "find ?w (users st) = Some u" using live by (simp add: live_user_by_id_def)
  show "\<exists>resp st'. auth_update_user V k au req st = (Inr resp, st') \<and>
       (\<exists>u'\<in>set (users st'). u_id u' = u_id u \<and> u_name u' = str_trim n)"
  proof (intro exI conjI)
    let ?st' = "st\<lparr>users := sql_update ?w ?f (users st)\<rparr>"
    show "auth_update_user V k au req st = (Inr (api_success (user_response_of (user_of_row (?f u)))), ?st')"
      by (simp add: auth_update_user_def guarded_def validated_def assms(4,8) reply_def update_profile_def f Let_def)
    show "\<exists>u'\<in>set (users ?st'). u_id u' = u_id u \<and> u_name u' = str_trim n"
      using assms(2,3,9) by (intro bexI [of _ "?f u"]) (auto simp: set_sql_update)
  qed
next
  fix other assume "is_ok (require_scope other UsersWrite)"
  then show "update_me V k other req = auth_update_user V k other req"
    by (auto simp: update_me_def auth_update_user_def guarded_def is_ok_iff fun_eq_iff)
qed (use assms(5-7) in \<open>simp_all add: users_change_password_def auth_change_password_def delete_me_def auth_delete_user_def fun_eq_iff
  update_me_def get_me_def guarded_def require_scope_def scope_contains_def\<close>)

section \<open>Concrete requests\<close>

definition lenient :: validators where
  "lenient = \<lparr>is_email = (\<lambda>_. True), is_url = (\<lambda>_. True), errors_message = (\<lambda>_. ''invalid'')\<rparr>"

definition scopeless_ann :: auth_user where
  "scopeless_ann = \<lparr>au_id = 1, au_email = ''ann@example.com'', au_role = ''user'', au_email_verified = True,
     au_credential = ApiKey 40 {}\<rparr>"

definition sample_app :: app_row where
  "sample_app = \<lparr>ap_id = 20, ap_owner_id = 1, ap_name = ''Shop'', ap_slug = ''shop'', ap_description = None,
     ap_created_at = 0, ap_updated_at = 0\<rparr>"

definition app_request :: request where
  "app_request = \<lparr>rq_method = ''GET'', rq_path = ''/api/v1/apps/77'', rq_headers = [(''x-application-id'', nat_str 20)],
     rq_peer = None, rq_body = []\<rparr>"

theorem app_details_follow_the_header_witness:
  "get_app_details toy_ext app_request (Inr scopeless_ann) (sample_store\<lparr>apps := [sample_app]\<rparr>) = Inr (api_success sample_app)"
proof -
  let ?st = "sample_store\<lparr>apps := [sample_app]\<rparr>"
  have nc: "no_clash app_clash (apps ?st)" by (simp add: no_clash_def)
  have "header_text_ok (nat_str 20)"
    by (auto simp: header_text_ok_def list_all_iff Let_def digit_def take_bit_eq_mod dest!: nat_str_digits)
  then have h: "header_str ''x-application-id'' app_request = Some (nat_str 20)"
    by (simp add: header_str_def app_request_def del: nat_str.simps)
  have p: "uuid_parse toy_ext (nat_str 20) = Some (ap_id sample_app)"
    by (simp add: toy_ext_def sample_app_def del: nat_str.simps)
  have "ap_owner_id sample_app = au_id scopeless_ann" by (simp add: sample_app_def scopeless_ann_def)
  then show ?thesis
    using app_details_follow_the_header [OF nc, of toy_ext app_request "Inr scopeless_ann" "api_success sample_app"] h p
    by auto
qed

theorem aliases_skip_the_scope_witness:
  "update_me lenient (sample_call 5 (CHR ''a'')) scopeless_ann \<lparr>uu_name = Some ''Eve'', uu_image = None\<rparr> sample_store
     = (Inl (scope_missing UsersWrite), sample_store) \<and>
   (\<exists>resp st'. auth_update_user lenient (sample_call 5 (CHR ''a'')) scopeless_ann \<lparr>uu_name = Some ''Eve'', uu_image = None\<rparr> sample_store
       = (Inr resp, st') \<and> (\<exists>u'\<in>set (users st'). u_id u' = 1 \<and> u_name u' = ''Eve''))"
proof -
  let ?req = "\<lparr>uu_name = Some ''Eve'', uu_image = None\<rparr>"
  have u: "sample_user \<in> set (users sample_store)" "u_deleted_at sample_user = None" "u_id sample_user = 1"
    by (simp_all add: sample_defs)
  have au: "au_id scopeless_ann = u_id sample_user" "au_credential scopeless_ann = ApiKey 40 {}"
    by (simp_all add: scopeless_ann_def u(3))
  have "chars ''Eve'' = bytes_of ''Eve''" by (rule chars_ascii) simp
  then have v: "validate_update_user lenient ?req = []"
    by (simp add: validate_update_user_def opt_check_def name_errors_def check_field_def length_between_def bytes_of_def)
  have "str_trim ''Eve'' = ''Eve''" by (rule str_trim_graphic) (simp add: is_graphic_def)
  with aliases_skip_the_scope [OF sample_inv u(1,2) au _ _ v, of "''Eve''" toy_ext sample_cfg "sample_call 5 (CHR ''a'')"] u(3)
  show ?thesis by simp
qed

end
