(* ===== verification/Maintenance.thy ===== *)
theory Maintenance
  imports Idempotency OAuth_Facts File_System Jobs
begin

text \<open>
  The hourly clean-up (\<open>cleanup_loop\<close> of \<open>src/main.rs\<close>): four plain deletions, the old jobs
  and the abandoned uploads.  The state is the database, the idempotency table and the
  storage backend; a statement that fails is logged and skipped, and does not fail here.
\<close>

section \<open>One turn\<close>

definition reap_expired :: "time \<Rightarrow> idem_row list \<Rightarrow> store \<Rightarrow> idem_row list \<times> store" where
  "reap_expired now rows st =
     (sql_delete (\<lambda>r. i_expires_at r \<le> now) rows,
      st\<lparr>verifications := sql_delete (\<lambda>v. v_expires_at v \<le> now - days 7) (verifications st),
         oauth_requests := sql_delete (\<lambda>r. o_expires_at r \<le> now) (oauth_requests st),
         sessions := sql_delete (\<lambda>s. s_expires_at s \<le> now - days 30) (sessions st)\<rparr>)"

definition cleanup_turn ::
  "app_config \<Rightarrow> time \<Rightarrow> 'b backend \<Rightarrow> idem_row list \<Rightarrow> store \<Rightarrow> 'b world \<Rightarrow> idem_row list \<times> store \<times> 'b world" where
  "cleanup_turn cfg now B rows st w =
     (let (rows', st1) = reap_expired now rows st;
          st2 = snd (reap_old_jobs now 14 st1) in
      (rows', reap_abandoned_uploads cfg now B st2 w))"

section \<open>Facts\<close>

lemma find_sql_delete: "(\<And>x. x \<in> set xs \<Longrightarrow> w x \<Longrightarrow> \<not> d x) \<Longrightarrow> find w (sql_delete d xs) = find w xs"
  by (induction xs) (auto simp: sql_delete_def)

lemma tombstone_frame:
  "sessions (tombstone now i st) = sessions st" "users (tombstone now i st) = users st"
  "verifications (tombstone now i st) = verifications st" "oauth_requests (tombstone now i st) = oauth_requests st"
  "accounts (tombstone now i st) = accounts st"
  by (simp_all add: tombstone_def)

lemma reap_each_frame:
  "sessions (fst (reap_each now B xs st w)) = sessions st" "users (fst (reap_each now B xs st w)) = users st"
  "verifications (fst (reap_each now B xs st w)) = verifications st"
  "oauth_requests (fst (reap_each now B xs st w)) = oauth_requests st"
  "accounts (fst (reap_each now B xs st w)) = accounts st"
  by (induction now B xs st w rule: reap_each.induct) (simp_all add: tombstone_frame)

lemma cleanup_tables:
  assumes "cleanup_turn cfg now B rows st w = (rows', st', w')"
  shows "rows' = sql_delete (\<lambda>r. i_expires_at r \<le> now) rows"
    "sessions st' = sql_delete (\<lambda>s. s_expires_at s \<le> now - days 30) (sessions st)"
    "verifications st' = sql_delete (\<lambda>v. v_expires_at v \<le> now - days 7) (verifications st)"
    "oauth_requests st' = sql_delete (\<lambda>r. o_expires_at r \<le> now) (oauth_requests st)"
    "users st' = users st" "accounts st' = accounts st"
proof -
  let ?st2 = "snd (reap_old_jobs now 14 (snd (reap_expired now rows st)))"
  have r: "rows' = fst (reap_expired now rows st)" and "(st', w') = reap_abandoned_uploads cfg now B ?st2 w"
    using assms by (auto simp: cleanup_turn_def Let_def split: prod.splits)
  then have "st' = fst (reap_abandoned_uploads cfg now B ?st2 w)" by (metis fst_conv)
  then show "rows' = sql_delete (\<lambda>r. i_expires_at r \<le> now) rows"
    "sessions st' = sql_delete (\<lambda>s. s_expires_at s \<le> now - days 30) (sessions st)"
    "verifications st' = sql_delete (\<lambda>v. v_expires_at v \<le> now - days 7) (verifications st)"
    "oauth_requests st' = sql_delete (\<lambda>r. o_expires_at r \<le> now) (oauth_requests st)"
    "users st' = users st" "accounts st' = accounts st"
    using r by (simp_all add: reap_abandoned_uploads_def reap_each_frame reap_old_jobs_def reap_expired_def Let_def)
qed

lemma cleanup_inv:
  assumes "oauth_inv st" "cleanup_turn cfg now B rows st w = (rows', st', w')"
  shows "oauth_inv st'"
  using assms(1) unfolding oauth_inv_def identity_inv_def cleanup_tables [OF assms(2)]
  by (auto intro: no_clash_delete)

lemma res_ok_cong:
  assumes "\<And>x. a = Inr x \<longleftrightarrow> b = Inr x"
  shows "res_ok a = res_ok b"
proof (cases a)
  case (Inl e)
  then have "b \<noteq> Inr x" for x using assms [of x] by simp
  with Inl show ?thesis by (cases b) auto
next
  case (Inr x)
  then have "b = Inr x" using assms [of x] by simp
  with Inr show ?thesis by simp
qed

text \<open>A row a statement at a later moment would select is still there.\<close>

lemma resolve_session_cleanup:
  assumes "identity_inv st" "oauth_inv st" "cleanup_turn cfg now B rows st w = (rows', st', w')" "now \<le> t"
  shows "res_ok (resolve_session t u s st') = res_ok (resolve_session t u s st)"
proof -
  note tabs = cleanup_tables [OF assms(3)]
  have inv': "identity_inv st'" using cleanup_inv [OF assms(2,3)] by (simp add: oauth_inv_def)
  have gone: "\<not> s_expires_at x \<le> now - days 30" if "t < s_expires_at x" for x :: session_row
    using that assms(4) by (simp add: days_def)
  have keep: "(\<exists>x\<in>set (sessions st'). R x) \<longleftrightarrow> (\<exists>x\<in>set (sessions st). R x)" if "\<And>x. R x \<Longrightarrow> t < s_expires_at x" for R
    unfolding tabs set_sql_delete using that gone by blast
  have "resolve_session t u s st' = Inr x \<longleftrightarrow> resolve_session t u s st = Inr x" for x
    unfolding resolve_session_iff [OF assms(1)] resolve_session_iff [OF inv'] tabs(5) by (rule keep) blast
  then show ?thesis by (rule res_ok_cong)
qed

lemma claim_key_cleanup:
  assumes "now \<le> t"
  shows "fst (claim_key cols cfg t h (sql_delete (\<lambda>r. i_expires_at r \<le> now) rows)) = fst (claim_key cols cfg t h rows)"
proof -
  let ?d = "\<lambda>r. i_scope_hash r = h \<and> i_expires_at r \<le> t"
  let ?rows = "sql_delete (\<lambda>r. i_expires_at r \<le> now) rows"
  let ?n = "\<lparr>i_scope_hash = h, i_status_code = None, i_content_type = None, i_response_body = None,
                  i_expires_at = t + seconds (idempotency_ttl_seconds cfg), i_completed_at = None\<rparr>"
  have a: "find (\<lambda>r. i_scope_hash r = h) (sql_delete ?d ?rows) = find (\<lambda>r. i_scope_hash r = h) (sql_delete ?d rows)"
    using assms by (induction rows) (auto simp: sql_delete_def)
  have b: "sql_insert idem_clash ?n (sql_delete ?d ?rows) = None \<longleftrightarrow> sql_insert idem_clash ?n (sql_delete ?d rows) = None"
    using assms by (auto simp: sql_insert_None idem_clash_def)
  show ?thesis
  proof (cases "sql_insert idem_clash ?n (sql_delete ?d rows)")
    case None
    with b show ?thesis by (simp add: claim_key_def a Let_def)
  next
    case (Some xs)
    with b obtain ys where "sql_insert idem_clash ?n (sql_delete ?d ?rows) = Some ys" by auto
    with Some show ?thesis by (simp add: claim_key_def Let_def)
  qed
qed



end
