(* ===== verification/Http_Layers.thy ===== *)
theory Http_Layers
  imports Idempotency
begin

text \<open>
  What stands around the routes: the security headers (\<open>src/middleware/security_headers.rs\<close>),
  deprecation headers (\<open>src/middleware/sunset.rs\<close>), health and metrics endpoints
  (\<open>src/routes/health.rs\<close>), the cross-origin policy and the order of the layers
  (\<open>src/lib.rs\<close>).  Enforcing the cross-origin policy, limits, timeouts and tracing is the
  tower-http and governor crates' work.
\<close>

section \<open>Header maps\<close>

text \<open>\<open>insert\<close> replaces every value of a name, \<open>append\<close> adds one.\<close>

definition insert_header :: "string \<Rightarrow> string \<Rightarrow> http_response \<Rightarrow> http_response" where
  "insert_header name v r = r\<lparr>hr_headers := filter (\<lambda>h. fst h \<noteq> name) (hr_headers r) @ [(name, v)]\<rparr>"

definition append_header :: "string \<Rightarrow> string \<Rightarrow> http_response \<Rightarrow> http_response" where
  "append_header name v r = r\<lparr>hr_headers := hr_headers r @ [(name, v)]\<rparr>"

definition header_values :: "string \<Rightarrow> http_response \<Rightarrow> string list" where
  "header_values name r = map snd (filter (\<lambda>h. fst h = name) (hr_headers r))"

lemma insert_header_values [simp]:
  "header_values n (insert_header name v r) = (if n = name then [v] else header_values n r)"
  "hr_status (insert_header name v r) = hr_status r" "hr_body (insert_header name v r) = hr_body r"
  by (auto simp: header_values_def insert_header_def filter_empty_conv intro!: arg_cong [where f = "map snd"] filter_cong)

lemma append_header_values [simp]:
  "header_values n (append_header name v r) = header_values n r @ (if n = name then [v] else [])"
  "hr_status (append_header name v r) = hr_status r" "hr_body (append_header name v r) = hr_body r"
  by (auto simp: header_values_def append_header_def)

section \<open>Security headers\<close>

definition sq :: "string \<Rightarrow> string" where
  "sq s = CHR 0x27 # s @ [CHR 0x27]"

definition API_CSP :: string where
  "API_CSP = ''default-src '' @ sq ''none'' @ ''; frame-ancestors '' @ sq ''none'' @ ''; base-uri '' @ sq ''none''
     @ ''; form-action '' @ sq ''none''"

definition DOCS_CSP :: string where
  "DOCS_CSP = ''default-src '' @ sq ''self'' @ ''; script-src '' @ sq ''self'' @ '' '' @ sq ''unsafe-inline''
     @ '' https://cdn.jsdelivr.net; style-src '' @ sq ''self'' @ '' '' @ sq ''unsafe-inline''
     @ '' https://cdn.jsdelivr.net https://fonts.googleapis.com; font-src '' @ sq ''self''
     @ '' data: https://fonts.gstatic.com; img-src '' @ sq ''self'' @ '' data: https:; connect-src '' @ sq ''self''
     @ ''; frame-ancestors '' @ sq ''none'' @ ''; base-uri '' @ sq ''none''"

definition is_docs :: "request \<Rightarrow> bool" where
  "is_docs rq = starts_with ''/docs'' (rq_path rq)"

definition security_headers :: "app_config \<Rightarrow> request \<Rightarrow> http_response \<Rightarrow> http_response" where
  "security_headers cfg rq response =
     (let r1 = insert_header ''x-content-type-options'' ''nosniff'' response;
          r2 = insert_header ''x-frame-options'' ''DENY'' r1;
          r3 = insert_header ''referrer-policy'' ''strict-origin-when-cross-origin'' r2;
          r4 = insert_header ''content-security-policy'' (if is_docs rq then DOCS_CSP else API_CSP) r3;
          r5 = insert_header ''permissions-policy''
                 ''accelerometer=(), camera=(), geolocation=(), gyroscope=(), magnetometer=(), microphone=(), payment=(), usb=()'' r4;
          r6 = insert_header ''cross-origin-resource-policy'' ''same-origin'' r5;
          r7 = insert_header ''x-download-options'' ''noopen'' r6 in
      if is_production (cfg_environment cfg)
      then insert_header ''strict-transport-security'' ''max-age=31536000; includeSubDomains; preload'' r7
      else r7)"

section \<open>Deprecation\<close>

record sunset_config =
  sunset_date :: "string option"
  migration_doc_url :: "string option"

definition deprecated :: sunset_config where
  "deprecated = \<lparr>sunset_date = None, migration_doc_url = None\<rparr>"

definition with_sunset :: "string \<Rightarrow> sunset_config \<Rightarrow> sunset_config" where
  "with_sunset d c = c\<lparr>sunset_date := Some d\<rparr>"

definition with_doc :: "string \<Rightarrow> sunset_config \<Rightarrow> sunset_config" where
  "with_doc u c = c\<lparr>migration_doc_url := Some u\<rparr>"

text \<open>\<open>header_ok\<close> is \<open>HeaderValue::from_str\<close>; what it refuses is left out.\<close>

definition sunset_layer :: "(string \<Rightarrow> bool) \<Rightarrow> sunset_config \<Rightarrow> http_response \<Rightarrow> http_response" where
  "sunset_layer header_ok c response =
     (let r1 = insert_header ''deprecation'' ''true'' response;
          r2 = (case sunset_date c of
                  Some d \<Rightarrow> if header_ok d then insert_header ''sunset'' d r1 else r1
                | None \<Rightarrow> r1) in
      case migration_doc_url c of
        None \<Rightarrow> r2
      | Some u \<Rightarrow>
          (let link = ''<'' @ u @ ''>; rel='' @ quoted ''sunset'' in
           if header_ok link then append_header ''link'' link r2 else r2))"

section \<open>Health and metrics\<close>

record health_response =
  hl_status :: string
  hl_database :: string
  hl_version :: string
  hl_timestamp :: time

definition liveness :: "string \<Rightarrow> time \<Rightarrow> health_response" where
  "liveness version now = \<lparr>hl_status = ''ok'', hl_database = ''not_checked'', hl_version = version, hl_timestamp = now\<rparr>"

text \<open>\<open>db_up\<close>: \<open>SELECT 1\<close> is answered.  The status code with the body.\<close>

definition readiness :: "string \<Rightarrow> time \<Rightarrow> bool \<Rightarrow> nat \<times> health_response" where
  "readiness version now db_up =
     (if db_up then 200 else 503,
      \<lparr>hl_status = (if db_up then ''ok'' else ''degraded''),
       hl_database = (if db_up then ''healthy'' else ''unhealthy''),
       hl_version = version, hl_timestamp = now\<rparr>)"

definition health_check :: "string \<Rightarrow> time \<Rightarrow> bool \<Rightarrow> nat \<times> health_response" where
  "health_check version now db_up = readiness version now db_up"

definition prometheus_metrics :: "ext \<Rightarrow> app_config \<Rightarrow> nat list \<Rightarrow> request \<Rightarrow> http_response result" where
  "prometheus_metrics P cfg rendered rq =
     (let presented = unwrap_or (Option.bind (header_str ''authorization'' rq) (strip_prefix ''Bearer '')) [];
          ok = Inr \<lparr>hr_status = 200, hr_headers = [(''content-type'', ''text/plain; version=0.0.4'')], hr_body = rendered\<rparr> in
      case metrics_token cfg of
        None \<Rightarrow> ok
      | Some expected \<Rightarrow>
          if \<not> constant_time_eq P presented (expose expected)
          then Inl (Unauthorized ''Invalid metrics token'')
          else ok)"

section \<open>The cross-origin policy\<close>

datatype allowed_origins = AnyOrigin | Origins "string list"

record cors_policy =
  co_methods :: "string list"
  co_headers :: "string list"
  co_expose :: "string list"
  co_max_age :: nat
  co_origins :: allowed_origins
  co_credentials :: bool

text \<open>\<open>header_ok\<close>: the origin parses as a header value.\<close>

definition build_cors :: "(string \<Rightarrow> bool) \<Rightarrow> app_config \<Rightarrow> cors_policy" where
  "build_cors header_ok cfg =
     (let cors = \<lparr>co_methods = [''GET'', ''POST'', ''PUT'', ''PATCH'', ''DELETE'', ''OPTIONS''],
                  co_headers = [''authorization'', ''accept'', ''content-type'', ''x-request-id'', ''idempotency-key''],
                  co_expose = [''x-request-id'', ''x-idempotent-replayed''], co_max_age = 3600,
                  co_origins = Origins [], co_credentials = False\<rparr> in
      if cors_allowed_origins cfg = [] then cors\<lparr>co_origins := AnyOrigin\<rparr>
      else cors\<lparr>co_origins := Origins (filter header_ok (cors_allowed_origins cfg)), co_credentials := True\<rparr>)"

section \<open>The stack\<close>

text \<open>
  What a request that passes the limiter meets, outermost first: security headers, the
  idempotency guard, the routes.
\<close>

definition app_stack ::
  "json_printer \<Rightarrow> (string \<Rightarrow> bool) \<Rightarrow> ext \<Rightarrow> string set \<Rightarrow> app_config \<Rightarrow> (request \<Rightarrow> 's \<Rightarrow> http_response \<times> 's)
     \<Rightarrow> time \<Rightarrow> time \<Rightarrow> request \<Rightarrow> idem_row list \<times> 's \<Rightarrow> http_response \<times> idem_row list \<times> 's" where
  "app_stack js header_ok P cols cfg routes now later rq s =
     (case idempotency_guard js header_ok P cols cfg routes now later rq s of
        (resp, rest) \<Rightarrow> (security_headers cfg rq resp, rest))"

section \<open>Facts\<close>

lemma security_headers_keep:
  "hr_status (security_headers cfg rq r) = hr_status r" "hr_body (security_headers cfg rq r) = hr_body r"
  by (simp_all add: security_headers_def Let_def)

text \<open>
  Every answer below the rate limiter carries the security headers, each exactly once
  and with the program's value, whoever produced it and whatever headers it came with: a
  handler, an error, a replayed response.  Scripts are allowed on the documentation page
  only, transport security is asserted in production only, and status and body are those
  the inner layers gave.
\<close>

theorem every_answer_is_hardened:
  assumes "app_stack js H P cols cfg routes now later rq s = (resp, rest)"
  shows "header_values ''x-content-type-options'' resp = [''nosniff''] \<and>
    header_values ''x-frame-options'' resp = [''DENY''] \<and>
    header_values ''content-security-policy'' resp = [if starts_with ''/docs'' (rq_path rq) then DOCS_CSP else API_CSP] \<and>
    (cfg_environment cfg = Production \<longrightarrow>
      header_values ''strict-transport-security'' resp = [''max-age=31536000; includeSubDomains; preload'']) \<and>
    (\<exists>inner. idempotency_guard js H P cols cfg routes now later rq s = (inner, rest) \<and>
       hr_status resp = hr_status inner \<and> hr_body resp = hr_body inner \<and>
       (cfg_environment cfg = Development \<longrightarrow>
          header_values ''strict-transport-security'' resp = header_values ''strict-transport-security'' inner))"
proof -
  obtain inner where i: "idempotency_guard js H P cols cfg routes now later rq s = (inner, rest)"
    "resp = security_headers cfg rq inner"
    using assms by (auto simp: app_stack_def split: prod.splits)
  show ?thesis
    by (cases "cfg_environment cfg") (simp_all add: i security_headers_keep, simp_all add: security_headers_def Let_def is_docs_def)
qed

text \<open>
  In a configuration that loads as production, metrics are served only to the bearer of
  the configured, non-empty token, cross-origin requests with credentials are allowed only
  from origins that are listed by name, and no policy admits every origin.
\<close>

theorem production_endpoints_are_closed:
  assumes "load_from_env P e = Inr cfg" "is_production (cfg_environment cfg)" "ct_ok P"
  shows "(\<exists>t. metrics_token cfg = Some (Secret t) \<and> t \<noteq> [] \<and>
      (\<forall>rendered rq resp. prometheus_metrics P cfg rendered rq = Inr resp \<longrightarrow>
         header_str ''authorization'' rq = Some (''Bearer '' @ t) \<and> hr_body resp = rendered)) \<and>
    (\<exists>os. co_origins (build_cors H cfg) = Origins os \<and> ''*'' \<notin> set os \<and> set os \<subseteq> set (cors_allowed_origins cfg))"
proof
  note parts = load_from_env_parts [OF assms(1)]
  obtain t where t: "metrics_token cfg = Some (Secret t)" "t \<noteq> []"
    using load_metrics_ok parts(8) assms(2) by auto
  have "header_str ''authorization'' rq = Some (''Bearer '' @ t) \<and> hr_body resp = rendered"
    if r: "prometheus_metrics P cfg rendered rq = Inr resp" for rendered rq resp
  proof -
    let ?b = "Option.bind (header_str ''authorization'' rq) (strip_prefix ''Bearer '')"
    have eq: "bytes_of (unwrap_or ?b []) = bytes_of t"
      using r t(1) assms(3) by (auto simp: prometheus_metrics_def Let_def constant_time_eq_def ct_ok_def split: if_splits)
    have inj: "inj (of_char :: char \<Rightarrow> nat)" by (rule injI) (metis char_of_char)
    have "unwrap_or ?b [] = t" using eq inj by (simp add: bytes_of_def inj_map_eq_map)
    with t(2) have "?b = Some t" by (cases ?b) auto
    then have "header_str ''authorization'' rq = Some (''Bearer '' @ t)"
      by (auto simp: bind_eq_Some_conv strip_prefix_Some)
    moreover have "hr_body resp = rendered" using r t(1) by (auto simp: prometheus_metrics_def Let_def split: if_splits)
    ultimately show ?thesis by simp
  qed
  with t show "\<exists>t. metrics_token cfg = Some (Secret t) \<and> t \<noteq> [] \<and>
      (\<forall>rendered rq resp. prometheus_metrics P cfg rendered rq = Inr resp \<longrightarrow>
         header_str ''authorization'' rq = Some (''Bearer '' @ t) \<and> hr_body resp = rendered)" by blast
  have "cors_allowed_origins cfg \<noteq> []" "''*'' \<notin> set (cors_allowed_origins cfg)"
    using load_cors_ok [OF parts(7)] assms(2) by auto
  then show "\<exists>os. co_origins (build_cors H cfg) = Origins os \<and> ''*'' \<notin> set os \<and> set os \<subseteq> set (cors_allowed_origins cfg)"
    by (auto simp: build_cors_def Let_def)
qed

theorem every_answer_is_hardened_witness:
  "\<exists>resp. app_stack no_js (\<lambda>_. True) toy_ext needed_columns sample_config
      (\<lambda>rq s. (\<lparr>hr_status = 200, hr_headers = [(''x-frame-options'', ''ALLOWALL'')], hr_body = []\<rparr>, s)) 1 1
      \<lparr>rq_method = ''GET'', rq_path = ''/api/v1/users/me'', rq_headers = [], rq_peer = None, rq_body = []\<rparr> ([], ()) = (resp, [], ()) \<and>
    header_values ''x-frame-options'' resp = [''DENY''] \<and> header_values ''content-security-policy'' resp = [API_CSP]"
proof -
  let ?routes = "\<lambda>rq s. (\<lparr>hr_status = 200, hr_headers = [(''x-frame-options'', ''ALLOWALL'')], hr_body = []\<rparr>, s) :: http_response \<times> unit"
  let ?rq = "\<lparr>rq_method = ''GET'', rq_path = ''/api/v1/users/me'', rq_headers = [], rq_peer = None, rq_body = []\<rparr> :: request"
  have "admit no_js (\<lambda>_. True) toy_ext needed_columns sample_config 1 ?rq [] = (Unprotected, [])"
    by (simp add: admit_def mutating_def)
  then obtain resp where r: "app_stack no_js (\<lambda>_. True) toy_ext needed_columns sample_config ?routes 1 1 ?rq ([], ()) = (resp, [], ())"
    by (simp add: app_stack_def idempotency_guard_def)
  have "\<not> starts_with ''/docs'' (rq_path ?rq)" by (simp add: starts_with_def)
  with every_answer_is_hardened [OF r] r show ?thesis by auto
qed

theorem production_endpoints_are_closed_witness:
  "\<exists>cfg t. load_from_env toy_ext sample_production_env = Inr cfg \<and> metrics_token cfg = Some (Secret t) \<and>
     (\<exists>e. prometheus_metrics toy_ext cfg [] \<lparr>rq_method = ''GET'', rq_path = ''/metrics'', rq_headers = [], rq_peer = None, rq_body = []\<rparr> = Inl e)"
proof -
  let ?rq = "\<lparr>rq_method = ''GET'', rq_path = ''/metrics'', rq_headers = [], rq_peer = None, rq_body = []\<rparr> :: request"
  obtain cfg where c: "load_from_env toy_ext sample_production_env = Inr cfg" "is_production (cfg_environment cfg)"
    using sample_production_loads by auto
  have "header_str ''authorization'' ?rq = None" by (simp add: header_str_def)
  with production_endpoints_are_closed [OF c toy_ext_laws(3)]
  obtain t where t: "metrics_token cfg = Some (Secret t)" "\<forall>resp. prometheus_metrics toy_ext cfg [] ?rq \<noteq> Inr resp"
    by (metis option.distinct(1))
  then have "\<exists>e. prometheus_metrics toy_ext cfg [] ?rq = Inl e" by (cases "prometheus_metrics toy_ext cfg [] ?rq") auto
  with c(1) t(1) show ?thesis by blast
qed

end
