(* ===== verification/Routes.thy ===== *)
theory Routes
  imports File_Facts
begin

text \<open>
  The route table (\<open>src/routes/mod.rs\<close>, \<open>src/routes/v1/mod.rs\<close>, the \<open>router\<close> function and
  the path attributes of each file of \<open>src/routes/v1\<close>, and the documentation page of
  \<open>create_app\<close> in \<open>src/lib.rs\<close>).  Matching a request against it is the framework's work and
  follows its documentation: captures are not empty and hold no slash, literal segments are
  preferred to captures, a path with routes for other methods only is answered 405, and a
  \<open>GET\<close> route also serves \<open>HEAD\<close>.  Paths are taken as already percent-decoded.
\<close>

section \<open>The table\<close>

datatype endpoint =
    HealthCheck | Liveness | Readiness | PrometheusMetrics | Documentation
  | CreateApiKey | ListApiKeys | DeleteApiKey
  | CreateApp | ListApps | GetAppDetails | CreateOrg | ListOrgs | AddOrgMember
  | SignUpEmail | SignInEmail | Refresh | SignOut | SignOutAll | VerifyEmail | ForgetPassword
  | ResetPassword | GetSession | UpdateUser | ChangePassword | DeleteUser
  | GoogleAuth | GoogleCallback | GithubAuth | GithubCallback
  | GetMe | UpdateMe | UsersChangePassword | DeleteMe | ListUsers
  | UploadFile | CreatePresignedUrl | UploadSigned | CompleteUpload | CreateSignedDownloadUrl
  | ListOrgFiles | GetFile | DeleteFile
  | ListNotifications | MarkNotificationRead | MarkAllNotificationsRead | SseStream | ListAuditLogs
  | CreateWebhook | ListWebhooks | DeleteWebhook | ListDeliveries

text \<open>Method, path, handler, and whether the tighter limiter of credential endpoints applies.\<close>

type_synonym route = "string \<times> string \<times> endpoint \<times> bool"

definition routes_at :: "(string \<times> string \<times> endpoint) list \<Rightarrow> route list" where
  "routes_at rs = map (\<lambda>(m, p, e). (m, p, e, False)) rs"

definition nest :: "string \<Rightarrow> route list \<Rightarrow> route list" where
  "nest prefix rs = map (\<lambda>(m, p, e, l). (m, prefix @ p, e, l)) rs"

definition with_auth_limiter :: "route list \<Rightarrow> route list" where
  "with_auth_limiter rs = map (\<lambda>(m, p, e, l). (m, p, e, True)) rs"

definition api_key_router :: "route list" where
  "api_key_router = routes_at
     [(''POST'', ''/create'', CreateApiKey), (''GET'', ''/list'', ListApiKeys), (''DELETE'', ''/{id}'', DeleteApiKey)]"

definition apps_router :: "route list" where
  "apps_router = routes_at
     [(''POST'', [], CreateApp), (''GET'', [], ListApps), (''GET'', ''/{app_id}'', GetAppDetails),
      (''POST'', ''/{app_id}/orgs'', CreateOrg), (''GET'', ''/{app_id}/orgs'', ListOrgs),
      (''POST'', ''/orgs/{org_id}/members'', AddOrgMember)]"

definition auth_router :: "route list" where
  "auth_router = routes_at
     [(''POST'', ''/sign-up/email'', SignUpEmail), (''POST'', ''/sign-in/email'', SignInEmail),
      (''POST'', ''/refresh'', Refresh), (''POST'', ''/sign-out'', SignOut), (''POST'', ''/sign-out-all'', SignOutAll),
      (''POST'', ''/verify-email'', VerifyEmail), (''POST'', ''/forget-password'', ForgetPassword),
      (''POST'', ''/reset-password'', ResetPassword), (''GET'', ''/get-session'', GetSession),
      (''POST'', ''/update-user'', UpdateUser), (''POST'', ''/change-password'', ChangePassword),
      (''POST'', ''/delete-user'', DeleteUser), (''GET'', ''/sign-in/social/google'', GoogleAuth),
      (''GET'', ''/callback/google'', GoogleCallback), (''GET'', ''/sign-in/social/github'', GithubAuth),
      (''GET'', ''/callback/github'', GithubCallback)]"

definition users_router :: "route list" where
  "users_router = routes_at
     [(''GET'', ''/me'', GetMe), (''PATCH'', ''/me'', UpdateMe), (''PATCH'', ''/me/password'', UsersChangePassword),
      (''DELETE'', ''/me'', DeleteMe), (''GET'', [], ListUsers)]"

definition files_router :: "route list" where
  "files_router = routes_at
     [(''POST'', ''/upload'', UploadFile), (''POST'', ''/presigned-url'', CreatePresignedUrl),
      (''PUT'', ''/upload-signed'', UploadSigned), (''POST'', ''/{id}/complete'', CompleteUpload),
      (''GET'', ''/{id}/signed-url'', CreateSignedDownloadUrl), (''GET'', ''/org/{org_id}'', ListOrgFiles),
      (''GET'', ''/{id}'', GetFile), (''DELETE'', ''/{id}'', DeleteFile)]"

definition notifications_router :: "route list" where
  "notifications_router = routes_at
     [(''GET'', [], ListNotifications), (''PATCH'', ''/{id}/read'', MarkNotificationRead),
      (''PATCH'', ''/read-all'', MarkAllNotificationsRead)]"

definition realtime_router :: "route list" where
  "realtime_router = routes_at [(''GET'', ''/stream'', SseStream)]"

definition audit_router :: "route list" where
  "audit_router = routes_at [(''GET'', [], ListAuditLogs)]"

definition webhooks_router :: "route list" where
  "webhooks_router = routes_at
     [(''POST'', [], CreateWebhook), (''GET'', [], ListWebhooks), (''DELETE'', ''/{id}'', DeleteWebhook),
      (''GET'', ''/{id}/deliveries'', ListDeliveries)]"

definition v1_router :: "route list" where
  "v1_router =
     nest ''/api-keys'' api_key_router
     @ nest ''/auth/api-key'' api_key_router
     @ nest ''/apps'' apps_router
     @ nest ''/auth'' (with_auth_limiter auth_router)
     @ nest ''/users'' users_router
     @ nest ''/files'' files_router
     @ nest ''/notifications'' notifications_router
     @ nest ''/realtime'' realtime_router
     @ nest ''/audit-logs'' audit_router
     @ nest ''/webhooks'' webhooks_router"

definition app_router :: "route list" where
  "app_router = routes_at
     [(''GET'', ''/health'', HealthCheck), (''GET'', ''/health/live'', Liveness),
      (''GET'', ''/health/ready'', Readiness), (''GET'', ''/metrics'', PrometheusMetrics)]
     @ nest ''/api/v1'' v1_router"

text \<open>With the page \<open>create_app\<close> merges.\<close>

definition route_table :: "route list" where
  "route_table = app_router @ routes_at [(''GET'', ''/docs'', Documentation)]"

section \<open>Matching\<close>

datatype segment = Lit string | Par

definition segment_of :: "string \<Rightarrow> segment" where
  "segment_of s = (if starts_with ''{'' s then Par else Lit s)"

definition path_segments :: "string \<Rightarrow> string list" where
  "path_segments p = tl (split_on (CHR ''/'') p)"

definition pattern :: "string \<Rightarrow> segment list" where
  "pattern p = map segment_of (path_segments p)"

fun seg_match :: "segment \<Rightarrow> string \<Rightarrow> bool" where
  "seg_match (Lit l) s = (s = l)"
| "seg_match Par s = (s \<noteq> [])"

definition pat_match :: "segment list \<Rightarrow> string list \<Rightarrow> bool" where
  "pat_match = list_all2 seg_match"

fun more_specific :: "segment list \<Rightarrow> segment list \<Rightarrow> bool" where
  "more_specific (Lit a # p) (Par # q) = True"
| "more_specific (Par # p) (Lit a # q) = False"
| "more_specific (_ # p) (_ # q) = more_specific p q"
| "more_specific _ _ = False"

fun captures :: "segment list \<Rightarrow> string list \<Rightarrow> string list" where
  "captures (Lit l # p) (s # ss) = captures p ss"
| "captures (Par # p) (s # ss) = s # captures p ss"
| "captures _ _ = []"

datatype routed = Unrouted | MethodNotAllowed | Routed endpoint "string list"

text \<open>The patterns that match, of which the most specific decides.\<close>

definition route_pattern :: "route \<Rightarrow> segment list" where
  "route_pattern r = pattern (fst (snd r))"

definition best_pattern :: "route list \<Rightarrow> string list \<Rightarrow> segment list option" where
  "best_pattern rs ss =
     (let ps = filter (\<lambda>p. pat_match p ss) (map route_pattern rs) in
      find (\<lambda>p. \<not> list_ex (\<lambda>q. more_specific q p) ps) ps)"

definition served_method :: "string \<Rightarrow> string" where
  "served_method m = (if m = ''HEAD'' then ''GET'' else m)"

definition route_in :: "route list \<Rightarrow> string \<Rightarrow> string \<Rightarrow> routed" where
  "route_in rs m path =
     (let ss = path_segments path in
      case best_pattern rs ss of
        None \<Rightarrow> Unrouted
      | Some p \<Rightarrow>
          (case find (\<lambda>r. fst r = served_method m \<and> route_pattern r = p) rs of
             None \<Rightarrow> MethodNotAllowed
           | Some r \<Rightarrow> Routed (fst (snd (snd r))) (captures p ss)))"

definition route :: "string \<Rightarrow> string \<Rightarrow> routed" where
  "route m path = route_in route_table m path"

section \<open>Facts\<close>

text \<open>A path of a pattern: its captures filled in.\<close>

fun fill :: "segment list \<Rightarrow> string list \<Rightarrow> string list" where
  "fill (Lit l # p) ids = l # fill p ids"
| "fill (Par # p) (i # ids) = i # fill p ids"
| "fill _ _ = []"

definition arity :: "segment list \<Rightarrow> nat" where
  "arity p = length (filter (\<lambda>s. s = Par) p)"

lemma arity_simps [simp]: "arity [] = 0" "arity (Lit l # p) = arity p" "arity (Par # p) = Suc (arity p)"
  by (simp_all add: arity_def)

definition literals :: "segment list \<Rightarrow> string set" where
  "literals p = {l. Lit l \<in> set p}"

lemma literals_Cons: "literals (Lit l # p) = insert l (literals p)" "literals (Par # p) = literals p"
  by (auto simp: literals_def)

lemma pat_match_simps [simp]:
  "pat_match [] [] = True" "pat_match (a # p) [] = False" "pat_match [] (s # ss) = False"
  "pat_match (a # p) (s # ss) = (seg_match a s \<and> pat_match p ss)" "pat_match q [] = (q = [])"
  by (simp_all add: pat_match_def)

lemma fill_matches: "length ids = arity p \<Longrightarrow> [] \<notin> set ids \<Longrightarrow> pat_match p (fill p ids) \<and> captures p (fill p ids) = ids"
  by (induction p ids rule: fill.induct) auto

text \<open>Of the patterns that match a path of \<open>p\<close>, all but \<open>p\<close> are less specific.\<close>

lemma fill_most_specific:
  "length ids = arity p \<Longrightarrow> pat_match q (fill p ids) \<Longrightarrow> set ids \<inter> literals q = {} \<Longrightarrow>
   \<not> more_specific q p \<and> (q = p \<or> more_specific p q)"
proof (induction p ids arbitrary: q rule: fill.induct)
  case (1 l p ids)
  from 1(3) obtain a q' where q: "q = a # q'" "seg_match a l" "pat_match q' (fill p ids)" by (cases q) auto
  show ?case using 1(1) [of q'] 1(2,4) q by (cases a) (auto simp: literals_Cons)
next
  case (2 p i ids)
  from 2(3) obtain a q' where q: "q = a # q'" "seg_match a i" "pat_match q' (fill p ids)" by (cases q) auto
  show ?case using 2(1) [of q'] 2(2,4) q by (cases a) (auto simp: literals_Cons)
qed simp_all

text \<open>No two routes have the same method and the same pattern.\<close>

definition unambiguous :: "route list \<Rightarrow> bool" where
  "unambiguous rs = distinct (map (\<lambda>r. (fst r, route_pattern r)) rs)"

definition table_literals :: "route list \<Rightarrow> string set" where
  "table_literals rs = (\<Union>r\<in>set rs. literals (route_pattern r))"

lemma best_pattern_fill:
  assumes "r \<in> set rs" "length ids = arity (route_pattern r)" "[] \<notin> set ids" "set ids \<inter> table_literals rs = {}"
  shows "best_pattern rs (fill (route_pattern r) ids) = Some (route_pattern r)"
proof -
  let ?p = "route_pattern r"
  let ?ps = "filter (\<lambda>p. pat_match p (fill ?p ids)) (map route_pattern rs)"
  have mem: "?p \<in> set ?ps" using fill_matches [OF assms(2,3)] assms(1) by auto
  have spec: "\<not> more_specific q ?p \<and> (q = ?p \<or> more_specific ?p q)" if "q \<in> set ?ps" for q
    using that assms(4) by (intro fill_most_specific [OF assms(2)]) (auto simp: table_literals_def)
  have "find (\<lambda>p. \<not> list_ex (\<lambda>q. more_specific q p) ?ps) ?ps = Some ?p"
  proof (rule find_unique [OF mem])
    show "\<not> list_ex (\<lambda>q. more_specific q ?p) ?ps" using spec by (auto simp: list_ex_iff)
  next
    fix q assume "q \<in> set ?ps" "\<not> list_ex (\<lambda>x. more_specific x q) ?ps"
    then show "q = ?p" using spec mem unfolding list_ex_iff by blast
  qed
  then show ?thesis by (simp add: best_pattern_def Let_def)
qed

lemma route_in_fill:
  assumes "unambiguous rs" "r \<in> set rs" "path_segments path = fill (route_pattern r) ids"
    and "length ids = arity (route_pattern r)" "[] \<notin> set ids" "set ids \<inter> table_literals rs = {}"
  shows "fst r = served_method m \<Longrightarrow> route_in rs m path = Routed (fst (snd (snd r))) ids"
    "(\<And>r'. r' \<in> set rs \<Longrightarrow> route_pattern r' = route_pattern r \<Longrightarrow> fst r' \<noteq> served_method m) \<Longrightarrow>
      route_in rs m path = MethodNotAllowed"
proof -
  note best = best_pattern_fill [OF assms(2,4-6)]
  have "inj_on (\<lambda>r. (fst r, route_pattern r)) (set rs)" using assms(1) by (simp add: unambiguous_def distinct_map)
  then have "find (\<lambda>x. fst x = fst r \<and> route_pattern x = route_pattern r) rs = Some r"
    using assms(2) by (intro find_unique) (auto dest: inj_onD)
  then show "fst r = served_method m \<Longrightarrow> route_in rs m path = Routed (fst (snd (snd r))) ids"
    using best fill_matches [OF assms(4,5)] by (simp add: route_in_def assms(3))
  assume "\<And>r'. r' \<in> set rs \<Longrightarrow> route_pattern r' = route_pattern r \<Longrightarrow> fst r' \<noteq> served_method m"
  then have "find (\<lambda>x. fst x = served_method m \<and> route_pattern x = route_pattern r) rs = None"
    unfolding find_None_all by blast
  then show "route_in rs m path = MethodNotAllowed" using best by (simp add: route_in_def assms(3))
qed

lemma split_on_free: "c \<notin> set s \<Longrightarrow> split_on c s = [s]"
  by (induction s) auto

lemma split_on_slash: "c \<notin> set s \<Longrightarrow> split_on c (s @ c # t) = s # split_on c t"
  by (induction s) auto

lemmas table_defs = route_table_def app_router_def v1_router_def api_key_router_def apps_router_def auth_router_def
  users_router_def files_router_def notifications_router_def realtime_router_def audit_router_def
  webhooks_router_def routes_at_def nest_def with_auth_limiter_def

lemma route_table_unambiguous: "unambiguous route_table"
  by code_simp

lemma route_table_endpoints: "map (\<lambda>r. fst (snd (snd r))) route_table =
  [HealthCheck, Liveness, Readiness, PrometheusMetrics, CreateApiKey, ListApiKeys, DeleteApiKey,
   CreateApiKey, ListApiKeys, DeleteApiKey, CreateApp, ListApps, GetAppDetails, CreateOrg, ListOrgs, AddOrgMember,
   SignUpEmail, SignInEmail, Refresh, SignOut, SignOutAll, VerifyEmail, ForgetPassword, ResetPassword, GetSession,
   UpdateUser, ChangePassword, DeleteUser, GoogleAuth, GoogleCallback, GithubAuth, GithubCallback,
   GetMe, UpdateMe, UsersChangePassword, DeleteMe, ListUsers, UploadFile, CreatePresignedUrl, UploadSigned,
   CompleteUpload, CreateSignedDownloadUrl, ListOrgFiles, GetFile, DeleteFile, ListNotifications,
   MarkNotificationRead, MarkAllNotificationsRead, SseStream, ListAuditLogs, CreateWebhook, ListWebhooks,
   DeleteWebhook, ListDeliveries, Documentation]"
  by code_simp

lemma every_endpoint_routed: "\<exists>r\<in>set route_table. fst (snd (snd r)) = e"
proof -
  have "e \<in> set (map (\<lambda>r. fst (snd (snd r))) route_table)"
    unfolding route_table_endpoints by (cases e) simp_all
  then show ?thesis by auto
qed


section \<open>The links the program gives out\<close>

text \<open>What of a URL under a base the router matches: the path, without the query.\<close>

definition url_path :: "string \<Rightarrow> string \<Rightarrow> string" where
  "url_path base url = takeWhile (\<lambda>c. c \<noteq> CHR ''?'') (drop (length base) url)"

definition plain_segment :: "string \<Rightarrow> bool" where
  "plain_segment s \<longleftrightarrow> s \<noteq> [] \<and> CHR ''/'' \<notin> set s \<and> CHR ''?'' \<notin> set s \<and> s \<notin> table_literals route_table"

lemma takeWhile_stop: "c \<notin> set p \<Longrightarrow> takeWhile (\<lambda>x. x \<noteq> c) (p @ c # q) = p"
  by (induction p) auto

lemma url_path_query: "CHR ''?'' \<notin> set p \<Longrightarrow> url_path b (b @ p @ CHR ''?'' # q) = p"
  by (simp add: url_path_def takeWhile_stop)

lemma url_path_plain: "CHR ''?'' \<notin> set p \<Longrightarrow> url_path b (b @ p) = p"
  unfolding url_path_def by (auto simp: takeWhile_eq_all_conv)

lemma served:
  assumes "(m, p, e, l) \<in> set route_table" "pattern p = pat" "path_segments path = fill pat ids"
    and "length ids = arity pat" "\<And>i. i \<in> set ids \<Longrightarrow> plain_segment i"
    and "m = served_method m'"
  shows "route m' path = Routed e ids"
  unfolding route_def
  using route_in_fill(1) [OF route_table_unambiguous assms(1), of path ids m'] assms(2-6)
  by (force simp: route_pattern_def plain_segment_def)

lemma file_patterns:
  "pattern ''/api/v1/files/{id}'' = [Lit ''api'', Lit ''v1'', Lit ''files'', Par]"
  "pattern ''/api/v1/files/{id}/complete'' = [Lit ''api'', Lit ''v1'', Lit ''files'', Par, Lit ''complete'']"
  "pattern ''/api/v1/files/upload-signed'' = [Lit ''api'', Lit ''v1'', Lit ''files'', Lit ''upload-signed'']"
  "pattern ''/api/v1/auth/verify-email'' = [Lit ''api'', Lit ''v1'', Lit ''auth'', Lit ''verify-email'']"
  by (simp_all add: pattern_def path_segments_def segment_of_def starts_with_def)

lemma file_rows:
  "(''GET'', ''/api/v1/files/{id}'', GetFile, False) \<in> set route_table"
  "(''POST'', ''/api/v1/files/{id}/complete'', CompleteUpload, False) \<in> set route_table"
  "(''PUT'', ''/api/v1/files/upload-signed'', UploadSigned, False) \<in> set route_table"
  "(''POST'', ''/api/v1/auth/verify-email'', VerifyEmail, True) \<in> set route_table"
  by (simp_all add: table_defs)

lemma file_route:
  assumes "plain_segment i"
  shows "route ''GET'' (''/api/v1/files/'' @ i) = Routed GetFile [i]"
    "route ''POST'' (''/api/v1/files/'' @ i @ ''/complete'') = Routed CompleteUpload [i]"
proof -
  have "path_segments (''/api/v1/files/'' @ i) = fill [Lit ''api'', Lit ''v1'', Lit ''files'', Par] [i]"
    using assms by (simp add: path_segments_def split_on_free plain_segment_def)
  then show "route ''GET'' (''/api/v1/files/'' @ i) = Routed GetFile [i]"
    by (rule served [OF file_rows(1) file_patterns(1)]) (use assms in \<open>simp_all add: served_method_def\<close>)
  have "path_segments (''/api/v1/files/'' @ i @ ''/complete'')
      = fill [Lit ''api'', Lit ''v1'', Lit ''files'', Par, Lit ''complete''] [i]"
    using assms by (simp add: path_segments_def split_on_slash plain_segment_def)
  then show "route ''POST'' (''/api/v1/files/'' @ i @ ''/complete'') = Routed CompleteUpload [i]"
    by (rule served [OF file_rows(2) file_patterns(2)]) (use assms in \<open>simp_all add: served_method_def\<close>)
qed

lemma fixed_routes:
  "route ''PUT'' ''/api/v1/files/upload-signed'' = Routed UploadSigned []"
  "route ''POST'' ''/api/v1/auth/verify-email'' = Routed VerifyEmail []"
  "route ''GET'' ''/api/v1/auth/verify-email'' = MethodNotAllowed"
  by code_simp+

lemma reset_page_unrouted: "route m ''/reset-password'' = Unrouted"
proof -
  have "best_pattern route_table (path_segments ''/reset-password'') = None" by code_simp
  then show ?thesis by (simp add: route_def route_in_def)
qed


fun literal :: "segment \<Rightarrow> string option" where
  "literal (Lit l) = Some l"
| "literal Par = None"

lemma table_literals_code: "table_literals rs = set (concat (map (\<lambda>r. List.map_filter literal (route_pattern r)) rs))"
proof -
  have "l \<in> set (List.map_filter literal p) \<longleftrightarrow> Lit l \<in> set p" for l p
    by (induction p) (auto simp: List.map_filter_def split: option.splits elim!: literal.elims)
  then show ?thesis by (auto simp: table_literals_def literals_def)
qed



section \<open>The table as a whole\<close>

text \<open>The handlers of \<open>src/routes/v1/auth.rs\<close>.\<close>

definition credential_endpoints :: "endpoint list" where
  "credential_endpoints = [SignUpEmail, SignInEmail, Refresh, SignOut, SignOutAll, VerifyEmail, ForgetPassword,
     ResetPassword, GetSession, UpdateUser, ChangePassword, DeleteUser, GoogleAuth, GoogleCallback, GithubAuth,
     GithubCallback]"

lemma table_rows:
  "list_all (\<lambda>(m, p, e, l). m \<noteq> ''HEAD'' \<and> l = List.member credential_endpoints e) route_table"
  by code_simp

text \<open>
  C36. The route table can be built and shadows nothing: no two routes have the same method and
  the same path, every handler is reachable, and a path of a route whose captures are no
  words of the table reaches that route's handler with those captures, by \<open>HEAD\<close> too where it
  is a \<open>GET\<close>; the tighter rate limit covers exactly the handlers of \<open>/auth\<close> proper, not the
  API key handlers mounted under the same prefix.
\<close>

theorem routes_reach_their_handlers:
  assumes "(m, p, e, l) \<in> set route_table" "path_segments path = fill (pattern p) ids"
    and "length ids = arity (pattern p)" "\<forall>i\<in>set ids. plain_segment i"
  shows "route m path = Routed e ids \<and> (m = ''GET'' \<longrightarrow> route ''HEAD'' path = Routed e ids) \<and>
    l = List.member credential_endpoints e \<and> unambiguous route_table \<and> (\<exists>r\<in>set route_table. fst (snd (snd r)) = e')"
proof -
  have row: "m \<noteq> ''HEAD''" "l = List.member credential_endpoints e"
    using table_rows assms(1) unfolding list_all_iff by auto
  have "route m' path = Routed e ids" if "m = served_method m'" for m'
    by (rule served [OF assms(1) refl assms(2,3) _ that]) (use assms(4) in blast)
  with row route_table_unambiguous every_endpoint_routed show ?thesis by (simp add: served_method_def)
qed

theorem routes_reach_their_handlers_witness:
  "route ''HEAD'' ''/api/v1/webhooks/17/deliveries'' = Routed ListDeliveries [''17'']"
proof -
  have row: "(''GET'', ''/api/v1/webhooks/{id}/deliveries'', ListDeliveries, False) \<in> set route_table"
    by (simp add: table_defs)
  have p: "pattern ''/api/v1/webhooks/{id}/deliveries'' = [Lit ''api'', Lit ''v1'', Lit ''webhooks'', Par, Lit ''deliveries'']"
    by code_simp
  have "''17'' \<notin> set (concat (map (\<lambda>r. List.map_filter literal (route_pattern r)) route_table))" by code_simp
  then have "plain_segment ''17''" by (simp add: plain_segment_def table_literals_code)
  moreover have "path_segments ''/api/v1/webhooks/17/deliveries'' = fill [Lit ''api'', Lit ''v1'', Lit ''webhooks'', Par, Lit ''deliveries''] [''17'']"
    by code_simp
  ultimately show ?thesis using routes_reach_their_handlers [OF row, of "''/api/v1/webhooks/17/deliveries''" "[''17'']"]
    by (simp add: p)
qed

end
