(* ===== verification/Footprints.thy ===== *)
theory Footprints
  imports Maintenance Feeds Tenant_Routes
begin

text \<open>
  Which tables each component touches, and the invariant of the whole database: every
  component's operations keep the invariants of all the others.
\<close>

section \<open>Groups of tables\<close>

definition identity_tables where
  "identity_tables st = (users st, accounts st, sessions st, verifications st, oauth_requests st)"

definition tenant_tables where
  "tenant_tables st = (apps st, organizations st, org_members st)"

definition work_tables where
  "work_tables st = (background_jobs st, webhooks st, webhook_deliveries st)"

text \<open>What is left when one group is set aside.\<close>

definition but_identity where
  "but_identity st = (tenant_tables st, api_keys st, files st, notifications st, work_tables st)"

definition but_tenants where
  "but_tenants st = (identity_tables st, api_keys st, files st, notifications st, work_tables st)"

definition but_keys where
  "but_keys st = (identity_tables st, tenant_tables st, files st, notifications st, work_tables st)"

definition but_files where
  "but_files st = (identity_tables st, tenant_tables st, api_keys st, notifications st, work_tables st)"

definition but_work where
  "but_work st = (identity_tables st, tenant_tables st, api_keys st, files st, notifications st)"

definition but_notifications where
  "but_notifications st = (identity_tables st, tenant_tables st, api_keys st, files st, work_tables st)"

lemmas table_groups = identity_tables_def tenant_tables_def work_tables_def
lemmas footprint_defs = but_identity_def but_tenants_def but_keys_def but_files_def but_work_def
  but_notifications_def table_groups

lemma audit_footprint [simp]:
  "identity_tables (record_best_effort k i u a r ri c m st) = identity_tables st"
  "tenant_tables (record_best_effort k i u a r ri c m st) = tenant_tables st"
  "work_tables (record_best_effort k i u a r ri c m st) = work_tables st"
  by (simp_all add: table_groups)

section \<open>Accounts\<close>

lemma identity_parts:
  "but_identity (revoke_sessions now w st) = but_identity st"
  "but_identity (send_verification_email cfg r t st) = but_identity st"
  "but_identity (send_password_reset_email cfg r t st) = but_identity st"
  "but_identity (record_best_effort k i ou a rs ri c m st) = but_identity st"
  "create_session P cfg now i d u ctx st = Inr (x, st') \<Longrightarrow> but_identity st' = but_identity st"
  "issue_verification_token P now i d e pu ttl st = Inr (y, st') \<Longrightarrow> but_identity st' = but_identity st"
  "consume_verification_token P now t pu st = Inr (y, st') \<Longrightarrow> but_identity st' = but_identity st"
  "register_failed_login P cfg k i ctx st = (z, st') \<Longrightarrow> but_identity st' = but_identity st"
  by (auto simp: footprint_defs revoke_sessions_def send_verification_email_def send_password_reset_email_def
      dispatch_mail_def create_session_def issue_verification_token_def consume_verification_token_def
      register_failed_login_def Let_def split: option.splits if_splits)

lemma identity_updates [simp]:
  "but_identity (st\<lparr>users := us\<rparr>) = but_identity st" "but_identity (st\<lparr>accounts := as\<rparr>) = but_identity st"
  "but_identity (st\<lparr>users := us, accounts := as\<rparr>) = but_identity st"
  "but_identity (st\<lparr>oauth_requests := os\<rparr>) = but_identity st"
  "but_identity (st\<lparr>sessions := ss\<rparr>) = but_identity st"
  by (simp_all add: footprint_defs)

lemma sign_up_footprint: "sign_up_tx P cfg k req ctx st = Inr (x, st') \<Longrightarrow> but_identity st' = but_identity st"
  by (auto simp: sign_up_tx_def Let_def and_then_Inr dest!: identity_parts(5,6) split: if_splits)

lemma auth_footprint: "but_identity (auth_step P cfg a st) = but_identity st"
proof (cases a)
  case (ASignIn k req ctx)
  then show ?thesis
    by (auto simp: sign_in_email_def Let_def identity_parts(1-4) dest: identity_parts(5-8)
        split: option.split sum.split bool.split prod.split)
next
  case (AResetPassword k t p ctx)
  then show ?thesis
    by (auto simp: reset_password_def Let_def identity_parts(1-4) dest: identity_parts(5-8) split: sum.split option.split)
qed (auto simp: sign_up_email_def refresh_session_def sign_out_def sign_out_all_def verify_email_def
      forget_password_def update_profile_def change_password_def delete_account_def Let_def identity_parts(1-4)
      dest: sign_up_footprint identity_parts(5-8)
      split: sum.split option.split bool.split prod.split)

lemma upsert_footprint: "but_identity (snd (upsert_oauth_user P cfg k pf ctx st)) = but_identity st"
proof (cases "upsert_oauth_tx P cfg k pf ctx st")
  case (Inr x)
  obtain u sid rt st' where x: "x = ((u, sid, rt), st')" by (metis surj_pair)
  obtain st1 sealed st2 where s: "oauth_user k pf st = Inr (u, st1)" "link_account k (u_id u) pf sealed st1 = Inr st2"
      "create_session P cfg (c_now k) (c_uuid k 2) (c_rand k 0) (u_id u) ctx st2 = Inr ((sid, rt), st')"
    by (rule upsert_txD [OF Inr [unfolded x]])
  from s(1) have "but_identity st1 = but_identity st" by (cases rule: oauth_user_cases) simp_all
  moreover from s(2) have "but_identity st2 = but_identity st1" by (cases rule: link_account_cases) simp_all
  ultimately have "but_identity st' = but_identity st" using identity_parts(5) [OF s(3)] by simp
  then show ?thesis
    by (simp add: upsert_oauth_user_def Inr x Let_def identity_parts(4) split: sum.split)
qed (simp add: upsert_oauth_user_def)

lemma consume_request_footprint:
  "consume_auth_request P now pn csrf st = Inr (v, st1) \<Longrightarrow> but_identity st1 = but_identity st"
  by (auto simp: consume_auth_request_def Let_def split: option.splits)

lemma account_footprint: "but_identity (oauth_step P W cfg a st) = but_identity st"
proof (cases a)
  case (OUrl p k)
  then show ?thesis using auth_url_effect [of P W cfg p k st] by auto
next
  case (OCallback p k code csrf ctx)
  then show ?thesis
    by (auto simp: callback_alt upsert_footprint dest: consume_request_footprint split: sum.split simp del: callback.simps)
next
  case (OAccount b)
  then show ?thesis by (simp add: auth_footprint)
qed

section \<open>The other components\<close>

lemma org_footprint: "but_tenants (org_step P a st) = but_tenants st"
  by (cases a)
    (auto simp: create_app_def create_org_def add_member_def Let_def footprint_defs split: option.split sum.split)

lemma key_footprint: "but_keys (key_step P a st) = but_keys st"
  by (cases a)
    (auto simp: create_key_def delete_key_def resolve_key_def Let_def footprint_defs split: option.split sum.split)

lemma insert_file_footprint: "insert_file f st = Inr st' \<Longrightarrow> but_files st' = but_files st"
  by (auto simp: insert_file_Inr footprint_defs)

lemma save_upload_footprint:
  "save_upload_field P cfg k i B u g fd v st w = (r, st', w') \<Longrightarrow> but_files st' = but_files st"
  unfolding save_upload_field_def store_upload_def Let_def
  by (auto dest!: insert_file_footprint split: sum.splits option.splits prod.splits if_splits)

lemma file_audit_footprint [simp]:
  "but_files (record_best_effort k i u a rs ri c m st) = but_files st"
  "but_files (tombstone now i st) = but_files st" "but_files (st\<lparr>files := fs\<rparr>) = but_files st"
  by (simp_all add: footprint_defs tombstone_def)

lemma upload_parts_footprint:
  "upload_parts P cfg k i B au ctx ps v g st w = (r, st', w') \<Longrightarrow> but_files st' = but_files st"
proof (induction P cfg k i B au ctx ps v g st w rule: upload_parts.induct)
  case (3 P cfg k i B au ctx p ps v g st w)
  obtain r0 st0 w0 where s: "save_upload_field P cfg k i B (au_id au) g (pt_field p) v st w = (r0, st0, w0)"
    by (metis surj_pair)
  show ?case
  proof (cases "pt_name p = Some ''file''")
    case True
    with 3(5) s have "but_files st' = but_files st0" by (cases r0) (auto simp: uploaded_audit_def)
    with save_upload_footprint [OF s] show ?thesis by simp
  next
    case False
    with 3 show ?thesis by (auto simp: Let_def split: if_splits option.splits)
  qed
qed auto

lemma presign_footprint:
  "generate_presigned_upload P cfg k B u g req st w = (r, st') \<Longrightarrow> but_files st' = but_files st"
  unfolding generate_presigned_upload_def Let_def
  by (auto dest!: insert_file_footprint split: sum.splits if_splits)

lemma complete_footprint: "complete_upload cfg now B i u role st w = (r, st', w') \<Longrightarrow> but_files st' = but_files st"
  unfolding complete_upload_def Let_def by (auto split: option.splits sum.splits if_splits)

lemma reap_each_footprint: "but_files (fst (reap_each now B xs st w)) = but_files st"
  by (induction now B xs st w rule: reap_each.induct) simp_all

lemma file_footprint: "but_files (fst (file_step V P cfg i B a (st, w))) = but_files st"
proof (cases a)
  case (UploadFile k au ctx parts)
  obtain r st' w' where "upload_parts P cfg k i B au ctx parts ''private'' None st w = (r, st', w')" by (metis surj_pair)
  with upload_parts_footprint [OF this] UploadFile show ?thesis
    by (cases "require_scope au FilesWrite") (simp_all add: upload_file_route_def)
next
  case (ReserveUpload k au req)
  obtain r st' where "generate_presigned_upload P cfg k B (au_id au) (pr_org_id req) req st w = (r, st')" by fastforce
  with presign_footprint [OF this] ReserveUpload show ?thesis
    by (cases "require_scope au FilesWrite"; cases r) (simp_all add: create_presigned_url_def)
next
  case (CompleteUpload k au ctx f)
  obtain r st' w' where "complete_upload cfg (c_now k) B f (au_id au) (au_role au) st w = (r, st', w')" by (metis surj_pair)
  with complete_footprint [OF this] CompleteUpload show ?thesis
    by (cases "require_scope au FilesWrite"; cases r) (simp_all add: complete_upload_route_def)
next
  case (DeleteFile k au ctx f)
  then show ?thesis by (auto simp: delete_file_route_def delete_file_def split: sum.splits)
next
  case (ReapAbandoned now)
  then show ?thesis by (simp add: reap_abandoned_uploads_def reap_each_footprint)
qed simp

lemma work_updates [simp]:
  "but_work (st\<lparr>background_jobs := js\<rparr>) = but_work st" "but_work (st\<lparr>webhooks := ws\<rparr>) = but_work st"
  "but_work (st\<lparr>webhook_deliveries := ds\<rparr>) = but_work st"
  "but_work (st\<lparr>webhooks := ws, webhook_deliveries := ds\<rparr>) = but_work st"
  by (simp_all add: footprint_defs)

lemma job_footprint:
  "but_work (snd (enqueue now i t p oq r m st)) = but_work st"
  "but_work (snd (poll_next_job now q w st)) = but_work st"
  "but_work (complete_job now i st) = but_work st" "but_work (fail_job now i a mx msg st) = but_work st"
  "but_work (snd (reap_old_jobs now n st)) = but_work st"
  by (auto simp: enqueue_def poll_next_job_def complete_job_def fail_job_def reap_old_jobs_def Let_def split: option.split)

lemma dispatch_footprint: "but_work (snd (dispatch_all P k e p i ws st)) = but_work st"
proof (induction P k e p i ws st rule: dispatch_all.induct)
  case (2 P k e p i w ws st)
  show ?case
  proof (cases "sql_insert delivery_clash (new_delivery_row (c_now k) (c_uuid k (2 * i)) (w_id w) e p) (webhook_deliveries st)")
    case (Some ds)
    let ?enq = "enqueue (c_now k) (c_uuid k (2 * i + 1)) ''webhook.deliver''
        (delivery_job_payload P (c_uuid k (2 * i)) w e p) (Some ''webhooks'') None (Some 5) (st\<lparr>webhook_deliveries := ds\<rparr>)"
    obtain r st1 where enq: "?enq = (r, st1)" by fastforce
    then have "but_work st1 = but_work st" using job_footprint(1) by (metis snd_conv work_updates(3))
    with Some enq 2 show ?thesis by (cases r) (auto simp: Let_def)
  qed simp
qed simp

lemma delivery_footprint: "but_work (snd (execute_delivery W P now d url sec evt p st)) = but_work st"
  by (simp add: execute_delivery_def Let_def split: sum.split prod.split)

lemma run_delivery_footprint: "but_work (run_delivery_job W P now job st) = but_work st"
proof -
  have "but_work st1 = but_work st" if "execute_delivery W P now d url sec evt p st = (r, st1)" for d url sec evt p r st1
    using delivery_footprint [of W P now d url sec evt p st] that by simp
  then show ?thesis
    by (auto simp: run_delivery_job_def job_footprint split: option.split sum.split bool.split prod.split)
qed

lemma worker_footprint: "worker_step W P now w st = Some st' \<Longrightarrow> but_work st' = but_work st"
  using job_footprint(2) [of now "''webhooks''" w st]
  by (auto simp: worker_step_def run_delivery_footprint split: prod.splits option.splits if_splits)

lemma queue_footprint: "but_work (queue_step W P a st) = but_work st"
  by (cases a)
    (auto simp: job_footprint dispatch_event_snd dispatch_footprint create_webhook_def delete_webhook_def Let_def
      dest: worker_footprint split: option.split)

lemma marks_footprint:
  "but_notifications (snd (mark_as_read u i st)) = but_notifications st"
  "but_notifications (snd (mark_all_as_read u st)) = but_notifications st"
  by (simp_all add: mark_as_read_def mark_all_as_read_def Let_def footprint_defs)

lemma expire_footprint: "but_identity (snd (reap_expired now rows st)) = but_identity st"
  by (simp add: reap_expired_def footprint_defs)

section \<open>Webhooks refer to what exists\<close>

definition webhook_inv :: "store \<Rightarrow> bool" where
  "webhook_inv st \<longleftrightarrow> no_clash webhook_clash (webhooks st) \<and> no_clash delivery_clash (webhook_deliveries st) \<and>
     w_owner_id ` set (webhooks st) \<subseteq> u_id ` set (users st) \<and>
     d_webhook_id ` set (webhook_deliveries st) \<subseteq> w_id ` set (webhooks st)"

lemma webhook_inv_cong:
  "webhook_inv st \<Longrightarrow> webhooks st' = webhooks st \<Longrightarrow> webhook_deliveries st' = webhook_deliveries st \<Longrightarrow>
   u_id ` set (users st) \<subseteq> u_id ` set (users st') \<Longrightarrow> webhook_inv st'"
  unfolding webhook_inv_def by (simp, meson subset_trans)

lemma webhook_inv_deliveries:
  assumes "webhook_inv st" "\<And>d. d_id (f d) = d_id d \<and> d_webhook_id (f d) = d_webhook_id d"
  shows "webhook_inv (st\<lparr>webhook_deliveries := sql_update w f (webhook_deliveries st)\<rparr>)"
  using assms by (auto simp: webhook_inv_def image_sql_update delivery_clash_def intro!: no_clash_update_frame)

lemma webhook_inv_jobs [simp]:
  "webhook_inv (snd (enqueue now i t p oq r m st)) = webhook_inv st"
  "webhook_inv (snd (poll_next_job now q w st)) = webhook_inv st"
  "webhook_inv (complete_job now i st) = webhook_inv st" "webhook_inv (fail_job now i a mx msg st) = webhook_inv st"
  "webhook_inv (snd (reap_old_jobs now n st)) = webhook_inv st"
  by (auto simp: webhook_inv_def enqueue_def poll_next_job_def complete_job_def fail_job_def reap_old_jobs_def Let_def
      split: option.split)

lemma enqueue_keeps_webhooks [simp]: "webhooks (snd (enqueue now i t p oq r m st)) = webhooks st"
  by (simp add: enqueue_def split: option.split)

lemma webhook_inv_dispatch:
  "webhook_inv st \<Longrightarrow> set ws \<subseteq> set (webhooks st) \<Longrightarrow> webhook_inv (snd (dispatch_all P k e p i ws st))"
proof (induction P k e p i ws st rule: dispatch_all.induct)
  case (2 P k e p i w ws st)
  show ?case
  proof (cases "sql_insert delivery_clash (new_delivery_row (c_now k) (c_uuid k (2 * i)) (w_id w) e p) (webhook_deliveries st)")
    case None
    with 2 show ?thesis by simp
  next
    case (Some ds)
    let ?st = "st\<lparr>webhook_deliveries := ds\<rparr>"
    let ?enq = "enqueue (c_now k) (c_uuid k (2 * i + 1)) ''webhook.deliver''
        (delivery_job_payload P (c_uuid k (2 * i)) w e p) (Some ''webhooks'') None (Some 5) ?st"
    have "webhook_inv ?st"
      using 2(2,3) deliveries.insert_keeps [OF _ Some] Some
      by (auto simp: webhook_inv_def sql_insert_Some new_delivery_row_def)
    then have inv: "webhook_inv (snd ?enq)" "webhooks (snd ?enq) = webhooks st" by simp_all
    obtain r st1 where enq: "?enq = (r, st1)" by fastforce
    note inv' = inv [unfolded enq snd_conv]
    with enq Some 2 show ?thesis by (cases r) (auto simp: Let_def)
  qed
qed simp

lemma webhook_inv_delivery: "webhook_inv st \<Longrightarrow> webhook_inv (snd (execute_delivery W P now d url sec evt p st))"
  by (auto simp: execute_delivery_def Let_def intro!: webhook_inv_deliveries split: sum.split prod.split)

lemma webhook_inv_run: "webhook_inv st \<Longrightarrow> webhook_inv (run_delivery_job W P now job st)"
proof -
  assume "webhook_inv st"
  then have "webhook_inv st1" if "execute_delivery W P now d url sec evt p st = (r, st1)" for d url sec evt p r st1
    using webhook_inv_delivery [of st W P now d url sec evt p] that by simp
  with \<open>webhook_inv st\<close> show ?thesis
    by (auto simp: run_delivery_job_def split: option.split sum.split bool.split prod.split)
qed

lemma webhook_inv_worker:
  assumes "webhook_inv st" "worker_step W P now w st = Some st'"
  shows "webhook_inv st'"
proof -
  obtain j st1 where p: "poll_next_job now ''webhooks'' w st = (Some j, st1)"
    "st' = (if j_job_type j = ''webhook.deliver'' then run_delivery_job W P now j st1 else st1)"
    using assms(2) by (auto simp: worker_step_def split: prod.splits option.splits)
  have "webhook_inv st1" using webhook_inv_jobs(2) [of now "''webhooks''" w st, unfolded p(1) snd_conv] assms(1) by simp
  then show ?thesis by (simp add: p(2) webhook_inv_run)
qed

lemma webhook_inv_create: "webhook_inv st \<Longrightarrow> webhook_inv (snd (create_webhook k u req st))"
  by (auto simp: create_webhook_def Let_def webhook_inv_def user_exists_iff sql_insert_Some
      intro: webhooks.insert_keeps split: option.split)

lemma webhook_inv_delete: "webhook_inv st \<Longrightarrow> webhook_inv (snd (delete_webhook i u st))"
proof -
  assume inv: "webhook_inv st"
  show ?thesis
  proof (cases "sql_count (\<lambda>x. w_id x = i \<and> w_owner_id x = u) (webhooks st) = 0")
    case False
    have "d_webhook_id ` set (sql_delete (\<lambda>d. d_webhook_id d = i) (webhook_deliveries st))
        \<subseteq> w_id ` set (sql_delete (\<lambda>x. w_id x = i \<and> w_owner_id x = u) (webhooks st))"
      using inv by (force simp: webhook_inv_def image_subset_iff)
    with inv False show ?thesis
      by (auto simp: delete_webhook_def Let_def webhook_inv_def no_clash_delete)
  qed (use inv in \<open>simp add: delete_webhook_def\<close>)
qed

lemma webhook_inv_queue: "webhook_inv st \<Longrightarrow> webhook_inv (queue_step W P a st)"
  by (cases a)
    (auto simp: dispatch_event_snd webhook_inv_create webhook_inv_delete
      intro!: webhook_inv_dispatch intro: webhook_inv_worker split: option.split)

section \<open>The database\<close>

definition database_inv :: "store \<Rightarrow> bool" where
  "database_inv st \<longleftrightarrow> oauth_inv st \<and> org_inv st \<and> key_inv st \<and> file_inv st \<and> job_inv st \<and> webhook_inv st \<and>
     no_clash notification_clash (notifications st)"

text \<open>What the whole program does to its state: one operation of one component.\<close>

datatype action =
    Account oauth_action
  | Tenant org_action
  | Key key_action
  | Files file_action
  | Queue queue_action
  | MarkRead uuid uuid
  | MarkAllRead uuid
  | Expire time

record 'b services =
  sv_ext :: ext
  sv_web :: oauth_web
  sv_http :: web
  sv_validators :: validators
  sv_config :: app_config
  sv_io :: io
  sv_backend :: "'b backend"

fun act :: "('b, 'z) services_scheme \<Rightarrow> action \<Rightarrow> store \<times> 'b world \<Rightarrow> store \<times> 'b world" where
  "act E (Account a) (st, w) = (oauth_step (sv_ext E) (sv_web E) (sv_config E) a st, w)"
| "act E (Tenant a) (st, w) = (org_step (sv_ext E) a st, w)"
| "act E (Key a) (st, w) = (key_step (sv_ext E) a st, w)"
| "act E (Files a) (st, w) = file_step (errors_message (sv_validators E)) (sv_ext E) (sv_config E) (sv_io E) (sv_backend E) a (st, w)"
| "act E (Queue a) (st, w) = (queue_step (sv_http E) (sv_ext E) a st, w)"
| "act E (MarkRead u i) (st, w) = (snd (mark_as_read u i st), w)"
| "act E (MarkAllRead u) (st, w) = (snd (mark_all_as_read u st), w)"
| "act E (Expire now) (st, w) = (snd (reap_expired now [] st), w)"

lemma history_users_grow: "history st st' \<Longrightarrow> u_id ` set (users st) \<subseteq> u_id ` set (users st')"
proof
  fix i assume "history st st'" "i \<in> u_id ` set (users st)"
  then obtain u u' where "u \<in> set (users st)" "u' \<in> set (users st')" "user_grows u u'" "i = u_id u"
    by (auto simp: history_def dest!: evolvesD)
  then show "i \<in> u_id ` set (users st')" by (metis image_eqI user_grows_def)
qed

lemma file_inv_cong: "file_inv st \<Longrightarrow> files st' = files st \<Longrightarrow> file_inv st'"
  by (simp add: file_inv_def)

lemma oauth_inv_cong: "oauth_inv st \<Longrightarrow> identity_tables st' = identity_tables st \<Longrightarrow> oauth_inv st'"
  by (simp add: oauth_inv_def identity_inv_def table_groups)

text \<open>A step that leaves all but the identity tables alone, and keeps the users there.\<close>

lemma database_inv_identity:
  assumes "database_inv st" "but_identity st' = but_identity st" "oauth_inv st'"
    and "u_id ` set (users st) \<subseteq> u_id ` set (users st')"
  shows "database_inv st'"
proof -
  note f = assms(2) [unfolded footprint_defs prod.inject]
  have "org_inv st'" by (rule org_inv_frame [OF _ _ assms(4)]) (use assms(1) f in \<open>simp_all add: database_inv_def same_orgs_def\<close>)
  moreover have "key_inv st'" by (rule key_inv_frame [OF _ _ assms(4)]) (use assms(1) f in \<open>simp_all add: database_inv_def\<close>)
  moreover have "webhook_inv st'" by (rule webhook_inv_cong [OF _ _ _ assms(4)]) (use assms(1) f in \<open>simp_all add: database_inv_def\<close>)
  moreover have "file_inv st'" "job_inv st'" "no_clash notification_clash (notifications st')"
    using assms(1) f by (simp_all add: database_inv_def file_inv_def job_inv_def)
  ultimately show ?thesis using assms(3) by (simp add: database_inv_def)
qed

lemma database_inv_account: "database_inv st \<Longrightarrow> database_inv (oauth_step P W cfg a st)"
  using oauth_step_inv [of st P W cfg a]
  by (intro database_inv_identity [OF _ account_footprint]) (simp_all add: database_inv_def history_users_grow)

lemma database_inv_expire: "database_inv st \<Longrightarrow> database_inv (snd (reap_expired now rows st))"
  by (rule database_inv_identity [OF _ expire_footprint])
    (auto simp: database_inv_def oauth_inv_def identity_inv_def reap_expired_def intro: no_clash_delete)

lemma database_inv_tenant:
  assumes "database_inv st" shows "database_inv (org_step P a st)"
proof -
  let ?st = "org_step P a st"
  note f = org_footprint [of P a st, unfolded footprint_defs prod.inject]
  have grow: "set (organizations st) \<subseteq> set (organizations ?st)" using org_step_grows [of st P a] by (simp add: orgs_grow_def)
  have "key_inv ?st" by (rule key_inv_frame [OF _ _ _ grow]) (use assms f in \<open>simp_all add: database_inv_def\<close>)
  moreover have "webhook_inv ?st" by (rule webhook_inv_cong [of st]) (use assms f in \<open>simp_all add: database_inv_def\<close>)
  ultimately show ?thesis
    using assms f org_step_inv [of st P a]
    by (simp add: database_inv_def file_inv_def job_inv_def oauth_inv_def identity_inv_def)
qed

lemma database_inv_key:
  assumes "database_inv st" shows "database_inv (key_step P a st)"
proof -
  let ?st = "key_step P a st"
  note f = key_footprint [of P a st, unfolded footprint_defs prod.inject]
  have "org_inv ?st" by (rule org_inv_frame [of st]) (use assms f in \<open>simp_all add: database_inv_def same_orgs_def\<close>)
  moreover have "webhook_inv ?st" by (rule webhook_inv_cong [of st]) (use assms f in \<open>simp_all add: database_inv_def\<close>)
  ultimately show ?thesis
    using assms f key_step_inv [of st P a]
    by (simp add: database_inv_def file_inv_def job_inv_def oauth_inv_def identity_inv_def)
qed

text \<open>A step that leaves identities, tenants and keys alone.\<close>

lemma database_inv_rest:
  assumes "database_inv st" "identity_tables st' = identity_tables st" "tenant_tables st' = tenant_tables st"
    and "api_keys st' = api_keys st" "file_inv st'" "job_inv st'" "webhook_inv st'"
    and "no_clash notification_clash (notifications st')"
  shows "database_inv st'"
proof -
  note f = assms(2,3) [unfolded table_groups prod.inject]
  have "org_inv st'" by (rule org_inv_frame [of st]) (use assms(1) f in \<open>simp_all add: database_inv_def same_orgs_def\<close>)
  moreover have "key_inv st'" by (rule key_inv_frame [of st]) (use assms(1,4) f in \<open>simp_all add: database_inv_def\<close>)
  moreover have "oauth_inv st'" using assms(1) f by (simp add: database_inv_def oauth_inv_def identity_inv_def)
  ultimately show ?thesis using assms(5-8) by (simp add: database_inv_def)
qed

lemma database_inv_files:
  assumes "database_inv st" shows "database_inv (fst (file_step V P cfg i B a (st, w)))"
proof -
  let ?st = "fst (file_step V P cfg i B a (st, w))"
  note f = file_footprint [of V P cfg i B a st w, unfolded footprint_defs prod.inject]
  have "file_inv ?st" using vault.inv_step [of "(st, w)"] assms by (simp add: database_inv_def)
  moreover have "webhook_inv ?st" by (rule webhook_inv_cong [of st]) (use assms f in \<open>simp_all add: database_inv_def\<close>)
  ultimately show ?thesis
    using assms f by (intro database_inv_rest [OF assms]) (simp_all add: table_groups database_inv_def job_inv_def)
qed

lemma database_inv_queue:
  assumes "database_inv st" shows "database_inv (queue_step W P a st)"
proof -
  note f = queue_footprint [of W P a st, unfolded footprint_defs prod.inject]
  show ?thesis
    using assms f queue_step_ok [of st W P a] webhook_inv_queue [of st W P a]
    by (intro database_inv_rest [OF assms]) (simp_all add: table_groups database_inv_def file_inv_def)
qed

lemma database_inv_marks:
  assumes "database_inv st"
  shows "database_inv (snd (mark_as_read u i st))" "database_inv (snd (mark_all_as_read u st))"
proof -
  have keep: "no_clash notification_clash (sql_update p (\<lambda>n. n\<lparr>n_read := True\<rparr>) (notifications st))" for p
    using assms by (intro no_clash_update_frame) (auto simp: database_inv_def notification_clash_def)
  have "database_inv st'" if "but_notifications st' = but_notifications st" "no_clash notification_clash (notifications st')" for st'
  proof -
    note f = that(1) [unfolded footprint_defs prod.inject]
    have "webhook_inv st'" by (rule webhook_inv_cong [of st]) (use assms f in \<open>simp_all add: database_inv_def\<close>)
    then show ?thesis
      using assms f that(2)
      by (intro database_inv_rest [OF assms]) (simp_all add: table_groups database_inv_def file_inv_def job_inv_def)
  qed
  from this [OF marks_footprint(1)] this [OF marks_footprint(2)] keep assms
  show "database_inv (snd (mark_as_read u i st))" "database_inv (snd (mark_all_as_read u st))"
    by (auto simp: mark_as_read_def mark_all_as_read_def Let_def database_inv_def split: if_splits)
qed

lemma act_inv: "database_inv (fst s) \<Longrightarrow> database_inv (fst (act E a s))"
  by (cases s; cases a)
    (simp_all add: database_inv_account database_inv_tenant database_inv_key database_inv_files database_inv_queue
      database_inv_marks database_inv_expire del: oauth_step.simps org_step.simps key_step.simps file_step.simps queue_step.simps)

interpretation actions: step_system "\<lambda>s. database_inv (fst s)" "act E" for E :: "('b, 'z) services_scheme"
  by unfold_locales (rule act_inv)

lemma database_inv_empty: "database_inv empty_store"
  by (simp add: database_inv_def oauth_inv_def) (simp add: empty_store_def file_inv_def job_inv_def webhook_inv_def)

end
