(* ===== verification/Program.thy ===== *)
theory Program
  imports Footprints Http_Layers Routes
begin

text \<open>
  The program as a whole: a request is matched against the route table, its extractors run
  in the order of the handler's arguments, and the handler of \<open>src/routes\<close> answers.  Parsing
  of bodies, queries and path captures into request types and the printing of answers are
  the framework's and serde's work and parameters, with the responses the framework gives
  where they fail.  The worker and the clean-up of \<open>src/main.rs\<close> run beside the requests.
\<close>

section \<open>Surroundings\<close>

text \<open>What an answer carries.\<close>

datatype payload =
    PAuth "auth_response api_response" | PText "string api_response" | PUser "user_response api_response"
  | PUsers "user_response list api_response" | POauthUrl "oauth_url_response api_response"
  | PApp "app_row api_response" | PApps "app_row list api_response" | POrg "org_row api_response"
  | POrgs "org_row list api_response" | PMember "member_row api_response"
  | PKeyCreated "create_api_key_response api_response" | PKeys "api_key_row list api_response"
  | PWebhookCreated "create_webhook_response api_response" | PWebhooks "webhook_row list api_response"
  | PDeliveries "delivery_row list api_response" | PNotifications "notification_row list api_response"
  | PAudit "audit_row list api_response" | PUpload "upload_response api_response"
  | PUploads "upload_response list api_response" | PReservation "presigned_upload_response api_response"
  | PSignedUrl "signed_url_response api_response" | PHealth health_response | PFile file_response | PStream uuid

type_synonym 'a body_parser = "request \<Rightarrow> http_response + 'a"
type_synonym 'a query_parser = "string \<Rightarrow> http_response + 'a"

record parsers =
  ps_id :: "uuid query_parser"
  ps_sign_up :: "sign_up_request body_parser"
  ps_sign_in :: "sign_in_request body_parser"
  ps_token :: "string body_parser" \<comment> \<open>the one field of the refresh, verification and recovery requests\<close>
  ps_reset_password :: "reset_password_request body_parser"
  ps_update_user :: "update_user_request body_parser"
  ps_change_password :: "change_password_request body_parser"
  ps_oauth_callback :: "oauth_callback_query query_parser"
  ps_create_api_key :: "create_api_key_request body_parser"
  ps_page :: "page_params query_parser"
  ps_create_app :: "create_app_request body_parser"
  ps_create_org :: "create_org_request body_parser"
  ps_add_member :: "add_org_member_request body_parser"
  ps_multipart :: "(string + part) list body_parser"
  ps_presigned :: "presigned_upload_request body_parser"
  ps_signed_access :: "signed_access_query query_parser"
  ps_cursor :: "cursor_params query_parser"
  ps_org_filter :: "uuid option query_parser"
  ps_audit_filter :: "audit_filter query_parser"
  ps_create_webhook :: "create_webhook_request body_parser"
  ps_webhook_query :: "list_webhook_query query_parser"

record 'b env = "'b services" +
  en_sso :: sso
  en_parsers :: parsers
  en_js :: json_printer
  en_print :: "nat \<Rightarrow> payload \<Rightarrow> http_response"
  en_header_ok :: "string \<Rightarrow> bool"
  en_version :: string
  en_db_up :: bool
  en_rendered :: "nat list" \<comment> \<open>the metrics registry, rendered\<close>
  en_docs :: http_response
  en_not_found :: http_response \<comment> \<open>the framework's answers to a path or method without a route\<close>
  en_method_not_allowed :: http_response

record 'b app_state =
  as_store :: store
  as_world :: "'b world"
  as_jwks :: "jwks_client option"

text \<open>A panic answers nothing: the connection closes.\<close>

datatype answer = Panicked | Answered http_response

type_synonym 'b handler = "'b app_state \<Rightarrow> answer \<times> 'b app_state"

section \<open>Answers\<close>

fun finish :: "'b env \<Rightarrow> nat \<Rightarrow> ('a \<Rightarrow> payload) \<Rightarrow> 'a result \<Rightarrow> answer" where
  "finish E status pay (Inl e) = Answered (error_response (en_js E) e)"
| "finish E status pay (Inr x) = Answered (en_print E status (pay x))"

fun finish_created :: "'b env \<Rightarrow> ('a \<Rightarrow> payload) \<Rightarrow> (nat \<times> 'a) result \<Rightarrow> answer" where
  "finish_created E pay (Inl e) = Answered (error_response (en_js E) e)"
| "finish_created E pay (Inr (status, x)) = Answered (en_print E status (pay x))"

text \<open>Handlers that read the database, write it, or work on the storage backend as well.\<close>

definition reads :: "'b env \<Rightarrow> ('a \<Rightarrow> payload) \<Rightarrow> (store \<Rightarrow> 'a result) \<Rightarrow> 'b handler" where
  "reads E pay h s = (finish E 200 pay (h (as_store s)), s)"

definition writes :: "'b env \<Rightarrow> ('a \<Rightarrow> payload) \<Rightarrow> (store \<Rightarrow> 'a result \<times> store) \<Rightarrow> 'b handler" where
  "writes E pay h s = (case h (as_store s) of (r, st) \<Rightarrow> (finish E 200 pay r, s\<lparr>as_store := st\<rparr>))"

definition creates :: "'b env \<Rightarrow> ('a \<Rightarrow> payload) \<Rightarrow> (store \<Rightarrow> (nat \<times> 'a) result \<times> store) \<Rightarrow> 'b handler" where
  "creates E pay h s = (case h (as_store s) of (r, st) \<Rightarrow> (finish_created E pay r, s\<lparr>as_store := st\<rparr>))"

section \<open>Extractors\<close>

text \<open>
  \<open>AuthUser\<close>, \<open>SessionUser\<close>, \<open>AdminUser\<close>, \<open>OptionalAuthUser\<close> and \<open>AppContext\<close> are \<open>authenticate\<close>
  with what follows it, \<open>f\<close>.
\<close>

definition extracted ::
  "'b env \<Rightarrow> call \<Rightarrow> request \<Rightarrow> (auth_user result \<Rightarrow> 'a result) \<Rightarrow> ('a \<Rightarrow> 'b handler) \<Rightarrow> 'b handler" where
  "extracted E k rq f h s =
     (case authenticate (sv_ext E) (en_sso E) (sv_config E) k rq (as_jwks s) (as_store s) of
        (r, jc, st) \<Rightarrow>
          (let s' = s\<lparr>as_store := st, as_jwks := jc\<rparr> in
           case f r of
             Inl e \<Rightarrow> (Answered (error_response (en_js E) e), s')
           | Inr x \<Rightarrow> h x s'))"

definition parsed :: "http_response + 'a \<Rightarrow> ('a \<Rightarrow> 'b handler) \<Rightarrow> 'b handler" where
  "parsed p h s = (case p of Inl resp \<Rightarrow> (Answered resp, s) | Inr x \<Rightarrow> h x s)"

definition capture :: "'b env \<Rightarrow> string list \<Rightarrow> http_response + uuid" where
  "capture E ids = ps_id (en_parsers E) (case ids of [] \<Rightarrow> [] | i # _ \<Rightarrow> i)"

text \<open>The identifier \<open>authenticate\<close> may draw is not one the handler draws again.\<close>

definition later_draws :: "call \<Rightarrow> call" where
  "later_draws k = k\<lparr>c_uuid := (\<lambda>i. c_uuid k (Suc i))\<rparr>"

section \<open>Serving an endpoint\<close>

definition moves ::
  "'b env \<Rightarrow> ('a \<Rightarrow> payload) \<Rightarrow> (store \<Rightarrow> 'b world \<Rightarrow> 'a result \<times> store \<times> 'b world) \<Rightarrow> 'b handler" where
  "moves E pay h s =
     (case h (as_store s) (as_world s) of
        (r, st, w) \<Rightarrow> (finish E 200 pay r, s\<lparr>as_store := st, as_world := w\<rparr>))"

definition moves_created ::
  "'b env \<Rightarrow> ('a \<Rightarrow> payload) \<Rightarrow> (store \<Rightarrow> 'b world \<Rightarrow> (nat \<times> 'a) result \<times> store \<times> 'b world) \<Rightarrow> 'b handler" where
  "moves_created E pay h s =
     (case h (as_store s) (as_world s) of
        (r, st, w) \<Rightarrow> (finish_created E pay r, s\<lparr>as_store := st, as_world := w\<rparr>))"

text \<open>
  The handlers with their extractors, in the order of their arguments; \<open>ids\<close> are the path's
  captures and \<open>q\<close> is the query.
\<close>

primrec serve :: "endpoint \<Rightarrow> 'b env \<Rightarrow> call \<Rightarrow> string list \<Rightarrow> request \<Rightarrow> string \<Rightarrow> 'b handler" where
  "serve HealthCheck E k ids rq q =
     (\<lambda>s. (case health_check (en_version E) (c_now k) (en_db_up E) of (status, r) \<Rightarrow>
       Answered (en_print E status (PHealth r)), s))"
| "serve Liveness E k ids rq q =
     (\<lambda>s. (Answered (en_print E 200 (PHealth (liveness (en_version E) (c_now k)))), s))"
| "serve Readiness E k ids rq q =
     (\<lambda>s. (case readiness (en_version E) (c_now k) (en_db_up E) of (status, r) \<Rightarrow>
       Answered (en_print E status (PHealth r)), s))"
| "serve PrometheusMetrics E k ids rq q =
     (\<lambda>s. (case prometheus_metrics (sv_ext E) (sv_config E) (en_rendered E) rq of Inl e
       \<Rightarrow> Answered (error_response (en_js E) e) | Inr r \<Rightarrow> Answered r, s))"
| "serve Documentation E k ids rq q =
     (\<lambda>s. (Answered (en_docs E), s))"
| "serve CreateApiKey E k ids rq q =
     extracted E k rq session_caller_auth (\<lambda>sc. parsed (ps_create_api_key (en_parsers E) rq)
       (\<lambda>p. (\<lambda>s. case create_api_key_route (sv_validators E) (sv_ext E) (later_draws k) sc
       (request_context_of (sv_config E) rq) p (as_store s) of None \<Rightarrow> (Panicked, s) | Some (r,
       st) \<Rightarrow> (finish_created E PKeyCreated r, s\<lparr>as_store := st\<rparr>))))"
| "serve ListApiKeys E k ids rq q =
     extracted E k rq session_caller_auth (\<lambda>sc. parsed (ps_page (en_parsers E) q) (\<lambda>p. reads
       E PKeys (list_api_keys sc p)))"
| "serve DeleteApiKey E k ids rq q =
     parsed (capture E ids) (\<lambda>i. extracted E k rq session_caller_auth (\<lambda>sc. writes E PText
       (delete_api_key (sv_ext E) (later_draws k) i sc (request_context_of (sv_config E) rq))))"
| "serve endpoint.CreateApp E k ids rq q =
     extracted E k rq id (\<lambda>au. parsed (ps_create_app (en_parsers E) rq) (\<lambda>p. creates E PApp
       (create_app_route (sv_validators E) (sv_ext E) (later_draws k) au (request_context_of (sv_config E)
       rq) p)))"
| "serve ListApps E k ids rq q =
     extracted E k rq id (\<lambda>au. parsed (ps_page (en_parsers E) q) (\<lambda>p. reads E PApps
       (list_apps au p)))"
| "serve GetAppDetails E k ids rq q =
     extracted E k rq Inr (\<lambda>r. reads E PApp (get_app_details (sv_ext E) rq r))"
| "serve endpoint.CreateOrg E k ids rq q =
     parsed (capture E ids) (\<lambda>i. extracted E k rq id (\<lambda>au. parsed (ps_create_org (en_parsers
       E) rq) (\<lambda>p. creates E POrg (create_org_route (sv_validators E) (sv_ext E) (later_draws k) i
       au (request_context_of (sv_config E) rq) p))))"
| "serve ListOrgs E k ids rq q =
     parsed (capture E ids) (\<lambda>i. extracted E k rq id (\<lambda>au. parsed (ps_page (en_parsers E) q)
       (\<lambda>p. reads E POrgs (list_orgs (sv_ext E) i au p))))"
| "serve AddOrgMember E k ids rq q =
     parsed (capture E ids) (\<lambda>i. extracted E k rq id (\<lambda>au. parsed (ps_add_member (en_parsers
       E) rq) (\<lambda>p. creates E PMember (add_org_member (sv_ext E) (later_draws k) i au
       (request_context_of (sv_config E) rq) p))))"
| "serve SignUpEmail E k ids rq q =
     parsed (ps_sign_up (en_parsers E) rq) (\<lambda>p. creates E PAuth (sign_up_route (sv_validators E)
       (sv_ext E) (sv_config E) k (request_context_of (sv_config E) rq) p))"
| "serve SignInEmail E k ids rq q =
     parsed (ps_sign_in (en_parsers E) rq) (\<lambda>p. writes E PAuth (sign_in_route (sv_validators E)
       (sv_ext E) (sv_config E) k (request_context_of (sv_config E) rq) p))"
| "serve Refresh E k ids rq q =
     parsed (ps_token (en_parsers E) rq) (\<lambda>p. writes E PAuth (refresh_route (sv_ext E) (sv_config E)
       k (request_context_of (sv_config E) rq) p))"
| "serve SignOut E k ids rq q =
     extracted E k rq session_caller_auth (\<lambda>sc. writes E PText (sign_out_route (sv_ext E)
       (later_draws k) sc (request_context_of (sv_config E) rq)))"
| "serve SignOutAll E k ids rq q =
     extracted E k rq session_caller_auth (\<lambda>sc. writes E PText (sign_out_all_route (later_draws k)
       sc (request_context_of (sv_config E) rq)))"
| "serve VerifyEmail E k ids rq q =
     parsed (ps_token (en_parsers E) rq) (\<lambda>p. writes E PText (verify_email_route (sv_ext E) k
       (request_context_of (sv_config E) rq) p))"
| "serve ForgetPassword E k ids rq q =
     parsed (ps_token (en_parsers E) rq) (\<lambda>p. writes E PText (forget_password_route (sv_validators
       E) (sv_ext E) (sv_config E) k p))"
| "serve ResetPassword E k ids rq q =
     parsed (ps_reset_password (en_parsers E) rq) (\<lambda>p. writes E PText (reset_password_route
       (sv_validators E) (sv_ext E) (sv_config E) k (request_context_of (sv_config E) rq) p))"
| "serve GetSession E k ids rq q =
     extracted E k rq id (\<lambda>au. reads E PUser (get_session_route au))"
| "serve UpdateUser E k ids rq q =
     extracted E k rq id (\<lambda>au. parsed (ps_update_user (en_parsers E) rq) (\<lambda>p. writes E PUser
       (auth_update_user (sv_validators E) (later_draws k) au p)))"
| "serve ChangePassword E k ids rq q =
     extracted E k rq session_caller_auth (\<lambda>sc. parsed (ps_change_password (en_parsers E) rq)
       (\<lambda>p. writes E PText (auth_change_password (sv_validators E) (sv_ext E) (sv_config E)
       (later_draws k) sc (request_context_of (sv_config E) rq) p)))"
| "serve DeleteUser E k ids rq q =
     extracted E k rq session_caller_auth (\<lambda>sc. writes E PText (auth_delete_user (sv_ext E)
       (later_draws k) sc (request_context_of (sv_config E) rq)))"
| "serve GoogleAuth E k ids rq q =
     writes E POauthUrl (google_auth (sv_ext E) (sv_web E) (sv_config E) k)"
| "serve GoogleCallback E k ids rq q =
     parsed (ps_oauth_callback (en_parsers E) q) (\<lambda>p. writes E PAuth (google_callback (sv_ext E)
       (sv_web E) (sv_config E) k (request_context_of (sv_config E) rq) p))"
| "serve GithubAuth E k ids rq q =
     writes E POauthUrl (github_auth (sv_ext E) (sv_web E) (sv_config E) k)"
| "serve GithubCallback E k ids rq q =
     parsed (ps_oauth_callback (en_parsers E) q) (\<lambda>p. writes E PAuth (github_callback (sv_ext E)
       (sv_web E) (sv_config E) k (request_context_of (sv_config E) rq) p))"
| "serve GetMe E k ids rq q =
     extracted E k rq id (\<lambda>au. reads E PUser (get_me au))"
| "serve UpdateMe E k ids rq q =
     extracted E k rq id (\<lambda>au. parsed (ps_update_user (en_parsers E) rq) (\<lambda>p. writes E PUser
       (update_me (sv_validators E) (later_draws k) au p)))"
| "serve UsersChangePassword E k ids rq q =
     extracted E k rq session_caller_auth (\<lambda>sc. parsed (ps_change_password (en_parsers E) rq)
       (\<lambda>p. writes E PText (users_change_password (sv_validators E) (sv_ext E) (sv_config E)
       (later_draws k) sc (request_context_of (sv_config E) rq) p)))"
| "serve DeleteMe E k ids rq q =
     extracted E k rq session_caller_auth (\<lambda>sc. writes E PText (delete_me (sv_ext E) (later_draws k)
       sc (request_context_of (sv_config E) rq)))"
| "serve ListUsers E k ids rq q =
     extracted E k rq admin_auth (\<lambda>ad. parsed (ps_page (en_parsers E) q) (\<lambda>p. reads E PUsers
       (list_users ad p)))"
| "serve endpoint.UploadFile E k ids rq q =
     extracted E k rq id (\<lambda>au. parsed (ps_multipart (en_parsers E) rq) (\<lambda>p. moves_created E
       PUpload (upload_file_route (sv_ext E) (sv_config E) (later_draws k) (sv_io E) (sv_backend E) au
       (request_context_of (sv_config E) rq) p)))"
| "serve CreatePresignedUrl E k ids rq q =
     extracted E k rq id (\<lambda>au. parsed (ps_presigned (en_parsers E) rq) (\<lambda>p. moves E
       PReservation (\<lambda>st w. case create_presigned_url (errors_message (sv_validators E)) (sv_ext E)
       (sv_config E) (later_draws k) (sv_backend E) au p st w of (r, st1) \<Rightarrow> (r, st1, w))))"
| "serve UploadSigned E k ids rq q =
     parsed (ps_signed_access (en_parsers E) q) (\<lambda>p. moves E PText (\<lambda>st w. case
       upload_signed (sv_ext E) (sv_config E) (c_now k) (sv_backend E) p (rq_body rq) st w of (r, w1)
       \<Rightarrow> (r, st, w1)))"
| "serve endpoint.CompleteUpload E k ids rq q =
     extracted E k rq id (\<lambda>au. parsed (capture E ids) (\<lambda>i. moves E PUpload
       (complete_upload_route (sv_ext E) (sv_config E) (later_draws k) (sv_backend E) au (request_context_of
       (sv_config E) rq) i)))"
| "serve CreateSignedDownloadUrl E k ids rq q =
     extracted E k rq id (\<lambda>au. parsed (capture E ids) (\<lambda>i. (\<lambda>s. reads E PSignedUrl
       (\<lambda>st. create_signed_download_url (sv_ext E) (sv_config E) (c_now k) (sv_backend E) au i st
       (as_world s)) s)))"
| "serve ListOrgFiles E k ids rq q =
     extracted E k rq id (\<lambda>au. parsed (capture E ids) (\<lambda>i. parsed (ps_page (en_parsers E) q)
       (\<lambda>p. reads E PUploads (list_org_files_route page_meta_json (sv_ext E) au i p))))"
| "serve GetFile E k ids rq q =
     extracted E k rq (\<lambda>r. Inr (optional_auth r)) (\<lambda>viewer. parsed (capture E ids)
       (\<lambda>i. parsed (ps_signed_access (en_parsers E) q) (\<lambda>p. (\<lambda>s. reads E PFile
       (\<lambda>st. get_file (en_header_ok E) (sv_ext E) (sv_config E) (c_now k) (sv_backend E) viewer i p
       st (as_world s)) s))))"
| "serve endpoint.DeleteFile E k ids rq q =
     extracted E k rq id (\<lambda>au. parsed (capture E ids) (\<lambda>i. moves E PText (delete_file_route
       (sv_ext E) (later_draws k) (sv_backend E) au (request_context_of (sv_config E) rq) i)))"
| "serve ListNotifications E k ids rq q =
     extracted E k rq id (\<lambda>au. parsed (ps_cursor (en_parsers E) q) (\<lambda>p. parsed
       (ps_org_filter (en_parsers E) q) (\<lambda>g. reads E PNotifications (list_notifications (sv_ext E)
       au p g))))"
| "serve MarkNotificationRead E k ids rq q =
     extracted E k rq id (\<lambda>au. parsed (capture E ids) (\<lambda>i. writes E PText
       (mark_notification_read au i)))"
| "serve MarkAllNotificationsRead E k ids rq q =
     extracted E k rq id (\<lambda>au. writes E PText (mark_all_notifications_read au))"
| "serve SseStream E k ids rq q =
     extracted E k rq id (\<lambda>au. (\<lambda>s. (Answered (en_print E 200 (PStream (au_id au))), s)))"
| "serve ListAuditLogs E k ids rq q =
     extracted E k rq admin_auth (\<lambda>ad. parsed (ps_cursor (en_parsers E) q) (\<lambda>p. parsed
       (ps_audit_filter (en_parsers E) q) (\<lambda>f. reads E PAudit (list_audit_logs (sv_ext E) ad p f))))"
| "serve CreateWebhook E k ids rq q =
     extracted E k rq id (\<lambda>au. parsed (ps_create_webhook (en_parsers E) rq) (\<lambda>p. creates E
       PWebhookCreated (create_webhook_route (sv_validators E) (later_draws k) au p)))"
| "serve ListWebhooks E k ids rq q =
     extracted E k rq id (\<lambda>au. parsed (ps_webhook_query (en_parsers E) q) (\<lambda>p. reads E
       PWebhooks (list_webhooks_route au p)))"
| "serve DeleteWebhook E k ids rq q =
     extracted E k rq id (\<lambda>au. parsed (capture E ids) (\<lambda>i. writes E PText
       (delete_webhook_route au i)))"
| "serve ListDeliveries E k ids rq q =
     extracted E k rq id (\<lambda>au. parsed (capture E ids) (\<lambda>i. reads E PDeliveries
       (list_deliveries_route au i)))"

text \<open>A request, its query apart, through the route table.\<close>

definition handle_request :: "'b env \<Rightarrow> call \<Rightarrow> request \<Rightarrow> string \<Rightarrow> 'b handler" where
  "handle_request E k rq q =
     (case route (rq_method rq) (rq_path rq) of
        Unrouted \<Rightarrow> (\<lambda>s. (Answered (en_not_found E), s))
      | MethodNotAllowed \<Rightarrow> (\<lambda>s. (Answered (en_method_not_allowed E), s))
      | Routed e ids \<Rightarrow> serve e E k ids rq q)"

section \<open>What a handler may do\<close>

text \<open>A password that passed the strength rule.\<close>

definition strong :: "string \<Rightarrow> bool" where
  "strong p \<longleftrightarrow> validate_password_strength p = Inr ()"

text \<open>Operations that set a password set a strong one.\<close>

fun sound_action :: "action \<Rightarrow> bool" where
  "sound_action (Account (OAccount (ASignUp k req ctx))) = strong (su_password req)"
| "sound_action (Account (OAccount (AResetPassword k t p ctx))) = strong p"
| "sound_action (Account (OAccount (AChangePassword k u sid c p ctx))) = strong p"
| "sound_action _ = True"

text \<open>What is left to a caller that is no person: no credential is issued, changed or revoked.\<close>

fun machine_action :: "action \<Rightarrow> bool" where
  "machine_action (Account (OAccount (AUpdateProfile k u req))) = True"
| "machine_action (Account _) = False"
| "machine_action (Key (ResolveKey k raw)) = True"
| "machine_action (Key _) = False"
| "machine_action (Queue (Subscribe k u req)) = True"
| "machine_action (Queue (Unsubscribe i u)) = True"
| "machine_action (Queue _) = False"
| "machine_action (Expire now) = False"
| "machine_action _ = True"

definition performs :: "'b env \<Rightarrow> nat \<Rightarrow> (action \<Rightarrow> bool) \<Rightarrow> 'b handler \<Rightarrow> bool" where
  "performs E n A h \<longleftrightarrow> (\<forall>s. \<exists>as. length as \<le> n \<and> list_all A as \<and>
     (as_store (snd (h s)), as_world (snd (h s))) = fold (act E) as (as_store s, as_world s))"

lemma performsI:
  "(\<And>s. \<exists>as. length as \<le> n \<and> list_all A as \<and>
     (as_store (snd (h s)), as_world (snd (h s))) = fold (act E) as (as_store s, as_world s)) \<Longrightarrow> performs E n A h"
  by (simp add: performs_def)

lemma performs_none: "(\<And>s. as_store (snd (h s)) = as_store s \<and> as_world (snd (h s)) = as_world s) \<Longrightarrow> performs E n A h"
  by (rule performsI, rule exI [of _ "[]"]) simp

lemma performs_mono: "performs E m A h \<Longrightarrow> m \<le> n \<Longrightarrow> performs E n A h"
  unfolding performs_def by (meson le_trans)

lemma performs_reads: "performs E n A (reads E pay h)"
  by (rule performs_none) (simp add: reads_def)

lemma performs_parsed: "(\<And>x. performs E n A (h x)) \<Longrightarrow> performs E n A (parsed p h)"
proof (cases p)
  case (Inl resp)
  show ?thesis by (rule performs_none) (simp add: parsed_def Inl)
next
  case (Inr x)
  then have "parsed p h = h x" by (simp add: parsed_def fun_eq_iff)
  moreover assume "\<And>x. performs E n A (h x)"
  ultimately show ?thesis by simp
qed

text \<open>A handler whose effect on the store is one operation, if any.\<close>

definition one_of :: "'b env \<Rightarrow> (action \<Rightarrow> bool) \<Rightarrow> (store \<Rightarrow> 'r \<times> store) \<Rightarrow> bool" where
  "one_of E A h \<longleftrightarrow> (\<forall>st w. snd (h st) = st \<or> (\<exists>a. A a \<and> act E a (st, w) = (snd (h st), w)))"

lemma performs_one:
  fixes E :: "'b env"
  assumes "one_of E A h" "\<And>s. as_store (snd (g s)) = snd (h (as_store s)) \<and> as_world (snd (g s)) = as_world s"
  shows "performs E 1 A g"
proof (rule performsI)
  fix s :: "'b app_state"
  consider "snd (h (as_store s)) = as_store s"
    | a where "A a" "act E a (as_store s, as_world s) = (snd (h (as_store s)), as_world s)"
    using assms(1) unfolding one_of_def by blast
  then show "\<exists>as. length as \<le> 1 \<and> list_all A as \<and>
     (as_store (snd (g s)), as_world (snd (g s))) = fold (act E) as (as_store s, as_world s)"
  proof cases
    case 1
    then show ?thesis using assms(2) by (intro exI [of _ "[]"]) simp
  next
    case (2 a)
    then show ?thesis using assms(2) by (intro exI [of _ "[a]"]) simp
  qed
qed

lemma performs_writes: "one_of E A h \<Longrightarrow> performs E 1 A (writes E pay h)"
  by (erule performs_one) (simp add: writes_def split: prod.split)

lemma performs_creates: "one_of E A h \<Longrightarrow> performs E 1 A (creates E pay h)"
  by (erule performs_one) (simp add: creates_def split: prod.split)

lemma one_of_reply [simp]:
  "one_of E A (\<lambda>st. reply (h st)) = one_of E A h" "one_of E A (\<lambda>st. reply_created (h st)) = one_of E A h"
  by (simp_all add: one_of_def)

lemma one_of_guarded: "(g = Inr () \<Longrightarrow> one_of E A h) \<Longrightarrow> one_of E A (guarded g h)"
  by (cases g) (auto simp: guarded_def one_of_def)

lemma one_ofI: "(\<And>st w. act E a (st, w) = (snd (h st), w)) \<Longrightarrow> A a \<Longrightarrow> one_of E A h"
  by (auto simp: one_of_def)

text \<open>The same for handlers that work on the storage backend.\<close>

lemma performs_moves:
  fixes E :: "'b env"
  assumes "A a" "\<And>st w. act E a (st, w) = snd (h st w)"
  shows "performs E 1 A (moves E pay h)"
proof (rule performsI)
  fix s :: "'b app_state"
  show "\<exists>as. length as \<le> 1 \<and> list_all A as \<and>
     (as_store (snd (moves E pay h s)), as_world (snd (moves E pay h s))) = fold (act E) as (as_store s, as_world s)"
    using assms by (intro exI [of _ "[a]"]) (simp add: moves_def split: prod.split)
qed

lemma performs_moves_created:
  fixes E :: "'b env"
  assumes "A a" "\<And>st w. act E a (st, w) = snd (h st w)"
  shows "performs E 1 A (moves_created E pay h)"
proof (rule performsI)
  fix s :: "'b app_state"
  show "\<exists>as. length as \<le> 1 \<and> list_all A as \<and> (as_store (snd (moves_created E pay h s)),
      as_world (snd (moves_created E pay h s))) = fold (act E) as (as_store s, as_world s)"
    using assms by (intro exI [of _ "[a]"]) (simp add: moves_created_def split: prod.split)
qed

text \<open>Authentication touches a key or nothing.\<close>

lemma resolve_key_effect: "resolve_key P k raw st = (Inl e, st') \<Longrightarrow> st' = st"
  by (simp add: resolve_key_def Let_def split: sum.splits prod.splits)

lemma authenticate_effect:
  assumes "authenticate P S cfg k rq jc st = (r, jc', st')"
  shows "st' = st \<or> (\<exists>raw. st' = key_step P (ResolveKey k raw) st)" and "r = Inl e \<Longrightarrow> st' = st"
proof -
  consider raw where "header_str ''x-api-key'' rq = Some raw" | "header_str ''x-api-key'' rq = None" by auto
  then have "(st' = st \<or> (\<exists>raw. st' = key_step P (ResolveKey k raw) st)) \<and> (r = Inl e \<longrightarrow> st' = st)"
  proof cases
    case (1 raw)
    obtain x st1 where r: "resolve_key P k raw st = (x, st1)" by fastforce
    with 1 assms have s: "st' = st1" "r = Inl e \<longrightarrow> x = Inl e"
      by (auto simp: authenticate_def split: sum.splits)
    have "st' = key_step P (ResolveKey k raw) st" by (simp add: r s(1))
    moreover have "r = Inl e \<longrightarrow> st' = st" using r s resolve_key_effect [of P k raw st e st1] by auto
    ultimately show ?thesis by blast
  next
    case 2
    with assms show ?thesis by (auto simp: authenticate_def split: option.splits sum.splits prod.splits)
  qed
  then show "st' = st \<or> (\<exists>raw. st' = key_step P (ResolveKey k raw) st)" "r = Inl e \<Longrightarrow> st' = st" by simp_all
qed

lemma performs_extracted:
  fixes E :: "'b env"
  assumes "\<And>x r. f r = Inr x \<Longrightarrow> performs E n A (h x)" "\<And>raw. A (Key (ResolveKey k raw))"
  shows "performs E (Suc n) A (extracted E k rq f h)"
proof (rule performsI)
  fix s :: "'b app_state"
  obtain r jc st where a: "authenticate (sv_ext E) (en_sso E) (sv_config E) k rq (as_jwks s) (as_store s) = (r, jc, st)"
    by (metis surj_pair)
  obtain pre where pre: "length pre \<le> 1" "list_all A pre" "(st, as_world s) = fold (act E) pre (as_store s, as_world s)"
  proof (cases "st = as_store s")
    case True
    then show ?thesis by (intro that [of "[]"]) simp_all
  next
    case False
    then obtain raw where "st = key_step (sv_ext E) (ResolveKey k raw) (as_store s)"
      using authenticate_effect(1) [OF a] by blast
    then show ?thesis using assms(2) by (intro that [of "[Key (ResolveKey k raw)]"]) simp_all
  qed
  let ?s = "s\<lparr>as_store := st, as_jwks := jc\<rparr>"
  show "\<exists>as. length as \<le> Suc n \<and> list_all A as \<and> (as_store (snd (extracted E k rq f h s)),
      as_world (snd (extracted E k rq f h s))) = fold (act E) as (as_store s, as_world s)"
  proof (cases "f r")
    case (Inl e)
    then show ?thesis using pre by (intro exI [of _ pre]) (simp add: extracted_def a Let_def)
  next
    case (Inr x)
    from spec [OF assms(1) [OF this, unfolded performs_def], of ?s]
    obtain as where as: "length as \<le> n" "list_all A as"
      "(as_store (snd (h x ?s)), as_world (snd (h x ?s))) = fold (act E) as (st, as_world s)" by auto
    then show ?thesis using pre Inr by (intro exI [of _ "pre @ as"]) (simp add: extracted_def a Let_def)
  qed
qed

text \<open>A person's handler is out of reach with an API key.\<close>

lemma authenticate_with_key:
  assumes "header_str ''x-api-key'' rq = Some raw" "fst (authenticate P S cfg k rq jc st) = Inr au"
  shows "session_caller_auth (Inr au) \<noteq> Inr sc"
proof (cases "resolve_key_row P (c_now k) raw st")
  case (Inr x)
  obtain u r where "x = (u, r)" by (cases x)
  with Inr assms have "au_credential au = ApiKey (k_id r) (scope_from_stored (k_scopes r))"
    by (auto simp: authenticate_key)
  then show ?thesis by (simp add: session_caller_auth_def and_then_Inr cred_session_id_def)
qed (use assms in \<open>simp add: authenticate_key\<close>)

lemma performs_person_with_key:
  fixes E :: "'b env"
  assumes "header_str ''x-api-key'' rq = Some raw" "\<And>raw. A (Key (ResolveKey k raw))"
  shows "performs E (Suc n) A (extracted E k rq session_caller_auth h)"
proof -
  have "extracted E k rq session_caller_auth h = extracted E k rq session_caller_auth (\<lambda>_ s. (Panicked, s))"
  proof (rule ext)
    fix s :: "'b app_state"
    obtain r jc st where a: "authenticate (sv_ext E) (en_sso E) (sv_config E) k rq (as_jwks s) (as_store s) = (r, jc, st)"
      by (metis surj_pair)
    have "session_caller_auth r \<noteq> Inr sc" for sc
    proof (cases r)
      case (Inr au)
      with authenticate_with_key [OF assms(1), of "sv_ext E" "en_sso E" "sv_config E" k "as_jwks s" "as_store s"] a
      show ?thesis by simp
    qed (simp add: session_caller_auth_def)
    then obtain e where "session_caller_auth r = Inl e" by (cases "session_caller_auth r") auto
    then show "extracted E k rq session_caller_auth h s = extracted E k rq session_caller_auth (\<lambda>_ s. (Panicked, s)) s"
      by (simp add: extracted_def a Let_def)
  qed
  then show ?thesis
    by (simp only:) (rule performs_extracted, rule performs_none, simp, rule assms(2))
qed


section \<open>The routes one by one\<close>

lemma validatedD: "validated V errs = Inr () \<Longrightarrow> errs = []"
  by (simp add: validated_def split: if_splits)

lemma one_sign_up:
  "(strong (su_password p) \<Longrightarrow> A (Account (OAccount (ASignUp k p ctx)))) \<Longrightarrow>
   one_of E A (sign_up_route V (sv_ext E) (sv_config E) k ctx p)"
  unfolding sign_up_route_def
  by (rule one_of_guarded)
    (auto simp: validate_sign_up_def strength_errors_Nil strong_def dest!: validatedD
      intro!: one_ofI [of E "Account (OAccount (ASignUp k p ctx))"])

lemma one_sign_in:
  "A (Account (OAccount (ASignIn k p ctx))) \<Longrightarrow> one_of E A (sign_in_route V (sv_ext E) (sv_config E) k ctx p)"
  unfolding sign_in_route_def
  by (rule one_of_guarded) (auto intro!: one_ofI [of E "Account (OAccount (ASignIn k p ctx))"])

lemma one_refresh:
  "A (Account (OAccount (ARefresh k t ctx))) \<Longrightarrow> one_of E A (refresh_route (sv_ext E) (sv_config E) k ctx t)"
  by (rule one_ofI [of E "Account (OAccount (ARefresh k t ctx))"]) (simp_all add: refresh_route_def)

lemma one_sign_out:
  "A (Account (OAccount (ASignOut k (sc_id sc) (sc_session_id sc) ctx))) \<Longrightarrow> one_of E A (sign_out_route (sv_ext E) k sc ctx)"
  "A (Account (OAccount (ASignOutAll k (sc_id sc) ctx))) \<Longrightarrow> one_of E A (sign_out_all_route k sc ctx)"
  by (rule one_ofI, simp_all add: sign_out_route_def sign_out_all_route_def)+

lemma one_verify_email:
  "A (Account (OAccount (AVerifyEmail k t ctx))) \<Longrightarrow> one_of E A (verify_email_route (sv_ext E) k ctx t)"
  by (rule one_ofI [of E "Account (OAccount (AVerifyEmail k t ctx))"]) (simp_all add: verify_email_route_def)

lemma one_forget_password:
  "A (Account (OAccount (AForgetPassword k m))) \<Longrightarrow>
   one_of E A (forget_password_route V (sv_ext E) (sv_config E) k m)"
  unfolding forget_password_route_def
  by (rule one_of_guarded) (auto intro!: one_ofI [of E "Account (OAccount (AForgetPassword k m))"])

lemma one_reset_password:
  "(strong (rp_new_password p) \<Longrightarrow> A (Account (OAccount (AResetPassword k (rp_token p) (rp_new_password p) ctx)))) \<Longrightarrow>
   one_of E A (reset_password_route V (sv_ext E) (sv_config E) k ctx p)"
  unfolding reset_password_route_def
  by (rule one_of_guarded)
    (auto simp: validate_reset_password_def strength_errors_Nil strong_def dest!: validatedD
      intro!: one_ofI [of E "Account (OAccount (AResetPassword k (rp_token p) (rp_new_password p) ctx))"])

lemma one_update_user:
  assumes "A (Account (OAccount (AUpdateProfile k (au_id au) p)))"
  shows "one_of E A (auth_update_user V k au p)" "one_of E A (update_me V k au p)"
  unfolding auth_update_user_def update_me_def
  by (rule one_of_guarded | rule one_ofI [of E "Account (OAccount (AUpdateProfile k (au_id au) p))"] | simp add: assms)+

lemma one_change_password:
  assumes "strong (cp_new_password p) \<Longrightarrow>
    A (Account (OAccount (AChangePassword k (sc_id sc) (sc_session_id sc) (cp_current_password p) (cp_new_password p) ctx)))"
  shows "one_of E A (auth_change_password V (sv_ext E) (sv_config E) k sc ctx p)"
    "one_of E A (users_change_password V (sv_ext E) (sv_config E) k sc ctx p)"
proof -
  show "one_of E A (auth_change_password V (sv_ext E) (sv_config E) k sc ctx p)"
    unfolding auth_change_password_def
    by (rule one_of_guarded)
      (use assms in \<open>auto simp: validate_change_password_def strength_errors_Nil strong_def dest!: validatedD
        intro!: one_ofI [of E "Account (OAccount (AChangePassword k (sc_id sc) (sc_session_id sc) (cp_current_password p)
          (cp_new_password p) ctx))"]\<close>)
  then show "one_of E A (users_change_password V (sv_ext E) (sv_config E) k sc ctx p)"
    by (simp add: users_change_password_def auth_change_password_def)
qed

lemma one_delete_account:
  assumes "A (Account (OAccount (ADeleteAccount k (sc_id sc) ctx)))"
  shows "one_of E A (auth_delete_user (sv_ext E) k sc ctx)" "one_of E A (delete_me (sv_ext E) k sc ctx)"
proof -
  show "one_of E A (auth_delete_user (sv_ext E) k sc ctx)"
    using one_ofI [of E "Account (OAccount (ADeleteAccount k (sc_id sc) ctx))" "auth_delete_user (sv_ext E) k sc ctx" A] assms
    by (simp add: auth_delete_user_def)
  show "one_of E A (delete_me (sv_ext E) k sc ctx)"
    using one_ofI [of E "Account (OAccount (ADeleteAccount k (sc_id sc) ctx))" "delete_me (sv_ext E) k sc ctx" A] assms
    by (simp add: delete_me_def)
qed

lemma one_social_url:
  "A (Account (OUrl Google k)) \<Longrightarrow> one_of E A (google_auth (sv_ext E) (sv_web E) (sv_config E) k)"
  "A (Account (OUrl Github k)) \<Longrightarrow> one_of E A (github_auth (sv_ext E) (sv_web E) (sv_config E) k)"
  using one_ofI [of E "Account (OUrl Google k)" "google_auth (sv_ext E) (sv_web E) (sv_config E) k" A]
    one_ofI [of E "Account (OUrl Github k)" "github_auth (sv_ext E) (sv_web E) (sv_config E) k" A]
  by (simp_all add: google_auth_def github_auth_def)

lemma one_social_callback:
  "A (Account (OCallback Google k (oq_code p) (oq_state p) ctx)) \<Longrightarrow>
     one_of E A (google_callback (sv_ext E) (sv_web E) (sv_config E) k ctx p)"
  "A (Account (OCallback Github k (oq_code p) (oq_state p) ctx)) \<Longrightarrow>
     one_of E A (github_callback (sv_ext E) (sv_web E) (sv_config E) k ctx p)"
  using one_ofI [of E "Account (OCallback Google k (oq_code p) (oq_state p) ctx)"
      "google_callback (sv_ext E) (sv_web E) (sv_config E) k ctx p" A]
    one_ofI [of E "Account (OCallback Github k (oq_code p) (oq_state p) ctx)"
      "github_callback (sv_ext E) (sv_web E) (sv_config E) k ctx p" A]
  by (simp_all add: google_callback_def github_callback_def)

lemma one_create_app:
  "A (Tenant (org_action.CreateApp k (au_id au) a ctx)) \<Longrightarrow> one_of E A (create_app_route V (sv_ext E) k au ctx a)"
  unfolding create_app_route_def
  by (intro one_of_guarded) (auto intro!: one_ofI [of E "Tenant (org_action.CreateApp k (au_id au) a ctx)"])

lemma one_create_org:
  "A (Tenant (org_action.CreateOrg k i (au_id au) g ctx)) \<Longrightarrow> one_of E A (create_org_route V (sv_ext E) k i au ctx g)"
  unfolding create_org_route_def
  by (intro one_of_guarded) (auto intro!: one_ofI [of E "Tenant (org_action.CreateOrg k i (au_id au) g ctx)"])

lemma one_add_member:
  "A (Tenant (AddMember k i (au_id au) m ctx)) \<Longrightarrow> one_of E A (add_org_member (sv_ext E) k i au ctx m)"
  unfolding add_org_member_def
  by (intro one_of_guarded) (auto intro!: one_ofI [of E "Tenant (AddMember k i (au_id au) m ctx)"])

lemma one_key_deletion:
  "A (Key (DeleteKey k i (sc_id sc) ctx)) \<Longrightarrow> one_of E A (delete_api_key (sv_ext E) k i sc ctx)"
  by (rule one_ofI [of E "Key (DeleteKey k i (sc_id sc) ctx)"])
    (simp_all add: delete_api_key_def split: prod.split sum.split)

lemma one_webhook:
  "A (Queue (Subscribe k (au_id au) p)) \<Longrightarrow> one_of E A (create_webhook_route V k au p)"
  "A (Queue (Unsubscribe i (au_id au))) \<Longrightarrow> one_of E A (delete_webhook_route au i)"
proof -
  show "A (Queue (Subscribe k (au_id au) p)) \<Longrightarrow> one_of E A (create_webhook_route V k au p)"
    unfolding create_webhook_route_def
    by (rule one_of_guarded) (auto intro!: one_ofI [of E "Queue (Subscribe k (au_id au) p)"])
  show "A (Queue (Unsubscribe i (au_id au))) \<Longrightarrow> one_of E A (delete_webhook_route au i)"
    by (rule one_ofI [of E "Queue (Unsubscribe i (au_id au))"])
      (simp_all add: delete_webhook_route_def split: prod.split sum.split)
qed

lemma one_mark:
  "A (MarkRead (au_id au) i) \<Longrightarrow> one_of E A (mark_notification_read au i)"
  unfolding one_of_def mark_notification_read_def
  by (auto split: sum.split prod.split intro!: exI [of _ "MarkRead (au_id au) i"])

lemma one_mark_all: "A (MarkAllRead (au_id au)) \<Longrightarrow> one_of E A (mark_all_notifications_read au)"
  unfolding one_of_def mark_all_notifications_read_def
  by (auto split: sum.split prod.split intro!: exI [of _ "MarkAllRead (au_id au)"])

lemmas one_route = one_sign_up one_sign_in one_refresh one_sign_out one_verify_email one_forget_password
  one_reset_password one_update_user one_change_password one_delete_account one_social_url one_social_callback
  one_create_app one_create_org one_add_member one_key_deletion one_webhook one_mark one_mark_all

lemma performs_key_creation:
  assumes "A (Key (CreateKey k (sc_id sc) p ctx))"
  shows "performs E (Suc n) A (\<lambda>s. case create_api_key_route V (sv_ext E) k sc ctx p (as_store s) of
      None \<Rightarrow> (Panicked, s) | Some (r, st) \<Rightarrow> (finish_created E PKeyCreated r, s\<lparr>as_store := st\<rparr>))"
    (is "performs E _ A ?h")
proof -
  have "one_of E A (\<lambda>st. case create_api_key_route V (sv_ext E) k sc ctx p st of None \<Rightarrow> (Inl (), st) | Some (r, st1) \<Rightarrow> (Inr r, st1))"
    unfolding one_of_def create_api_key_route_def
    using assms by (auto split: sum.split option.split prod.split intro!: exI [of _ "Key (CreateKey k (sc_id sc) p ctx)"]
        simp: reply_created_def)
  then have "performs E 1 A ?h" by (rule performs_one) (auto split: option.split prod.split)
  then show ?thesis by (rule performs_mono) simp
qed

lemma performs_files:
  "A (Files (file_action.UploadFile k au ctx ps)) \<Longrightarrow>
     performs E (Suc n) A (moves_created E pay (upload_file_route (sv_ext E) (sv_config E) k (sv_io E) (sv_backend E) au ctx ps))"
  "A (Files (ReserveUpload k au p)) \<Longrightarrow> performs E (Suc n) A (moves E pay2
     (\<lambda>st w. case create_presigned_url (errors_message (sv_validators E)) (sv_ext E) (sv_config E) k (sv_backend E) au p st w of
        (r, st1) \<Rightarrow> (r, st1, w)))"
  "A (Files (PutSigned now aq body)) \<Longrightarrow> performs E (Suc n) A (moves E pay3
     (\<lambda>st w. case upload_signed (sv_ext E) (sv_config E) now (sv_backend E) aq body st w of (r, w1) \<Rightarrow> (r, st, w1)))"
  "A (Files (file_action.CompleteUpload k au ctx i)) \<Longrightarrow>
     performs E (Suc n) A (moves E pay4 (complete_upload_route (sv_ext E) (sv_config E) k (sv_backend E) au ctx i))"
  "A (Files (file_action.DeleteFile k au ctx i)) \<Longrightarrow>
     performs E (Suc n) A (moves E pay5 (delete_file_route (sv_ext E) k (sv_backend E) au ctx i))"
  by (rule performs_mono, erule performs_moves_created performs_moves, simp_all split: prod.split)+

lemma performs_stores:
  "one_of E A h \<Longrightarrow> performs E (Suc n) A (writes E pay h)"
  "one_of E A g \<Longrightarrow> performs E (Suc n) A (creates E pay2 g)"
  by (rule performs_mono [OF performs_writes], assumption, simp) (rule performs_mono [OF performs_creates], assumption, simp)

lemma performs_answer: "performs E n A (\<lambda>s. (f s, s))"
  by (rule performs_none) simp

lemma performs_reads_world: "performs E n A (\<lambda>s. reads E pay (h s) s)"
  by (rule performs_none) (simp add: reads_def)

lemmas performs_intros = performs_parsed performs_extracted performs_reads performs_reads_world performs_answer
  performs_stores performs_key_creation performs_files one_route

text \<open>The handlers anyone reaches, with no credential or with one they look for themselves.\<close>

definition public_endpoints :: "endpoint list" where
  "public_endpoints = [HealthCheck, Liveness, Readiness, PrometheusMetrics, Documentation, SignUpEmail, SignInEmail,
     Refresh, VerifyEmail, ForgetPassword, ResetPassword, GoogleAuth, GoogleCallback, GithubAuth, GithubCallback,
     UploadSigned, GetFile]"

lemma serve_sound: "performs E (Suc (Suc 0)) sound_action (serve e E k ids rq q)"
  by (cases e; simp only: serve.simps; (intro performs_intros)?; simp)

lemma serve_machine:
  assumes "header_str ''x-api-key'' rq = Some raw" "e \<notin> set public_endpoints"
  shows "performs E (Suc (Suc 0)) (\<lambda>a. sound_action a \<and> machine_action a) (serve e E k ids rq q)"
  using assms(2)
  by (cases e; simp only: serve.simps;
      (intro performs_person_with_key [OF assms(1)] performs_intros)?; simp add: public_endpoints_def)

lemma handle_sound: "performs E (Suc (Suc 0)) sound_action (handle_request E k rq q)"
  by (cases "route (rq_method rq) (rq_path rq)") (simp_all add: handle_request_def serve_sound performs_answer)

end
