(* ===== verification/Program_Facts.thy ===== *)
theory Program_Facts
  imports Program
begin

text \<open>
  What a request may do, whatever it asks for: every handler is a few operations of the
  components, a machine's handlers leave credentials alone, and a caller who fails to
  authenticate leaves everything alone.
\<close>

section \<open>Handlers are operations\<close>

lemma performsD:
  assumes "performs E n A h" "h s = (r, s')"
  shows "\<exists>as. length as \<le> n \<and> list_all A as \<and> (as_store s', as_world s') = fold (act E) as (as_store s, as_world s)"
  using spec [OF assms(1) [unfolded performs_def], of s] assms(2) by simp

text \<open>
  C38. Whatever the endpoint, the credential, the body and the state, serving a request
  changes the database and the storage backend as a run of at most two operations of the
  components does, none at all or each in full; those that set a password set one that
  passed the strength rule; and behind an API key, on every endpoint that authenticates,
  they are operations a machine may do: no sign-up, sign-in, recovery, password change,
  deletion of an account, social sign-in or issue or deletion of a key.
\<close>

theorem requests_are_few_operations:
  fixes E :: "'b env" and s :: "'b app_state"
  assumes "serve e E k ids rq q s = (r, s')"
  shows "\<exists>as. length as \<le> 2 \<and> list_all sound_action as \<and>
    (header_str ''x-api-key'' rq \<noteq> None \<and> e \<notin> set public_endpoints \<longrightarrow> list_all machine_action as) \<and>
    (as_store s', as_world s') = fold (act E) as (as_store s, as_world s)"
proof (cases "header_str ''x-api-key'' rq \<noteq> None \<and> e \<notin> set public_endpoints")
  case True
  then obtain raw where "header_str ''x-api-key'' rq = Some raw" by auto
  from performsD [OF serve_machine [OF this, of e E k ids q] assms] True
  obtain as where "length as \<le> Suc (Suc 0)" "list_all (\<lambda>a. sound_action a \<and> machine_action a) as"
    "(as_store s', as_world s') = fold (act E) as (as_store s, as_world s)" by blast
  then show ?thesis by (intro exI [of _ as]) (auto simp: list_all_iff)
next
  case False
  from performsD [OF serve_sound assms] False show ?thesis by (auto simp: numeral_2_eq_2)
qed

section \<open>What a machine leaves alone\<close>

text \<open>Rows up to what a profile update or the use of a key changes.\<close>

definition user_core :: "user_row \<Rightarrow> user_row" where
  "user_core u = u\<lparr>u_name := [], u_image := None, u_updated_at := 0\<rparr>"

definition key_core :: "api_key_row \<Rightarrow> api_key_row" where
  "key_core r = r\<lparr>k_last_used_at := None\<rparr>"

definition same_credentials :: "store \<Rightarrow> store \<Rightarrow> bool" where
  "same_credentials st st' \<longleftrightarrow> accounts st' = accounts st \<and> sessions st' = sessions st \<and>
     verifications st' = verifications st \<and> oauth_requests st' = oauth_requests st \<and>
     map user_core (users st') = map user_core (users st) \<and> map key_core (api_keys st') = map key_core (api_keys st)"

lemma same_credentials_trans: "same_credentials s t \<Longrightarrow> same_credentials t u \<Longrightarrow> same_credentials s u"
  by (simp add: same_credentials_def)

lemma same_credentials_frame:
  "identity_tables st' = identity_tables st \<Longrightarrow> api_keys st' = api_keys st \<Longrightarrow> same_credentials st st'"
  by (simp add: same_credentials_def identity_tables_def)

lemma same_credentials_update:
  "(\<And>u. user_core (f u) = user_core u) \<Longrightarrow> same_credentials st (st\<lparr>users := sql_update w f (users st)\<rparr>)"
  "(\<And>r. key_core (g r) = key_core r) \<Longrightarrow> same_credentials st (st\<lparr>api_keys := sql_update v g (api_keys st)\<rparr>)"
  "same_credentials st st"
  by (simp_all add: same_credentials_def map_sql_update)

lemma machine_keeps_credentials:
  assumes "machine_action a" "act E a (st, w) = (st', w')"
  shows "same_credentials st st'"
proof (cases a)
  case (Account b)
  with assms(1) obtain k u req where b: "b = OAccount (AUpdateProfile k u req)"
    by (cases b; cases "case b of OAccount c \<Rightarrow> c") (auto elim: machine_action.elims)
  then show ?thesis using assms(2) Account
    by (auto simp: update_profile_def Let_def user_core_def intro!: same_credentials_update split: option.splits)
next
  case (Tenant b)
  with assms(2) org_footprint [of "sv_ext E" b st] show ?thesis
    by (intro same_credentials_frame) (auto simp: but_tenants_def)
next
  case (Key b)
  with assms(1) obtain k raw where "b = ResolveKey k raw" by (cases b) auto
  then show ?thesis using assms(2) Key
    by (auto simp: resolve_key_def Let_def key_core_def intro!: same_credentials_update split: sum.splits)
next
  case (Files b)
  with assms(2) file_footprint [of "errors_message (sv_validators E)" "sv_ext E" "sv_config E" "sv_io E" "sv_backend E" b st w]
  show ?thesis by (intro same_credentials_frame) (auto simp: but_files_def)
next
  case (Queue b)
  with assms(2) queue_footprint [of "sv_http E" "sv_ext E" b st] show ?thesis
    by (intro same_credentials_frame) (auto simp: but_work_def)
next
  case (MarkRead u i)
  with assms(2) marks_footprint(1) [of u i st] show ?thesis
    by (intro same_credentials_frame) (auto simp: but_notifications_def)
next
  case (MarkAllRead u)
  with assms(2) marks_footprint(2) [of u st] show ?thesis
    by (intro same_credentials_frame) (auto simp: but_notifications_def)
qed (use assms in simp)

lemma machines_keep_credentials:
  "list_all machine_action as \<Longrightarrow> (st', w') = fold (act E) as (st, w) \<Longrightarrow> same_credentials st st'"
proof (induction as arbitrary: st w)
  case (Cons a as)
  obtain st1 w1 where s: "act E a (st, w) = (st1, w1)" by fastforce
  with Cons.prems Cons.IH [of st1 w1] machine_keeps_credentials [OF _ s]
  show ?case by (auto intro: same_credentials_trans)
qed (simp add: same_credentials_update)

text \<open>
  C2. An API key cannot be turned into another credential: whatever endpoint that
  authenticates a request with the header \<open>x-api-key\<close> is for, and whatever key the header
  names, accounts with their passwords, sessions, recovery tokens and pending provider
  sign-ins are the same rows afterwards; users differ at most in name, image and time of
  change, keys at most in the time of their last use, and no row of either is added or
  removed.
\<close>

theorem api_keys_touch_no_credential:
  assumes "header_str ''x-api-key'' rq = Some raw" "e \<notin> set public_endpoints" "serve e E k ids rq q s = (r, s')"
  shows "same_credentials (as_store s) (as_store s')"
  using performsD [OF serve_machine [OF assms(1,2)] assms(3)] machines_keep_credentials
  by (fastforce simp: list_all_iff)

section \<open>Callers who fail to authenticate\<close>

lemma extracted_refused:
  assumes "authenticate (sv_ext E) (en_sso E) (sv_config E) k rq (as_jwks s) (as_store s) = (Inl err, jc, st)"
    "f (Inl err) = Inl err"
  shows "extracted E k rq f h s = (Answered (error_response (en_js E) err), s\<lparr>as_jwks := jc\<rparr>)"
  using authenticate_effect(2) [OF assms(1) refl] by (simp add: extracted_def assms Let_def)

lemma extracted_details:
  assumes "authenticate (sv_ext E) (en_sso E) (sv_config E) k rq (as_jwks s) (as_store s) = (Inl err, jc, st)"
  shows "snd (extracted E k rq Inr (\<lambda>r. reads E pay (g r)) s) = s\<lparr>as_jwks := jc\<rparr>"
  using authenticate_effect(2) [OF assms refl] by (simp add: extracted_def assms Let_def reads_def)

lemma refused_extractors [simp]: "session_caller_auth (Inl err) = Inl err" "admin_auth (Inl err) = Inl err"
  by (simp_all add: session_caller_auth_def admin_auth_def)


section \<open>A concrete program\<close>

definition unparsed :: "'a \<Rightarrow> http_response + 'b" where
  "unparsed x = Inl (error_response no_js (BadRequest ''unparsed''))"

text \<open>A program whose parsers read identifiers, cursors and organization filters only.\<close>

definition sample_parsers :: parsers where
  "sample_parsers = \<lparr>ps_id = (\<lambda>s. if s = ''7'' then Inr 7 else unparsed s), ps_sign_up = unparsed, ps_sign_in = unparsed,
     ps_token = unparsed, ps_reset_password = unparsed, ps_update_user = unparsed, ps_change_password = unparsed,
     ps_oauth_callback = unparsed, ps_create_api_key = unparsed, ps_page = unparsed, ps_create_app = unparsed,
     ps_create_org = unparsed, ps_add_member = unparsed, ps_multipart = unparsed, ps_presigned = unparsed,
     ps_signed_access = (\<lambda>q. Inr no_query), ps_cursor = unparsed, ps_org_filter = (\<lambda>q. Inr None),
     ps_audit_filter = unparsed, ps_create_webhook = unparsed, ps_webhook_query = unparsed\<rparr>"

definition sample_env :: "nat env" where
  "sample_env = \<lparr>sv_ext = toy_ext, sv_web = sample_web, sv_http = ok_web,
     sv_validators = \<lparr>is_email = (\<lambda>_. True), is_url = (\<lambda>_. True), errors_message = (\<lambda>_. ''invalid'')\<rparr>,
     sv_config = sample_config, sv_io = (\<lambda>_ _. None), sv_backend = sample_backend, en_sso = sample_sso,
     en_parsers = sample_parsers, en_js = no_js, en_print = (\<lambda>s p. \<lparr>hr_status = s, hr_headers = [], hr_body = []\<rparr>),
     en_header_ok = (\<lambda>_. True), en_version = ''1'', en_db_up = True, en_rendered = [],
     en_docs = \<lparr>hr_status = 200, hr_headers = [], hr_body = []\<rparr>,
     en_not_found = \<lparr>hr_status = 404, hr_headers = [], hr_body = []\<rparr>,
     en_method_not_allowed = \<lparr>hr_status = 405, hr_headers = [], hr_body = []\<rparr>\<rparr>"

definition sample_state :: "nat app_state" where
  "sample_state = \<lparr>as_store = key_store, as_world = disk, as_jwks = None\<rparr>"

lemma sample_env_simps [simp]:
  "sv_ext sample_env = toy_ext" "sv_config sample_env = sample_config" "en_sso sample_env = sample_sso"
  "en_js sample_env = no_js" "en_print sample_env s p = \<lparr>hr_status = s, hr_headers = [], hr_body = []\<rparr>"
  "as_store sample_state = key_store" "as_jwks sample_state = None" "as_world sample_state = disk"
  by (simp_all add: sample_env_def sample_state_def)

text \<open>With its key the machine marks the notifications of its user read.\<close>

lemma sample_served:
  "\<exists>s'. serve MarkAllNotificationsRead sample_env tenant_call [] (Extractors.sample_request [(''x-api-key'', sample_raw_key)]) [] sample_state
     = (Answered \<lparr>hr_status = 200, hr_headers = [], hr_body = []\<rparr>, s')"
proof -
  let ?rq = "Extractors.sample_request [(''x-api-key'', sample_raw_key)]"
  obtain r jc st where a: "authenticate toy_ext sample_sso sample_config tenant_call ?rq None key_store = (r, jc, st)"
    by (metis surj_pair)
  with sample_key_auth have r: "r = Inr (key_user (user_of_row (tenant_user 1)) sample_key_row)" by simp
  have "require_scope (key_user (user_of_row (tenant_user 1)) sample_key_row) NotificationsWrite = Inr ()"
    by (simp add: require_scope_def sample_key_row_def new_api_key_row_def scope_round_trip Let_def
        scope_contains_def wildcard_set_iff)
  then show ?thesis
    by (simp add: extracted_def a r Let_def writes_def mark_all_notifications_read_def mark_all_as_read_def)
qed

theorem requests_are_few_operations_witness:
  "\<exists>r s' as. serve MarkAllNotificationsRead sample_env tenant_call [] (Extractors.sample_request [(''x-api-key'', sample_raw_key)]) [] sample_state = (r, s') \<and>
     length as \<le> 2 \<and> list_all machine_action as \<and> (as_store s', as_world s') = fold (act sample_env) as (key_store, disk)"
proof -
  obtain r s' where s: "serve MarkAllNotificationsRead sample_env tenant_call [] (Extractors.sample_request [(''x-api-key'', sample_raw_key)]) []
      sample_state = (r, s')"
    by (metis surj_pair)
  from requests_are_few_operations [OF s] s show ?thesis
    by (auto simp: sample_key_header public_endpoints_def simp del: serve.simps)
qed

theorem api_keys_touch_no_credential_witness:
  "\<exists>s'. serve MarkAllNotificationsRead sample_env tenant_call [] (Extractors.sample_request [(''x-api-key'', sample_raw_key)]) [] sample_state
     = (Answered \<lparr>hr_status = 200, hr_headers = [], hr_body = []\<rparr>, s') \<and> same_credentials key_store (as_store s')"
proof -
  obtain s' where s: "serve MarkAllNotificationsRead sample_env tenant_call [] (Extractors.sample_request [(''x-api-key'', sample_raw_key)]) []
      sample_state = (Answered \<lparr>hr_status = 200, hr_headers = [], hr_body = []\<rparr>, s')"
    using sample_served by blast
  have "MarkAllNotificationsRead \<notin> set public_endpoints" by (simp add: public_endpoints_def)
  from api_keys_touch_no_credential [OF sample_key_header this s] s show ?thesis by (auto simp del: serve.simps)
qed


end
