(* ===== verification/Metrics.thy ===== *)
theory Metrics
  imports Http_Layers Routes
begin

text \<open>
  The request counters (\<open>src/middleware/metrics.rs\<close>): the registry is a map from label values
  to series, as the exporter keeps it; a counter is a 64-bit word and a histogram the list of
  its samples.  \<open>track_metrics\<close> runs around a matched route and labels with its template,
  \<open>track_outcomes\<close> around everything and labels without a path.
\<close>

section \<open>The registry\<close>

type_synonym request_labels = "string \<times> string \<times> string"  \<comment> \<open>method, path, status\<close>
type_synonym rejected_labels = "string \<times> string"  \<comment> \<open>method, status\<close>

record metrics =
  http_requests_total :: "request_labels \<rightharpoonup> 64 word"
  http_requests_duration :: "request_labels \<rightharpoonup> time list"
  http_rejected_total :: "rejected_labels \<rightharpoonup> 64 word"

definition no_metrics :: metrics where
  "no_metrics = \<lparr>http_requests_total = (\<lambda>_. None), http_requests_duration = (\<lambda>_. None),
     http_rejected_total = (\<lambda>_. None)\<rparr>"

definition increment :: "('k \<rightharpoonup> 64 word) \<Rightarrow> 'k \<Rightarrow> 'k \<rightharpoonup> 64 word" where
  "increment c k = c(k \<mapsto> unwrap_or (c k) 0 + 1)"

definition record_sample :: "('k \<rightharpoonup> time list) \<Rightarrow> 'k \<Rightarrow> time \<Rightarrow> 'k \<rightharpoonup> time list" where
  "record_sample h k v = h(k \<mapsto> unwrap_or (h k) [] @ [v])"

section \<open>The two layers\<close>

text \<open>The template of the route a path matches, whatever the method: \<open>MatchedPath\<close>.\<close>

definition matched_path :: "string \<Rightarrow> string option" where
  "matched_path path =
     map_option (\<lambda>r. fst (snd r))
       (find (\<lambda>r. Some (route_pattern r) = best_pattern route_table (path_segments path)) route_table)"

definition track_metrics :: "request \<Rightarrow> string option \<Rightarrow> time \<Rightarrow> nat \<Rightarrow> metrics \<Rightarrow> metrics" where
  "track_metrics rq matched elapsed status m =
     (let path = unwrap_or matched ''unmatched'';
          labels = (rq_method rq, path, nat_str status) in
      m\<lparr>http_requests_total := increment (http_requests_total m) labels,
        http_requests_duration := record_sample (http_requests_duration m) labels elapsed\<rparr>)"

text \<open>\<open>is_client_error\<close> and \<open>is_server_error\<close>: 400 to 499 and 500 to 599.\<close>

definition track_outcomes :: "request \<Rightarrow> nat \<Rightarrow> metrics \<Rightarrow> metrics" where
  "track_outcomes rq status m =
     (if (400 \<le> status \<and> status < 500) \<or> (500 \<le> status \<and> status < 600)
      then m\<lparr>http_rejected_total := increment (http_rejected_total m) (rq_method rq, nat_str status)\<rparr>
      else m)"

text \<open>\<open>route_layer\<close>: the inner layer is passed only on a matched route.\<close>

definition route_layer :: "request \<Rightarrow> time \<Rightarrow> nat \<Rightarrow> metrics \<Rightarrow> metrics" where
  "route_layer rq elapsed status m =
     (case matched_path (rq_path rq) of
        None \<Rightarrow> m
      | Some p \<Rightarrow> track_metrics rq (Some p) elapsed status m)"

section \<open>Runs\<close>

text \<open>
  One request as the two layers see it: the answer of the routes, if they were reached and
  answered, with the time taken, and the status that leaves the server, if any does.
\<close>

record observation =
  ob_request :: request
  ob_inner :: "(nat \<times> time) option"
  ob_outer :: "nat option"

definition observe :: "observation \<Rightarrow> metrics \<Rightarrow> metrics" where
  "observe ob m =
     (let m1 = (case ob_inner ob of None \<Rightarrow> m | Some (status, t) \<Rightarrow> route_layer (ob_request ob) t status m) in
      case ob_outer ob of None \<Rightarrow> m1 | Some status \<Rightarrow> track_outcomes (ob_request ob) status m1)"

definition templates :: "string list" where
  "templates = remdups (map (\<lambda>r. fst (snd r)) route_table)"

section \<open>Facts\<close>

lemma matched_template: "matched_path p = Some t \<Longrightarrow> t \<in> set templates"
  by (force simp: matched_path_def templates_def dest!: find_Some_mem)

lemma templates_count: "length templates = 49"
  by code_simp

lemma dom_increment [simp]: "dom (increment c k) = insert k (dom c)"
  by (simp add: increment_def)

text \<open>Every status code the server answers with.\<close>

definition statuses :: "nat set" where
  "statuses = {100..<1000}"

text \<open>What the statuses of a run may be, and the methods it may use.\<close>

definition seen :: "string set \<Rightarrow> observation \<Rightarrow> bool" where
  "seen ms ob \<longleftrightarrow> rq_method (ob_request ob) \<in> ms \<and>
     (\<forall>s t. ob_inner ob = Some (s, t) \<longrightarrow> s \<in> statuses) \<and> (\<forall>s. ob_outer ob = Some s \<longrightarrow> s \<in> statuses)"

definition request_space :: "string set \<Rightarrow> request_labels set" where
  "request_space ms = ms \<times> set templates \<times> nat_str ` statuses"

definition rejected_space :: "string set \<Rightarrow> rejected_labels set" where
  "rejected_space ms = ms \<times> nat_str ` {400..<600}"

lemma observe_doms:
  assumes "seen ms ob"
  shows "dom (http_requests_total (observe ob m)) \<subseteq> dom (http_requests_total m) \<union> request_space ms"
    "dom (http_rejected_total (observe ob m)) \<subseteq> dom (http_rejected_total m) \<union> rejected_space ms"
  using assms matched_template [of "rq_path (ob_request ob)"]
  by (auto simp: observe_def route_layer_def track_metrics_def track_outcomes_def seen_def request_space_def
      rejected_space_def Let_def split: option.splits prod.splits if_splits)

lemma run_doms:
  assumes "\<forall>ob\<in>set obs. seen ms ob"
  shows "dom (http_requests_total (fold observe obs m)) \<subseteq> dom (http_requests_total m) \<union> request_space ms \<and>
    dom (http_rejected_total (fold observe obs m)) \<subseteq> dom (http_rejected_total m) \<union> rejected_space ms"
  using assms
proof (induction obs arbitrary: m)
  case (Cons ob obs)
  then have s: "seen ms ob" and rest: "\<forall>ob\<in>set obs. seen ms ob" by simp_all
  from Cons.IH [OF rest, of "observe ob m"] observe_doms [OF s, of m] show ?case by (simp only: fold_Cons o_apply) blast
qed simp

lemma space_cards:
  assumes "finite ms"
  shows "finite (request_space ms)" "card (request_space ms) = card ms * 49 * 900"
    "finite (rejected_space ms)" "card (rejected_space ms) = card ms * 200"
proof -
  have inj: "inj_on nat_str S" for S by (rule inj_onI) (simp add: nat_str_inj)
  have "card (set templates) = 49"
    using templates_count by (simp add: templates_def length_remdups_card_conv)
  then show "card (request_space ms) = card ms * 49 * 900" "card (rejected_space ms) = card ms * 200"
    by (simp_all add: request_space_def rejected_space_def statuses_def card_cartesian_product card_image inj)
  show "finite (request_space ms)" "finite (rejected_space ms)"
    using assms by (simp_all add: request_space_def rejected_space_def statuses_def)
qed

text \<open>A probe: a request with a method of its own for a path nothing serves.\<close>

definition probe :: "nat \<Rightarrow> observation" where
  "probe n = \<lparr>ob_request = \<lparr>rq_method = ''X'' @ nat_str n, rq_path = ''/'', rq_headers = [], rq_peer = None, rq_body = []\<rparr>,
     ob_inner = None, ob_outer = Some 404\<rparr>"

lemma probe_step:
  "http_rejected_total (observe (probe n) m) = increment (http_rejected_total m) (''X'' @ nat_str n, ''404'')"
proof -
  have "nat_str 404 = ''404''" by code_simp
  then show ?thesis by (simp add: observe_def probe_def track_outcomes_def Let_def)
qed

lemma probes: "dom (http_rejected_total (fold observe (map probe [0..<n]) no_metrics)) =
    (\<lambda>i. (''X'' @ nat_str i, ''404'')) ` {0..<n}"
proof (induction n)
  case (Suc n)
  then show ?case by (simp add: probe_step atLeastLessThanSuc)
qed (simp add: no_metrics_def)

text \<open>
  C35. The registry is bounded in everything but the method: whatever paths are asked for, the
  path labels are templates of the route table, so a run whose requests use the methods
  \<open>ms\<close> creates at most 49 * 900 series per method in each of the two request families and at
  most 200 per method in the counter of rejections.  The method, though, is the caller's
  word: for every number there is a run of so many requests, each answered 404, that leaves
  so many series behind.
\<close>

theorem metric_series_bounded_per_method:
  "(finite ms \<and> (\<forall>ob\<in>set obs. seen ms ob) \<longrightarrow>
      (\<forall>l\<in>dom (http_requests_total (fold observe obs no_metrics)). fst (snd l) \<in> (\<lambda>r. fst (snd r)) ` set route_table) \<and>
      card (dom (http_requests_total (fold observe obs no_metrics))) \<le> card ms * 49 * 900 \<and>
      card (dom (http_rejected_total (fold observe obs no_metrics))) \<le> card ms * 200) \<and>
   (\<exists>run. length run = n \<and> (\<forall>ob\<in>set run. ob_outer ob = Some 404) \<and>
      card (dom (http_rejected_total (fold observe run no_metrics))) = n)"
proof (intro conjI impI)
  assume a: "finite ms \<and> (\<forall>ob\<in>set obs. seen ms ob)"
  then have sub: "dom (http_requests_total (fold observe obs no_metrics)) \<subseteq> request_space ms"
      "dom (http_rejected_total (fold observe obs no_metrics)) \<subseteq> rejected_space ms"
    using run_doms [of obs ms no_metrics] by (simp_all add: no_metrics_def)
  then show "\<forall>l\<in>dom (http_requests_total (fold observe obs no_metrics)). fst (snd l) \<in> (\<lambda>r. fst (snd r)) ` set route_table"
    unfolding request_space_def templates_def by fastforce
  from sub a show "card (dom (http_requests_total (fold observe obs no_metrics))) \<le> card ms * 49 * 900"
      "card (dom (http_rejected_total (fold observe obs no_metrics))) \<le> card ms * 200"
    using space_cards [of ms] by (metis card_mono)+
next
  have "inj (\<lambda>i. (''X'' @ nat_str i, ''404''))" by (rule injI) (simp add: nat_str_inj)
  then have "card (dom (http_rejected_total (fold observe (map probe [0..<n]) no_metrics))) = n"
    unfolding probes by (subst card_image) (auto intro: inj_on_subset)
  moreover have "\<forall>ob\<in>set (map probe [0..<n]). ob_outer ob = Some 404" by (auto simp: probe_def)
  ultimately show "\<exists>run. length run = n \<and> (\<forall>ob\<in>set run. ob_outer ob = Some 404) \<and>
      card (dom (http_rejected_total (fold observe run no_metrics))) = n"
    by (intro exI [of _ "map probe [0..<n]"]) simp
qed

theorem metric_series_bounded_per_method_witness:
  "card (dom (http_requests_total (fold observe
     [\<lparr>ob_request = \<lparr>rq_method = ''GET'', rq_path = ''/health/live'', rq_headers = [], rq_peer = None, rq_body = []\<rparr>,
       ob_inner = Some (200, 5), ob_outer = Some 200\<rparr>] no_metrics))) \<le> 49 * 900 \<and>
   seen {''GET''} \<lparr>ob_request = \<lparr>rq_method = ''GET'', rq_path = ''/health/live'', rq_headers = [], rq_peer = None, rq_body = []\<rparr>,
       ob_inner = Some (200, 5), ob_outer = Some 200\<rparr>"
proof -
  let ?ob = "\<lparr>ob_request = \<lparr>rq_method = ''GET'', rq_path = ''/health/live'', rq_headers = [], rq_peer = None, rq_body = []\<rparr>,
       ob_inner = Some (200, 5), ob_outer = Some 200\<rparr> :: observation"
  have s: "seen {''GET''} ?ob" by (simp add: seen_def statuses_def)
  with metric_series_bounded_per_method [of "{''GET''}" "[?ob]" 0] show ?thesis by simp
qed

end
