(* ===== verification/Server.thy ===== *)
theory Server
  imports Program_Facts Metrics
begin

text \<open>
  The running server (\<open>create_app\<close> of \<open>src/lib.rs\<close> and the tasks \<open>src/main.rs\<close> spawns): a
  request passes the layers of the program's own, from the outside in the counter of
  outcomes, the security headers, the idempotency guard and the route counters, and reaches
  the routes; beside the requests run the delivery worker and the hourly clean-up.  The
  invariant of the database holds whatever they do, in whatever order.
\<close>

section \<open>State and steps\<close>

record 'b server =
  sr_app :: "'b app_state"
  sr_rows :: "idem_row list"
  sr_metrics :: metrics

text \<open>The routes with the counters around them; a panic is not counted.\<close>

definition counted_routes ::
  "'b env \<Rightarrow> call \<Rightarrow> time \<Rightarrow> string \<Rightarrow> request \<Rightarrow> 'b app_state \<times> metrics \<Rightarrow> answer \<times> 'b app_state \<times> metrics" where
  "counted_routes E k elapsed q rq = (\<lambda>(s, m).
     case handle_request E k rq q s of
       (Panicked, s') \<Rightarrow> (Panicked, s', m)
     | (Answered resp, s') \<Rightarrow> (Answered resp, s', route_layer rq elapsed (hr_status resp) m))"

text \<open>The guard; a panic leaves a claimed key as it is.\<close>

definition guarded_routes ::
  "'b env \<Rightarrow> string set \<Rightarrow> call \<Rightarrow> time \<Rightarrow> time \<Rightarrow> string \<Rightarrow> request \<Rightarrow> 'b server \<Rightarrow> answer \<times> 'b server" where
  "guarded_routes E cols k later elapsed q rq x =
     (case admit (en_js E) (en_header_ok E) (sv_ext E) cols (sv_config E) (c_now k) rq (sr_rows x) of
        (Unprotected, rows) \<Rightarrow>
          (case counted_routes E k elapsed q rq (sr_app x, sr_metrics x) of
             (a, s, m) \<Rightarrow> (a, \<lparr>sr_app = s, sr_rows = rows, sr_metrics = m\<rparr>))
      | (Answer resp, rows) \<Rightarrow> (Answered resp, x\<lparr>sr_rows := rows\<rparr>)
      | (Run h, rows) \<Rightarrow>
          (case counted_routes E k elapsed q rq (sr_app x, sr_metrics x) of
             (Panicked, s, m) \<Rightarrow> (Panicked, \<lparr>sr_app = s, sr_rows = rows, sr_metrics = m\<rparr>)
           | (Answered resp, s, m) \<Rightarrow>
               (case settle cols later h resp rows of
                  (resp', rows') \<Rightarrow> (Answered resp', \<lparr>sr_app = s, sr_rows = rows', sr_metrics = m\<rparr>))))"

definition request_turn ::
  "'b env \<Rightarrow> string set \<Rightarrow> call \<Rightarrow> time \<Rightarrow> time \<Rightarrow> string \<Rightarrow> request \<Rightarrow> 'b server \<Rightarrow> answer \<times> 'b server" where
  "request_turn E cols k later elapsed q rq x =
     (case guarded_routes E cols k later elapsed q rq x of
        (Panicked, y) \<Rightarrow> (Panicked, y)
      | (Answered resp, y) \<Rightarrow>
          (let resp' = security_headers (sv_config E) rq resp in
           (Answered resp', y\<lparr>sr_metrics := track_outcomes rq (hr_status resp') (sr_metrics y)\<rparr>)))"

text \<open>What happens to the server: a request, a turn of the worker or its end in the middle of one, a clean-up.\<close>

datatype event =
    Request call time time string request
  | WorkerTurn time string
  | WorkerCrash time string
  | CleanUp time

definition on_store :: "(store \<Rightarrow> store) \<Rightarrow> 'b server \<Rightarrow> 'b server" where
  "on_store f x = x\<lparr>sr_app := (sr_app x)\<lparr>as_store := f (as_store (sr_app x))\<rparr>\<rparr>"

fun server_step :: "'b env \<Rightarrow> string set \<Rightarrow> event \<Rightarrow> 'b server \<Rightarrow> 'b server" where
  "server_step E cols (Request k later elapsed q rq) x = snd (request_turn E cols k later elapsed q rq x)"
| "server_step E cols (WorkerTurn now w) x =
     (case worker_step (sv_http E) (sv_ext E) now w (as_store (sr_app x)) of
        None \<Rightarrow> x
      | Some st \<Rightarrow> on_store (\<lambda>_. st) x)"
| "server_step E cols (WorkerCrash now w) x = on_store (\<lambda>st. snd (poll_next_job now ''webhooks'' w st)) x"
| "server_step E cols (CleanUp now) x =
     (case cleanup_turn (sv_config E) now (sv_backend E) (sr_rows x) (as_store (sr_app x)) (as_world (sr_app x)) of
        (rows, st, w) \<Rightarrow> x\<lparr>sr_app := (sr_app x)\<lparr>as_store := st, as_world := w\<rparr>, sr_rows := rows\<rparr>)"

definition fresh_server :: "'b world \<Rightarrow> jwks_client option \<Rightarrow> 'b server" where
  "fresh_server w jc = \<lparr>sr_app = \<lparr>as_store = empty_store, as_world = w, as_jwks = jc\<rparr>, sr_rows = [], sr_metrics = no_metrics\<rparr>"

section \<open>The layers\<close>

text \<open>Where nothing panics the turn is the stack of layers.\<close>

lemma request_turn_stack:
  assumes "\<And>s. \<exists>resp s'. handle_request E k rq q s = (Answered resp, s')"
  shows "\<exists>router. (\<forall>s m. handle_request E k rq q s = (Answered (fst (router rq (s, m))), fst (snd (router rq (s, m))))) \<and>
    (\<forall>x. \<exists>resp rows s m. app_stack (en_js E) (en_header_ok E) (sv_ext E) cols (sv_config E) router (c_now k) later rq
        (sr_rows x, sr_app x, sr_metrics x) = (resp, rows, s, m) \<and>
      request_turn E cols k later elapsed q rq x =
        (Answered resp, \<lparr>sr_app = s, sr_rows = rows, sr_metrics = track_outcomes rq (hr_status resp) m\<rparr>))"
proof -
  obtain f g where fg: "handle_request E k rq q s = (Answered (f s), g s)" for s using assms by metis
  let ?router = "\<lambda>r (s, m). (f s, g s, route_layer rq elapsed (hr_status (f s)) m)"
  have c: "counted_routes E k elapsed q rq (s, m) = (Answered (f s), g s, route_layer rq elapsed (hr_status (f s)) m)" for s m
    by (simp add: counted_routes_def fg)
  have "\<exists>resp rows s m. app_stack (en_js E) (en_header_ok E) (sv_ext E) cols (sv_config E) ?router (c_now k) later rq
        (sr_rows x, sr_app x, sr_metrics x) = (resp, rows, s, m) \<and>
      request_turn E cols k later elapsed q rq x =
        (Answered resp, \<lparr>sr_app = s, sr_rows = rows, sr_metrics = track_outcomes rq (hr_status resp) m\<rparr>)" for x
  proof -
    obtain a rows where a: "admit (en_js E) (en_header_ok E) (sv_ext E) cols (sv_config E) (c_now k) rq (sr_rows x) = (a, rows)"
      by fastforce
    show ?thesis
      by (cases a) (auto simp: app_stack_def idempotency_guard_def request_turn_def guarded_routes_def a c Let_def
          split: prod.split)
  qed
  with fg show ?thesis by (intro exI [of _ ?router]) simp
qed

section \<open>Passwords\<close>

definition passwords :: "store \<Rightarrow> string set" where
  "passwords st = {h. \<exists>a\<in>set (accounts st). a_password a = Some h}"

text \<open>The hash of a password that passed the strength rule.\<close>

definition strong_hash :: "ext \<Rightarrow> string \<Rightarrow> bool" where
  "strong_hash P h \<longleftrightarrow> (\<exists>p salt. strong p \<and> argon2_hash P p salt = Some h)"

lemma passwords_cong: "accounts st' = accounts st \<Longrightarrow> passwords st' = passwords st"
  by (simp add: passwords_def)

lemma passwords_identity: "identity_tables st' = identity_tables st \<Longrightarrow> passwords st' = passwords st"
  by (rule passwords_cong) (simp add: identity_tables_def)

lemma hash_password_strong: "hash_password P cfg salt p = Inr h \<Longrightarrow> strong p \<Longrightarrow> strong_hash P h"
  by (auto simp: hash_password_def strong_hash_def split: if_splits)

lemma passwords_set:
  "passwords (st\<lparr>accounts := sql_update w (set_password now h) (accounts st)\<rparr>) \<subseteq> insert h (passwords st)"
  by (auto simp: passwords_def set_sql_update set_password_def split: if_splits)

lemma passwords_kept:
  "(\<And>a. a_password (f a) = a_password a) \<Longrightarrow> passwords (st\<lparr>accounts := sql_update w f (accounts st)\<rparr>) = passwords st"
proof -
  have "passwords st = {h. Some h \<in> a_password ` set (accounts st)}" for st by (force simp: passwords_def)
  moreover assume "\<And>a. a_password (f a) = a_password a"
  ultimately show ?thesis by (simp add: image_sql_update)
qed

lemma passwords_fresh:
  "sql_insert clash r (accounts st) = Some as \<Longrightarrow> a_password r = None \<Longrightarrow> passwords (st\<lparr>accounts := as\<rparr>) = passwords st"
  by (auto simp: passwords_def sql_insert_Some)

lemma parts_keep_accounts:
  "create_session P cfg now i d u ctx st = Inr (x, st') \<Longrightarrow> accounts st' = accounts st"
  "issue_verification_token P now i d e pu ttl st = Inr (y, st') \<Longrightarrow> accounts st' = accounts st"
  "consume_verification_token P now t pu st = Inr (y, st') \<Longrightarrow> accounts st' = accounts st"
  "register_failed_login P cfg k i ctx st = (z, st') \<Longrightarrow> accounts st' = accounts st"
  by (auto simp: create_session_def issue_verification_token_def consume_verification_token_def
      register_failed_login_def Let_def split: option.splits if_splits)

lemma sign_up_passwords:
  assumes "sign_up_tx P cfg k req ctx st = Inr (x, st')" "strong (su_password req)"
  shows "\<exists>h. strong_hash P h \<and> passwords st' \<subseteq> insert h (passwords st)"
  using assms
  by (fastforce simp: sign_up_tx_def Let_def and_then_Inr passwords_def sql_insert_Some new_account_row_def
      dest!: parts_keep_accounts intro: hash_password_strong split: if_splits)

lemma auth_passwords:
  assumes "sound_action (Account (OAccount a))"
  shows "passwords (auth_step P cfg a st) \<subseteq> passwords st \<union> {h. strong_hash P h}"
proof (cases a)
  case (ASignUp k req ctx)
  show ?thesis
  proof (cases "sign_up_tx P cfg k req ctx st")
    case (Inr x)
    obtain u vt sid rt st' where x: "x = ((u, vt, sid, rt), st')" by (metis surj_pair)
    have "passwords (auth_step P cfg a st) = passwords st'"
      by (rule passwords_cong) (simp add: ASignUp sign_up_email_def Inr x Let_def split: sum.split)
    with sign_up_passwords [OF Inr [unfolded x]] assms ASignUp show ?thesis by auto
  qed (simp add: ASignUp sign_up_email_def)
next
  case (ASignIn k req ctx)
  have "accounts (auth_step P cfg a st) = accounts st"
    using ASignIn by (auto simp: sign_in_email_def Let_def dest: parts_keep_accounts
        split: option.split sum.split bool.split prod.split)
  from passwords_cong [OF this] show ?thesis by simp
next
  case (AResetPassword k t p ctx)
  have "passwords (snd (reset_password P cfg k t p ctx st)) \<subseteq> insert h (passwords st)"
    if h: "hash_password P cfg (c_salt k) p = Inr h" for h
    by (auto simp: reset_password_def Let_def h passwords_def set_sql_update set_password_def
        dest!: parts_keep_accounts split: sum.splits option.splits if_splits)
  moreover have "passwords (snd (reset_password P cfg k t p ctx st)) = passwords st"
    if "hash_password P cfg (c_salt k) p = Inl e" for e
    using that by (simp add: reset_password_def)
  ultimately show ?thesis
    using assms AResetPassword hash_password_strong [of P cfg "c_salt k" p]
    by (cases "hash_password P cfg (c_salt k) p") fastforce+
next
  case (AChangePassword k u sid c p ctx)
  have "passwords (snd (change_password P cfg k u sid c p ctx st)) \<subseteq> insert h (passwords st)"
    if h: "hash_password P cfg (c_salt k) p = Inr h" for h
    by (auto simp: change_password_def Let_def h passwords_def set_sql_update set_password_def
        split: sum.splits option.splits if_splits bool.splits)
  moreover have "passwords (snd (change_password P cfg k u sid c p ctx st)) = passwords st"
    if "hash_password P cfg (c_salt k) p = Inl e" for e
    using that by (simp add: change_password_def split: option.split sum.split bool.split)
  ultimately show ?thesis
    using assms AChangePassword hash_password_strong [of P cfg "c_salt k" p]
    by (cases "hash_password P cfg (c_salt k) p") fastforce+
qed (auto simp: refresh_session_def sign_out_def sign_out_all_def verify_email_def
      forget_password_def update_profile_def delete_account_def Let_def passwords_def
      dest!: parts_keep_accounts split: sum.splits option.splits if_splits)

lemma upsert_passwords: "passwords (snd (upsert_oauth_user P cfg k pf ctx st)) \<subseteq> passwords st"
proof (cases "upsert_oauth_tx P cfg k pf ctx st")
  case (Inr x)
  obtain u sid rt st' where x: "x = ((u, sid, rt), st')" by (metis surj_pair)
  obtain st1 sealed st2 where s: "oauth_user k pf st = Inr (u, st1)" "link_account k (u_id u) pf sealed st1 = Inr st2"
      "create_session P cfg (c_now k) (c_uuid k 2) (c_rand k 0) (u_id u) ctx st2 = Inr ((sid, rt), st')"
    by (rule upsert_txD [OF Inr [unfolded x]])
  have "accounts st1 = accounts st" using oauth_user_frame [OF s(1)] by simp
  moreover have "passwords st2 \<subseteq> passwords st1"
    using s(2) by (auto simp: link_account_def Let_def passwords_kept passwords_fresh new_account_row_def
        split: if_splits option.splits)
  moreover note parts_keep_accounts(1) [OF s(3)]
  ultimately have "passwords st' \<subseteq> passwords st" by (simp add: passwords_def)
  moreover have "passwords (snd (upsert_oauth_user P cfg k pf ctx st)) = passwords st'"
    by (rule passwords_cong) (simp add: upsert_oauth_user_def Inr x Let_def split: sum.split)
  ultimately show ?thesis by simp
qed (simp add: upsert_oauth_user_def)

lemma account_passwords:
  assumes "sound_action (Account a)"
  shows "passwords (oauth_step P W cfg a st) \<subseteq> passwords st \<union> {h. strong_hash P h}"
proof (cases a)
  case (OUrl p k)
  then show ?thesis using auth_url_effect [of P W cfg p k st] by (auto simp: passwords_def)
next
  case (OCallback p k code csrf ctx)
  have "accounts st1 = accounts st" if "consume_auth_request P (c_now k) (provider_name p) csrf st = Inr (v, st1)" for v st1
    using that by (auto simp: consume_auth_request_def Let_def split: option.splits)
  then have "passwords st1 = passwords st" if "consume_auth_request P (c_now k) (provider_name p) csrf st = Inr (v, st1)" for v st1
    using that passwords_cong by blast
  with OCallback upsert_passwords show ?thesis
    by (fastforce simp: callback_alt simp del: callback.simps split: sum.splits prod.splits)
next
  case (OAccount b)
  then show ?thesis using auth_passwords assms by simp
qed

lemma act_passwords:
  assumes "sound_action a" "act E a (st, w) = (st', w')"
  shows "passwords st' \<subseteq> passwords st \<union> {h. strong_hash (sv_ext E) h}"
proof (cases a)
  case (Account b)
  then show ?thesis using account_passwords [of b "sv_ext E" "sv_web E" "sv_config E" st] assms by auto
next
  case (Tenant b)
  with assms(2) org_footprint [of "sv_ext E" b st] passwords_identity [of st' st] show ?thesis
    by (auto simp: but_tenants_def)
next
  case (Key b)
  with assms(2) key_footprint [of "sv_ext E" b st] passwords_identity [of st' st] show ?thesis
    by (auto simp: but_keys_def)
next
  case (Files b)
  with assms(2) file_footprint [of "errors_message (sv_validators E)" "sv_ext E" "sv_config E" "sv_io E" "sv_backend E" b st w]
    passwords_identity [of st' st]
  show ?thesis by (auto simp: but_files_def)
next
  case (Queue b)
  with assms(2) queue_footprint [of "sv_http E" "sv_ext E" b st] passwords_identity [of st' st] show ?thesis
    by (auto simp: but_work_def)
next
  case (MarkRead u i)
  with assms(2) marks_footprint(1) [of u i st] passwords_identity [of st' st] show ?thesis
    by (auto simp: but_notifications_def)
next
  case (MarkAllRead u)
  with assms(2) marks_footprint(2) [of u st] passwords_identity [of st' st] show ?thesis
    by (auto simp: but_notifications_def)
next
  case (Expire now)
  with assms(2) show ?thesis by (auto simp: passwords_def reap_expired_def)
qed

section \<open>The invariant\<close>

definition store_sound :: "ext \<Rightarrow> store \<Rightarrow> bool" where
  "store_sound P st \<longleftrightarrow> database_inv st \<and> (\<forall>h\<in>passwords st. strong_hash P h)"

lemma act_sound:
  assumes "sound_action a" "store_sound (sv_ext E) (fst s)"
  shows "store_sound (sv_ext E) (fst (act E a s))"
proof -
  obtain st w where s: "s = (st, w)" by (cases s)
  obtain st' w' where t: "act E a s = (st', w')" by fastforce
  from act_inv [of s E a] act_passwords [OF assms(1) t [unfolded s]] assms(2) show ?thesis
    unfolding s t [unfolded s] store_sound_def by auto
qed

lemma acts_sound:
  "list_all sound_action as \<Longrightarrow> store_sound (sv_ext E) (fst s) \<Longrightarrow> store_sound (sv_ext E) (fst (fold (act E) as s))"
  by (induction as arbitrary: s) (simp_all add: act_sound)

lemma handled_sound:
  assumes "store_sound (sv_ext E) (as_store s)" "handle_request E k rq q s = (a, s')"
  shows "store_sound (sv_ext E) (as_store s')"
proof -
  from spec [OF handle_sound [of E k rq q, unfolded performs_def], of s] assms(2)
  obtain as where "list_all sound_action as" "(as_store s', as_world s') = fold (act E) as (as_store s, as_world s)" by auto
  with acts_sound [of as E "(as_store s, as_world s)"] assms(1) show ?thesis by (metis fst_conv)
qed

definition server_sound :: "ext \<Rightarrow> 'b server \<Rightarrow> bool" where
  "server_sound P x \<longleftrightarrow> store_sound P (as_store (sr_app x)) \<and> no_clash idem_clash (sr_rows x)"

lemma counted_sound:
  assumes "store_sound (sv_ext E) (as_store s)" "counted_routes E k elapsed q rq (s, m) = (a, s', m')"
  shows "store_sound (sv_ext E) (as_store s')"
  using handled_sound [OF assms(1), of k rq q] assms(2)
  by (auto simp: counted_routes_def split: prod.splits answer.splits)

lemma settle_unique: "no_clash idem_clash rows \<Longrightarrow> settle cols now h resp rows = (resp', rows') \<Longrightarrow> no_clash idem_clash rows'"
  using idem_step_unique [of rows js H P cols cfg "Finish now h resp"] by simp

lemma guarded_sound:
  assumes "server_sound (sv_ext E) x" "guarded_routes E cols k later elapsed q rq x = (a, y)"
  shows "server_sound (sv_ext E) y"
proof -
  obtain ad rows where ad: "admit (en_js E) (en_header_ok E) (sv_ext E) cols (sv_config E) (c_now k) rq (sr_rows x) = (ad, rows)"
    by fastforce
  have rows: "no_clash idem_clash rows" by (rule admit_unique [OF _ ad]) (use assms(1) in \<open>simp add: server_sound_def\<close>)
  obtain b s m where c: "counted_routes E k elapsed q rq (sr_app x, sr_metrics x) = (b, s, m)" by (metis surj_pair)
  have s: "store_sound (sv_ext E) (as_store s)"
    by (rule counted_sound [OF _ c]) (use assms(1) in \<open>simp add: server_sound_def\<close>)
  show ?thesis
    using assms rows s
    by (cases ad; cases b)
      (auto simp: guarded_routes_def ad c server_sound_def dest: settle_unique [OF rows] split: prod.splits)
qed

lemma turn_sound: "server_sound (sv_ext E) x \<Longrightarrow> server_sound (sv_ext E) (snd (request_turn E cols k later elapsed q rq x))"
  using guarded_sound [of E x cols k later elapsed q rq]
  by (auto simp: request_turn_def Let_def server_sound_def split: prod.splits answer.splits)

text \<open>The tasks beside the requests are operations as well.\<close>

lemma cleanup_acts:
  "cleanup_turn (sv_config E) now (sv_backend E) rows st w = (rows', st', w') \<Longrightarrow>
   (st', w') = fold (act E) [Expire now, Queue (Reap now 14), Files (ReapAbandoned now)] (st, w)"
  by (auto simp: cleanup_turn_def Let_def reap_expired_def split: prod.splits)

lemma step_sound: "server_sound (sv_ext E) x \<Longrightarrow> server_sound (sv_ext E) (server_step E cols ev x)"
proof (cases ev)
  case (Request k later elapsed q rq)
  assume "server_sound (sv_ext E) x"
  with Request turn_sound show ?thesis by simp
next
  case (WorkerTurn now w)
  assume x: "server_sound (sv_ext E) x"
  with act_sound [of "Queue (Work now w)" E "(as_store (sr_app x), as_world (sr_app x))"] WorkerTurn show ?thesis
    by (auto simp: server_sound_def on_store_def split: option.splits)
next
  case (WorkerCrash now w)
  assume x: "server_sound (sv_ext E) x"
  with act_sound [of "Queue (WorkerDies now w)" E "(as_store (sr_app x), as_world (sr_app x))"] WorkerCrash show ?thesis
    by (auto simp: server_sound_def on_store_def)
next
  case (CleanUp now)
  assume x: "server_sound (sv_ext E) x"
  obtain rows st w where c: "cleanup_turn (sv_config E) now (sv_backend E) (sr_rows x) (as_store (sr_app x)) (as_world (sr_app x))
      = (rows, st, w)" by (metis surj_pair)
  have "store_sound (sv_ext E) st"
    using acts_sound [of "[Expire now, Queue (Reap now 14), Files (ReapAbandoned now)]" E "(as_store (sr_app x), as_world (sr_app x))"] x
      arg_cong [OF cleanup_acts [OF c], of fst] by (simp add: server_sound_def del: act.simps fold.simps)
  moreover have "no_clash idem_clash rows"
    using cleanup_tables(1) [OF c] x by (auto simp: server_sound_def intro: no_clash_delete)
  ultimately show ?thesis using CleanUp c by (simp add: server_sound_def)
qed

interpretation server: step_system "server_sound (sv_ext E)" "server_step E cols" for E :: "'b env" and cols
  by unfold_locales (rule step_sound)

lemma fresh_sound: "server_sound P (fresh_server w jc)"
proof -
  have "accounts empty_store = []" by (simp add: empty_store_def)
  then show ?thesis by (simp add: server_sound_def fresh_server_def store_sound_def database_inv_empty passwords_def)
qed


section \<open>A concrete run\<close>

definition newcomer :: sign_up_request where
  "newcomer = \<lparr>su_name = ''Ann'', su_email = ''ann@x'', su_password = ''correcthorse'', su_image = None\<rparr>"

definition sign_up_call :: request where
  "sign_up_call = \<lparr>rq_method = ''POST'', rq_path = ''/api/v1/auth/sign-up/email'', rq_headers = [], rq_peer = None, rq_body = []\<rparr>"

definition sign_up_env :: "nat env" where
  "sign_up_env = sample_env\<lparr>en_parsers := sample_parsers\<lparr>ps_sign_up := (\<lambda>_. Inr newcomer)\<rparr>\<rparr>"

lemma newcomer_strong: "validate_password_strength ''correcthorse'' = Inr ()"
  by code_simp

lemma newcomer_registered:
  "\<exists>x st'. sign_up_tx toy_ext sample_config (sample_call 5 (CHR ''a'')) newcomer ctx empty_store = Inr (x, st') \<and>
     map a_password (accounts st') = [Some ''correcthorse$salt'']"
proof -
  have h: "hash_password toy_ext sample_config ''salt'' ''correcthorse'' = Inr ''correcthorse$salt''"
    by (simp add: hash_password_def argon2_ok_def toy_ext_def sample_config_def for_testing_def Let_def)
  show ?thesis
    by (simp add: sign_up_tx_def newcomer_def h Let_def empty_store_def sql_exists_def sql_insert_def
        issue_verification_token_def create_session_def sql_update_def new_account_row_def)
qed

lemma newcomer_valid: "validated (sv_validators sign_up_env) (validate_sign_up (sv_validators sign_up_env) newcomer) = Inr ()"
proof -
  have "check_field ''name'' ''Name must be between 2 and 100 characters'' (length_between 2 100 ''Ann'') = []"
    "check_field ''email'' [] (length_between 0 254 ''ann@x'') = []" "check_field ''email'' ''Invalid email format'' True = []"
    by code_simp+
  with newcomer_strong show ?thesis
    by (simp add: validated_def validate_sign_up_def newcomer_def sign_up_env_def sample_env_def strength_errors_def
        email_errors_def name_errors_def opt_check_def)
qed

lemma newcomer_stored:
  "map a_password (accounts (snd (sign_up_route (sv_validators sign_up_env) toy_ext sample_config
      (sample_call 5 (CHR ''a'')) ctx newcomer empty_store))) = [Some ''correcthorse$salt'']"
proof -
  obtain u vt sid rt st' where t: "sign_up_tx toy_ext sample_config (sample_call 5 (CHR ''a'')) newcomer ctx empty_store = Inr ((u, vt, sid, rt), st')"
      "map a_password (accounts st') = [Some ''correcthorse$salt'']"
    using newcomer_registered [of ctx] by (metis surj_pair)
  then show ?thesis
    by (simp add: sign_up_route_def newcomer_valid guarded_def sign_up_email_def reply_created_def Let_def split: sum.split)
qed

lemma newcomer_served:
  "map a_password (accounts (as_store (snd (handle_request sign_up_env (sample_call 5 (CHR ''a'')) sign_up_call []
      (sr_app (fresh_server disk None)))))) = [Some ''correcthorse$salt'']"
proof -
  have r: "route ''POST'' ''/api/v1/auth/sign-up/email'' = Routed SignUpEmail []" by code_simp
  have e: "sv_ext sign_up_env = toy_ext" "sv_config sign_up_env = sample_config"
    "ps_sign_up (en_parsers sign_up_env) rq = Inr newcomer" for rq
    by (simp_all add: sign_up_env_def sample_env_def)
  let ?ctx = "request_context_of sample_config sign_up_call"
  obtain res st where s: "sign_up_route (sv_validators sign_up_env) toy_ext sample_config (sample_call 5 (CHR ''a'')) ?ctx newcomer
      empty_store = (res, st)" by fastforce
  have "map a_password (accounts st) = [Some ''correcthorse$salt'']" using newcomer_stored [of ?ctx, unfolded s snd_conv] .
  moreover have "rq_method sign_up_call = ''POST''" "rq_path sign_up_call = ''/api/v1/auth/sign-up/email''"
    by (simp_all add: sign_up_call_def)
  ultimately show ?thesis by (simp add: handle_request_def r parsed_def e creates_def s fresh_server_def)
qed


end
