(* ===== verification/Startup.thy ===== *)
theory Startup
  imports Server
begin

text \<open>
  How the server comes up: \<open>main\<close> (\<open>src/main.rs\<close>), \<open>AppState::new\<close> (\<open>src/state/mod.rs\<close>) and
  the construction of the rate limiters (\<open>src/middleware/rate_limit.rs\<close>) inside \<open>create_app\<close>.
  What the surroundings do at each point is a parameter.  The governor crate's builder takes
  the seconds between two replenished cells and the size of the bucket, and gives no limiter
  if either is zero; the limiters' counting is the crate's.
\<close>

section \<open>Rate limiters\<close>

record governor =
  gv_period_seconds :: nat
  gv_burst_size :: nat
  gv_trust_proxy_headers :: bool

definition build_limiter :: "nat \<Rightarrow> nat \<Rightarrow> bool \<Rightarrow> string + governor" where
  "build_limiter per_second burst_size trust_proxy =
     (if per_second = 0 \<or> burst_size = 0 then Inl ''Invalid rate limit configuration''
      else Inr \<lparr>gv_period_seconds = per_second, gv_burst_size = burst_size, gv_trust_proxy_headers = trust_proxy\<rparr>)"

definition global_limiter :: "app_config \<Rightarrow> string + governor" where
  "global_limiter cfg = build_limiter (rate_limit_per_second cfg) (rate_limit_burst_size cfg) (trust_proxy_headers cfg)"

definition auth_limiter :: "app_config \<Rightarrow> string + governor" where
  "auth_limiter cfg =
     build_limiter (auth_rate_limit_per_second cfg) (auth_rate_limit_burst_size cfg) (trust_proxy_headers cfg)"

text \<open>\<open>create_app\<close>: the routes with the limiter of their credential endpoints, then the global one; both are expected.\<close>

definition create_app_limiters :: "app_config \<Rightarrow> string + (governor \<times> governor)" where
  "create_app_limiters cfg =
     (case auth_limiter cfg of
        Inl e \<Rightarrow> Inl (''Invalid auth rate limit configuration: '' @ quoted e)
      | Inr au \<Rightarrow>
        (case global_limiter cfg of
           Inl e \<Rightarrow> Inl (''Invalid rate limit configuration: '' @ quoted e)
         | Inr gl \<Rightarrow> Inr (au, gl)))"

section \<open>The start\<close>

text \<open>The surroundings: the variables, and whether each call outside succeeds.\<close>

record 'b surroundings =
  bt_env :: "string \<Rightarrow> string option"
  bt_recorder_ok :: bool
  bt_connects :: "app_config \<Rightarrow> bool"
  bt_migrates :: bool
  bt_client_ok :: bool
  bt_backend :: "app_config \<Rightarrow> 'b backend"  \<comment> \<open>\<open>select_backend\<close> on the disk and the S3 service at hand\<close>
  bt_world :: "'b world"
  bt_address_ok :: "string \<Rightarrow> bool"
  bt_binds :: "string \<Rightarrow> bool"

datatype startup_error = ConfigRefused string | DatabaseUnreachable | MigrationFailed | StorageUnusable app_error | BindFailed

text \<open>What has been done by the time the start ends.\<close>

datatype boot_step = Migrated | StorageChecked | ListenerSpawned | CleanupSpawned | WorkerSpawned | AppCreated | Bound

record 'b running =
  rn_config :: app_config
  rn_backend :: "'b backend"
  rn_jwks :: "jwks_client option"
  rn_auth_limiter :: governor
  rn_global_limiter :: governor
  rn_address :: string

datatype 'b outcome = Failed startup_error | Aborted string | Serving "'b running"

text \<open>\<open>AppState::new\<close>: the single sign-on client.\<close>

definition app_jwks :: "app_config \<Rightarrow> jwks_client option" where
  "app_jwks cfg =
     map_option (\<lambda>o'. jwks_new (oidc_jwks_url o') (oidc_expected_issuer o') (oidc_expected_audience o')) (cfg_oidc cfg)"

definition server_address :: "app_config \<Rightarrow> string" where
  "server_address cfg = server_host cfg @ '':'' @ nat_str (server_port cfg)"

text \<open>From the spawned tasks on.\<close>

definition serve_app :: "'b surroundings \<Rightarrow> app_config \<Rightarrow> boot_step list \<times> 'b outcome" where
  "serve_app B cfg =
     (let done = [Migrated, StorageChecked, ListenerSpawned, CleanupSpawned, WorkerSpawned] in
      case create_app_limiters cfg of
        Inl msg \<Rightarrow> (done, Aborted msg)
      | Inr (au, gl) \<Rightarrow>
          if \<not> bt_address_ok B (server_address cfg) then (done @ [AppCreated], Aborted ''Invalid address format'')
          else if \<not> bt_binds B (server_address cfg) then (done @ [AppCreated], Failed BindFailed)
          else (done @ [AppCreated, Bound],
                Serving \<lparr>rn_config = cfg, rn_backend = bt_backend B cfg, rn_jwks = app_jwks cfg,
                  rn_auth_limiter = au, rn_global_limiter = gl, rn_address = server_address cfg\<rparr>))"

definition main_start :: "ext \<Rightarrow> 'b surroundings \<Rightarrow> boot_step list \<times> 'b outcome" where
  "main_start P B =
     (if \<not> bt_recorder_ok B then ([], Aborted ''Failed to install Prometheus metrics recorder'')
      else (case load_from_env P (bt_env B) of
        Inl e \<Rightarrow> ([], Failed (ConfigRefused e))
      | Inr cfg \<Rightarrow>
          if \<not> bt_connects B cfg then ([], Failed DatabaseUnreachable)
          else if \<not> bt_migrates B then ([], Failed MigrationFailed)
          else if \<not> bt_client_ok B then ([Migrated], Aborted ''Failed to build reqwest client'')
          else (case be_check_ready (bt_backend B cfg) (bt_world B) of
                  Inl e \<Rightarrow> ([Migrated], Failed (StorageUnusable e))
                | Inr _ \<Rightarrow> serve_app B cfg)))"

section \<open>Facts\<close>

lemma create_app_limiters_Inr:
  "create_app_limiters cfg = Inr (au, gl) \<longleftrightarrow>
     0 < auth_rate_limit_per_second cfg \<and> 0 < auth_rate_limit_burst_size cfg \<and>
     0 < rate_limit_per_second cfg \<and> 0 < rate_limit_burst_size cfg \<and>
     au = \<lparr>gv_period_seconds = auth_rate_limit_per_second cfg, gv_burst_size = auth_rate_limit_burst_size cfg,
       gv_trust_proxy_headers = trust_proxy_headers cfg\<rparr> \<and>
     gl = \<lparr>gv_period_seconds = rate_limit_per_second cfg, gv_burst_size = rate_limit_burst_size cfg,
       gv_trust_proxy_headers = trust_proxy_headers cfg\<rparr>"
  by (auto simp: create_app_limiters_def auth_limiter_def global_limiter_def build_limiter_def)

lemma loaded_bursts:
  "load_from_env P e = Inr cfg \<Longrightarrow> 0 < rate_limit_burst_size cfg \<and> 0 < auth_rate_limit_burst_size cfg"
  using load_from_env_parts(6) [of P e cfg] by (auto simp: load_rate_limits_def and_then_Inr split: if_splits)

text \<open>The surroundings let the program get as far as its tasks.\<close>

definition reaches_tasks :: "ext \<Rightarrow> 'b surroundings \<Rightarrow> app_config \<Rightarrow> bool" where
  "reaches_tasks P B cfg \<longleftrightarrow> bt_recorder_ok B \<and> load_from_env P (bt_env B) = Inr cfg \<and> bt_connects B cfg \<and>
     bt_migrates B \<and> bt_client_ok B \<and> is_ok (be_check_ready (bt_backend B cfg) (bt_world B))"

lemma main_start_reaches: "reaches_tasks P B cfg \<Longrightarrow> main_start P B = serve_app B cfg"
  by (auto simp: reaches_tasks_def main_start_def is_ok_iff)

lemma main_start_cases:
  obtains (early) steps out where "main_start P B = (steps, out)" "set steps \<subseteq> {Migrated}" "\<And>r. out \<noteq> Serving r"
      "\<And>cfg. \<not> reaches_tasks P B cfg"
    | (tasks) cfg where "reaches_tasks P B cfg" "main_start P B = serve_app B cfg"
proof (cases "\<exists>cfg. reaches_tasks P B cfg")
  case True
  then show ?thesis using tasks main_start_reaches by blast
next
  case False
  have "set (fst (main_start P B)) \<subseteq> {Migrated} \<and> (\<forall>r. snd (main_start P B) \<noteq> Serving r)"
    using False by (auto simp: main_start_def reaches_tasks_def is_ok_iff split: sum.splits)
  then show ?thesis using early False by (metis prod.collapse)
qed

text \<open>
  C40. The server serves exactly if the recorder installs, the configuration loads, the
  database is reachable and migrated, the storage backend is ready, the address is one and
  can be bound, and both intervals of the rate limiters are positive; it then uses the loaded
  configuration, its backend, and limiters with the loaded buckets.  Nothing is spawned or
  bound before the migrations ran and the storage was checked.  The configuration's own
  checks do not include the intervals: a zero loads, and the program aborts after its tasks
  are running.
\<close>

theorem startup_serves_iff:
  "((\<exists>r. snd (main_start P B) = Serving r) \<longleftrightarrow>
      (\<exists>cfg. reaches_tasks P B cfg \<and> 0 < rate_limit_per_second cfg \<and> 0 < auth_rate_limit_per_second cfg \<and>
         bt_address_ok B (server_address cfg) \<and> bt_binds B (server_address cfg))) \<and>
   (\<forall>r. snd (main_start P B) = Serving r \<longrightarrow>
      load_from_env P (bt_env B) = Inr (rn_config r) \<and> rn_backend r = bt_backend B (rn_config r) \<and>
      gv_burst_size (rn_auth_limiter r) = auth_rate_limit_burst_size (rn_config r) \<and>
      gv_period_seconds (rn_auth_limiter r) = auth_rate_limit_per_second (rn_config r)) \<and>
   (\<forall>s\<in>{ListenerSpawned, CleanupSpawned, WorkerSpawned, AppCreated, Bound}. s \<in> set (fst (main_start P B)) \<longrightarrow>
      (\<exists>cfg. reaches_tasks P B cfg) \<and> take 2 (fst (main_start P B)) = [Migrated, StorageChecked]) \<and>
   (\<forall>cfg. reaches_tasks P B cfg \<and> (rate_limit_per_second cfg = 0 \<or> auth_rate_limit_per_second cfg = 0) \<longrightarrow>
      (\<exists>msg. snd (main_start P B) = Aborted msg) \<and> WorkerSpawned \<in> set (fst (main_start P B)))"
proof (cases rule: main_start_cases [of P B])
  case (early steps out)
  then show ?thesis by auto
next
  case (tasks cfg)
  have u: "reaches_tasks P B c \<longleftrightarrow> c = cfg" for c using tasks(1) by (auto simp: reaches_tasks_def)
  have l: "load_from_env P (bt_env B) = Inr cfg" using tasks(1) by (simp add: reaches_tasks_def)
  note b = loaded_bursts [OF l]
  show ?thesis
  proof (cases "create_app_limiters cfg")
    case (Inl msg)
    then have z: "rate_limit_per_second cfg = 0 \<or> auth_rate_limit_per_second cfg = 0"
      using b create_app_limiters_Inr [of cfg] by fastforce
    have s: "main_start P B = ([Migrated, StorageChecked, ListenerSpawned, CleanupSpawned, WorkerSpawned], Aborted msg)"
      by (simp add: tasks(2) serve_app_def Inl)
    show ?thesis using z by (auto simp: s u)
  next
    case (Inr p)
    obtain au gl where p: "p = (au, gl)" by (cases p)
    note i = Inr [unfolded p create_app_limiters_Inr]
    show ?thesis
      using i
      by (cases "bt_address_ok B (server_address cfg)"; cases "bt_binds B (server_address cfg)")
        (auto simp: tasks(2) serve_app_def Inr p u l Let_def)
  qed
qed

section \<open>A concrete start\<close>

definition sample_surroundings :: "(string \<Rightarrow> string option) \<Rightarrow> nat surroundings" where
  "sample_surroundings e = \<lparr>bt_env = e, bt_recorder_ok = True, bt_connects = (\<lambda>_. True), bt_migrates = True,
     bt_client_ok = True, bt_backend = (\<lambda>cfg. local_backend (\<lambda>_ _. None) (upload_dir cfg)), bt_world = disk,
     bt_address_ok = (\<lambda>_. True), bt_binds = (\<lambda>_. True)\<rparr>"

lemma sample_reaches:
  "load_from_env toy_ext e = Inr cfg \<Longrightarrow> reaches_tasks toy_ext (sample_surroundings e) cfg"
  by (simp add: reaches_tasks_def sample_surroundings_def local_backend_def local_check_ready_def)

lemma sample_idle_loads:
  "\<exists>cfg. load_from_env toy_ext (sample_production_env(''RATE_LIMIT_PER_SECOND'' \<mapsto> ''0'')) = Inr cfg \<and> rate_limit_per_second cfg = 0"
proof -
  have key: "parse_encryption_key toy_ext ''00112233445566778899aabbccddeeff00112233445566778899aabbccddeeff''
      = Inr (hex_pairs ''00112233445566778899aabbccddeeff00112233445566778899aabbccddeeff'')"
    by (simp add: parse_encryption_key_def str_trim_graphic is_graphic_def hex_decode_def
        is_ascii_hexdigit_def hex_val_def)
  have z: "from_str_uint 64 ''0'' = Inr 0" by (simp add: from_str_uint_def parse_uint_def parse_nat_def digit_val_def Let_def)
  show ?thesis
    unfolding load_from_env_def sample_production_env_def
    by (simp add: load_environment_def opt_string_def str_trim_graphic is_graphic_def parse_env_def
        require_def load_simps load_jwt_secret_def load_encryption_key_def key z load_cors_def
        load_metrics_token_def load_smtp_def load_storage_backend_def load_s3_def oauth_provider_def
        to_ascii_lowercase_def ascii_lower_def)
qed

theorem startup_serves_iff_witness:
  "(\<exists>r. snd (main_start toy_ext (sample_surroundings sample_production_env)) = Serving r) \<and>
   (\<exists>msg. snd (main_start toy_ext (sample_surroundings (sample_production_env(''RATE_LIMIT_PER_SECOND'' \<mapsto> ''0'')))) = Aborted msg)"
proof
  obtain cfg where c: "load_from_env toy_ext sample_production_env = Inr cfg" using sample_production_loads by blast
  have "load_rate_limits sample_production_env = Inr (20, 40, 1, 10)"
    by (simp add: load_rate_limits_def sample_production_env_def parse_env_def opt_string_def)
  then have "0 < rate_limit_per_second cfg" "0 < auth_rate_limit_per_second cfg"
    using load_from_env_parts(6) [OF c] by simp_all
  moreover have "bt_address_ok (sample_surroundings e) a" "bt_binds (sample_surroundings e) a" for e a
    by (simp_all add: sample_surroundings_def)
  ultimately show "\<exists>r. snd (main_start toy_ext (sample_surroundings sample_production_env)) = Serving r"
    using startup_serves_iff [of toy_ext "sample_surroundings sample_production_env", THEN conjunct1] sample_reaches [OF c]
    by blast
  obtain cfg' where "load_from_env toy_ext (sample_production_env(''RATE_LIMIT_PER_SECOND'' \<mapsto> ''0'')) = Inr cfg'"
      "rate_limit_per_second cfg' = 0"
    using sample_idle_loads by blast
  with startup_serves_iff [of toy_ext "sample_surroundings (sample_production_env(''RATE_LIMIT_PER_SECOND'' \<mapsto> ''0''))",
      THEN conjunct2, THEN conjunct2, THEN conjunct2, rule_format, of cfg'] sample_reaches
  show "\<exists>msg. snd (main_start toy_ext (sample_surroundings (sample_production_env(''RATE_LIMIT_PER_SECOND'' \<mapsto> ''0'')))) = Aborted msg"
    by blast
qed

end
