(* ===== verification/Spec2Isabelle.thy ===== *)
theory Spec2Isabelle
  imports Auth_Facts Pagination Webhooks File_System Idempotency OAuth_Facts Feeds Tenant_Routes
    Maintenance Http_Layers Routes Startup
begin

text \<open>
  A model of the API server under \<open>src/\<close>, an axum application over PostgreSQL, and the
  theorems that make it correct.

  \<^bold>\<open>The program.\<close>  A request passes the layers of \<open>src/lib.rs\<close> (rate limit, security headers,
  idempotent replay), is matched against the route table, becomes a caller in the extractors
  of \<open>src/middleware\<close>, and reaches a handler of \<open>src/routes\<close>, which validates the body, asks
  for a scope and calls a service of \<open>src/services\<close>.  Services share one database and one
  storage backend.  Beside the requests run a worker for queued jobs, an hourly clean-up, a
  reaper of abandoned uploads and the listener that feeds event streams (\<open>src/main.rs\<close>).

  \<^bold>\<open>Theories and sources.\<close>
    \<^item> \<open>Prelude\<close>, \<open>Sql\<close>: the parts of Rust's standard library and of SQL the source uses; the
      locales \<open>sql_table\<close>, \<open>sql_unique\<close> (what a table's constraints give its statements) and
      \<open>step_system\<close>, \<open>monotone_system\<close> (an invariant and a history relation over sequences of
      operations).  Every table and every component below interprets one of them.
    \<^item> \<open>App_Error\<close> (\<open>error/mod.rs\<close>), \<open>Crypto\<close> (\<open>crypto/mod.rs\<close>), \<open>Config\<close> (\<open>config/mod.rs\<close>),
      \<open>Store\<close> (\<open>migrations\<close>, row types of \<open>models\<close>, \<open>services/audit.rs\<close>, \<open>services/mail.rs\<close>).
    \<^item> \<open>Scopes\<close> (\<open>models/api_key.rs\<close>), \<open>Pagination\<close> (\<open>models/pagination.rs\<close>).
    \<^item> \<open>Auth\<close>, \<open>Auth_Facts\<close> (\<open>services/auth.rs\<close>, \<open>models/user.rs\<close>): sign-up, sign-in with lockout,
      refresh rotation, recovery tokens, profiles, deletion.
    \<^item> \<open>OAuth\<close>, \<open>OAuth_Facts\<close> (\<open>services/oauth.rs\<close>): sign-in with Google and GitHub.
    \<^item> \<open>ApiKeys\<close> (\<open>services/api_key.rs\<close>), \<open>Orgs\<close> (\<open>services/org.rs\<close>, \<open>models/org.rs\<close>).
    \<^item> \<open>Extractors\<close> (\<open>middleware/auth.rs\<close>, \<open>crypto/jwks.rs\<close>, \<open>middleware/app_context.rs\<close>,
      \<open>middleware/rate_limit.rs\<close>): who a request is.
    \<^item> \<open>Jobs\<close> (\<open>services/job_queue.rs\<close>), \<open>Webhooks\<close> (\<open>services/webhook.rs\<close>, the worker of \<open>main.rs\<close>).
    \<^item> \<open>Storage_Backend\<close> (\<open>services/storage_backend\<close>, \<open>state/mod.rs\<close>), \<open>Storage\<close>
      (\<open>services/storage.rs\<close>, \<open>models/upload.rs\<close>, the reaper of \<open>main.rs\<close>), \<open>File_Routes\<close>
      (\<open>routes/v1/files.rs\<close>), \<open>File_Facts\<close>, \<open>File_System\<close>.
    \<^item> \<open>Idempotency\<close> (\<open>middleware/idempotency.rs\<close>), \<open>Http_Layers\<close>
      (\<open>middleware/security_headers.rs\<close>, \<open>middleware/sunset.rs\<close>, \<open>routes/health.rs\<close>, \<open>lib.rs\<close>).
    \<^item> \<open>Realtime\<close> (\<open>services/realtime.rs\<close>, \<open>services/notification.rs\<close>, \<open>routes/v1/realtime.rs\<close>),
      \<open>Feeds\<close> (\<open>routes/v1/notifications.rs\<close>, \<open>routes/v1/audit.rs\<close>).
    \<^item> \<open>Account_Routes\<close> (\<open>routes/v1/auth.rs\<close>, \<open>routes/v1/users.rs\<close>), \<open>Tenant_Routes\<close>
      (\<open>routes/v1/apps.rs\<close>, \<open>routes/v1/api_key.rs\<close>, \<open>routes/v1/webhooks.rs\<close>), \<open>Routes\<close>
      (\<open>routes/mod.rs\<close>, \<open>routes/v1/mod.rs\<close> and the routers): the handlers and their paths.
    \<^item> \<open>Maintenance\<close> (\<open>cleanup_loop\<close> of \<open>main.rs\<close>), \<open>Metrics\<close> (\<open>middleware/metrics.rs\<close>).
    \<^item> \<open>Footprints\<close>: which tables each component touches, one datatype of all operations, and the
      invariant of the whole database, which each of them keeps.
    \<^item> \<open>Program\<close>: every endpoint with its extractors in the order of its handler's arguments
      (\<open>serve\<close>) and the request through the route table (\<open>handle_request\<close>); \<open>Program_Facts\<close>:
      what a handler may do to the state, by endpoint and credential.
    \<^item> \<open>Server\<close>: the layers around the routes, the worker and the clean-up as one step relation
      on the whole state (\<open>create_app\<close> of \<open>lib.rs\<close>); \<open>Startup\<close>: how \<open>main\<close> gets there
      (\<open>main.rs\<close>, \<open>state/mod.rs\<close>, the limiters of \<open>middleware/rate_limit.rs\<close>).

  \<^bold>\<open>How the code is written down.\<close>  Records carry the source's fields under a short prefix, enums
  are datatypes.  A fallible operation returns \<open>app_error + 'a\<close>; one that changes the database
  takes the \<open>store\<close> (a record of tables, each the list of its rows) and returns it, and a
  failed transaction returns the store it got.  A \<open>String\<close> is the list of its UTF-8 bytes.
  Fixed-width numbers are words or are cast where the code casts; times are microseconds.
  What an operation draws from the outside (clock, fresh UUIDs, random tokens, salt, nonces,
  whether the best-effort audit insert reaches the database) is its \<open>call\<close> argument, with one
  moment for all clock reads of a request.

  \<^bold>\<open>Parameters.\<close>  Code that is not in the repository is an argument: \<open>ext\<close> (hashing, HMAC, AEAD,
  Argon2, JWT, UUID text), \<open>sso\<close> (key-set fetching and remote JWT decoding), \<open>oauth_web\<close> (the
  provider and the oauth2 crate), \<open>web\<close> (the HTTP client of deliveries), \<open>s3_api\<close>, \<open>io\<close>,
  \<open>event_json\<close>, \<open>json_printer\<close>, \<open>validators\<close>; in \<open>Program\<close> also \<open>parsers\<close> (what the framework and
  serde make of bodies, queries and path captures, with the responses given where they fail)
  and \<open>en_print\<close> (answers as JSON); in \<open>Startup\<close> the \<open>surroundings\<close>.  The laws a theorem needs of them are predicates
  such as \<open>hmac_ok\<close> or \<open>uuid_ok\<close>, stated in the theorem and shown to hold of a concrete
  instance by its witness.  The columns of the idempotency table are a parameter because the
  statements name columns the migration does not create.

  \<^bold>\<open>What the theorems show.\<close>  Component invariants over every sequence of operations (schema,
  revocation for good, consumed tokens and states, job bookkeeping, file history); who may do
  what (sign-in, lockout, scopes, memberships, downloads, application context, streams);
  refinement (the worker to the phases of a job, both backends to one object store, every
  handler to at most two operations of the components); the invariant of the whole server over
  any interleaving of requests, worker turns, crashes and clean-ups; what a machine's key and
  a refused caller cannot do on any endpoint; the number of metric series; when the start
  succeeds;
  equivalence (a feed walked by cursors to its query, the clean-up to doing nothing, the guard
  on the migrated table to no guard); termination of the worker; and, where the code does not
  do what it says, the exact behaviour.

  \<^bold>\<open>Bounds.\<close>  The only recursions that are not structural are the worker loop, whose measure is
  the number of due jobs, and the lossy UTF-8 reader, whose measure is the length; no fuel is
  used in the model of the code.  Page sizes and cursor limits are clamped to 100 as in the
  source; the proof that the additions stay within 64 bits uses exactly that.

  \<^bold>\<open>Not modelled.\<close>  Log lines; timing equalisation in sign-in; loss of the database connection
  in the middle of an operation and statements of two requests interleaving inside one
  transaction (operations are atomic steps); column length limits; the order of rows with
  equal sort keys (insertion order here); SMTP delivery; the token bucket, body limit,
  timeout, tracing and request-id layers of third-party crates; the text of the OpenAPI
  document; the rendering of the metrics; tracing setup and signal handling; two requests
  overlapping inside a handler (\<open>Server\<close> runs one request after the other; the overlap of
  requests at the idempotency guard is in \<open>Idempotency\<close>).
\<close>

end
